(* ===== verification/Prelude.thy ===== *)
theory Prelude
  imports Main "HOL-Library.Word" "HOL-Library.Sublist" "HOL-Library.Multiset"
begin

text \<open>
  What every component of the metrics server and agent shares: the machine types of Go that
  the code uses (\<open>int64\<close>, \<open>float64\<close>, byte strings), the string functions of package
  \<open>strings\<close>, iteration over a Go map in the order the runtime happens to choose, and the
  theorem collections of the development.

  A Go \<open>string\<close> or \<open>[]byte\<close> is a list of bytes (\<open>char list\<close>). A \<open>float64\<close> is its IEEE 754
  bit pattern: the code stores, copies and compares floats with zero, and those operations
  are exact on bit patterns (\<open>-0 == 0\<close> holds and \<open>NaN == x\<close> never does, as in Go).
\<close>

unbundle bit_operations_syntax

named_theorems go_defs \<open>definitions to unfold when a call is evaluated symbolically\<close>
named_theorems map_view \<open>how an operation changes the map view of a state\<close>

section \<open>Machine types\<close>

type_synonym int64 = "64 word"
type_synonym bytes = string

datatype float64 = F64 (f64_bits: "64 word")

instantiation float64 :: zero
begin
definition zero_float64 :: float64 where
  "zero_float64 = F64 0"
instance ..
end

definition f64_exponent :: "float64 \<Rightarrow> 64 word" where
  "f64_exponent x = drop_bit 52 (f64_bits x) AND 0x7FF"

definition f64_fraction :: "float64 \<Rightarrow> 64 word" where
  "f64_fraction x = f64_bits x AND 0xFFFFFFFFFFFFF"

definition f64_is_finite :: "float64 \<Rightarrow> bool" where
  "f64_is_finite x \<longleftrightarrow> f64_exponent x \<noteq> 0x7FF"

definition f64_is_nan :: "float64 \<Rightarrow> bool" where
  "f64_is_nan x \<longleftrightarrow> f64_exponent x = 0x7FF \<and> f64_fraction x \<noteq> 0"

text \<open>\<open>x == 0\<close> of Go: true of both signed zeros, false of every NaN.\<close>

definition f64_is_zero :: "float64 \<Rightarrow> bool" where
  "f64_is_zero x \<longleftrightarrow> f64_bits x = 0 \<or> f64_bits x = 0x8000000000000000"

definition f64_NaN :: float64 where
  "f64_NaN = F64 0x7FF8000000000001"

definition f64_one :: float64 where
  "f64_one = F64 0x3FF0000000000000"

lemma f64_is_zero_0 [simp]: "f64_is_zero 0"
  by (simp add: f64_is_zero_def zero_float64_def)

lemma f64_finite_0 [simp]: "f64_is_finite 0"
  by (simp add: f64_is_finite_def f64_exponent_def zero_float64_def)

lemma f64_NaN_not_finite [simp]: "\<not> f64_is_finite f64_NaN"
  by (simp add: f64_is_finite_def f64_exponent_def f64_NaN_def)

lemma f64_NaN_not_zero [simp]: "\<not> f64_is_zero f64_NaN"
  by (simp add: f64_is_zero_def f64_NaN_def)

lemma f64_one_not_zero [simp]: "\<not> f64_is_zero f64_one"
  by (simp add: f64_is_zero_def f64_one_def)

lemma f64_one_finite [simp]: "f64_is_finite f64_one"
  by (simp add: f64_is_finite_def f64_exponent_def f64_one_def)

section \<open>Strings\<close>

definition nl :: bytes where
  "nl = [CHR 0x0A]"

text \<open>\<open>strings.Contains s sub\<close>: some suffix of the first argument starts with the second.\<close>

fun contains :: "bytes \<Rightarrow> bytes \<Rightarrow> bool" where
  "contains [] sub = (sub = [])"
| "contains (c # cs) sub = (prefix sub (c # cs) \<or> contains cs sub)"

lemma contains_sublist: "contains s sub \<longleftrightarrow> sublist sub s"
  by (induction s) (auto simp: sublist_Cons_right)

lemma contains_self [simp]: "contains s s"
  by (simp add: contains_sublist)

lemma contains_append: "contains s sub \<Longrightarrow> contains (xs @ s @ ys) sub"
  by (simp add: contains_sublist sublist_appendI sublist_order.order.trans)

lemma append_tail_self: "xs @ ys @ zs = zs \<longleftrightarrow> xs @ ys = []"
  by (metis append.assoc append_self_conv2)

text \<open>\<open>strings.ToLower\<close>, on the ASCII letters.\<close>

definition lower_char :: "char \<Rightarrow> char" where
  "lower_char c = (if 65 \<le> (of_char c :: nat) \<and> (of_char c :: nat) \<le> 90
     then char_of ((of_char c :: nat) + 32) else c)"

definition to_lower :: "bytes \<Rightarrow> bytes" where
  "to_lower s = map lower_char s"

lemma lower_char_idem [simp]: "lower_char (lower_char c) = lower_char c"
  by (auto simp: lower_char_def)

lemma to_lower_idem [simp]: "to_lower (to_lower s) = to_lower s"
  by (simp add: to_lower_def comp_def)

section \<open>Iteration over a Go map\<close>

text \<open>
  \<open>for k, v := range m\<close> visits every key once, in an order that the runtime chooses. The
  order is an argument \<open>ord\<close> of each definition that iterates; \<open>map_order m ord\<close> says
  that it is a possible order for \<open>m\<close>, and \<open>map_range\<close> gives the visited pairs.
\<close>

definition map_order :: "('k \<rightharpoonup> 'v) \<Rightarrow> 'k list \<Rightarrow> bool" where
  "map_order m ord \<longleftrightarrow> distinct ord \<and> set ord = dom m"

definition map_range :: "('k \<rightharpoonup> 'v) \<Rightarrow> 'k list \<Rightarrow> ('k \<times> 'v) list" where
  "map_range m ord = List.map_filter (\<lambda>k. map_option (Pair k) (m k)) ord"

lemma map_range_Nil [simp]: "map_range m [] = []"
  by (simp add: map_range_def)

lemma map_range_Cons [simp]:
  "map_range m (k # ks) = (case m k of None \<Rightarrow> map_range m ks | Some v \<Rightarrow> (k, v) # map_range m ks)"
  by (simp add: map_range_def split: option.splits)

lemma map_order_finite: "map_order m ord \<Longrightarrow> finite (dom m)"
  by (metis List.finite_set map_order_def)

lemma map_order_exists: "finite (dom m) \<Longrightarrow> \<exists>ord. map_order m ord"
  by (simp add: map_order_def) (metis finite_distinct_list)

lemma map_order_empty_iff: "map_order m ord \<Longrightarrow> ord = [] \<longleftrightarrow> m = Map.empty"
  by (metis dom_eq_empty_conv map_order_def set_empty)

lemma keys_map_range: "set ord \<subseteq> dom m \<Longrightarrow> map fst (map_range m ord) = ord"
  by (induction ord) (auto split: option.splits)

lemma map_range_nonempty: "map_order m ord \<Longrightarrow> map_range m ord = [] \<longleftrightarrow> m = Map.empty"
  by (metis keys_map_range map_is_Nil_conv map_order_def map_order_empty_iff order_refl)

lemma set_map_range: "(k, v) \<in> set (map_range m ord) \<longleftrightarrow> k \<in> set ord \<and> m k = Some v"
  by (induction ord) (auto split: option.splits)

lemma map_of_map_range: "map_order m ord \<Longrightarrow> map_of (map_range m ord) = m"
proof
  fix k
  assume ord: "map_order m ord"
  then have keys: "map fst (map_range m ord) = ord"
    by (simp add: keys_map_range map_order_def)
  show "map_of (map_range m ord) k = m k"
  proof (cases "m k")
    case None
    with ord keys show ?thesis
      by (metis domIff image_set map_of_eq_None_iff map_order_def)
  next
    case (Some v)
    with ord have "(k, v) \<in> set (map_range m ord)"
      by (auto simp: set_map_range map_order_def)
    with keys ord Some show ?thesis
      by (simp add: map_order_def)
  qed
qed

lemma map_of_rev: "distinct (map fst kvs) \<Longrightarrow> map_of (rev kvs) = map_of kvs"
proof
  fix k
  assume d: "distinct (map fst kvs)"
  show "map_of (rev kvs) k = map_of kvs k"
  proof (cases "map_of kvs k")
    case None
    then have "k \<notin> fst ` set (rev kvs)" by (simp add: map_of_eq_None_iff)
    then have "map_of (rev kvs) k = None" by (simp only: map_of_eq_None_iff not_False_eq_True)
    with None show ?thesis by simp
  next
    case (Some v)
    then have "(k, v) \<in> set (rev kvs)" by (simp add: map_of_SomeD)
    with d Some show ?thesis by (simp add: rev_map [symmetric])
  qed
qed

lemma mset_map_filter_cong:
  "mset xs = mset ys \<Longrightarrow> mset (List.map_filter f xs) = mset (List.map_filter f ys)"
  by (simp add: List.map_filter_def)

section \<open>Panics and contexts\<close>

text \<open>The outcome of code that may panic.\<close>

datatype 'a outcome = Return 'a | Panic bytes

text \<open>\<open>time.Duration\<close> is a number of nanoseconds; \<open>time.NewTicker\<close> panics unless it is positive.\<close>

type_synonym duration = int64

definition Second :: duration where
  "Second = 1000000000"

definition NewTicker :: "duration \<Rightarrow> duration outcome" where
  "NewTicker d = (if sint d \<le> 0 then Panic ''non-positive interval for NewTicker'' else Return d)"

lemma NewTicker_pos: "0 < sint d \<Longrightarrow> NewTicker d = Return d"
  by (simp add: NewTicker_def)

end
