(* ===== verification/GoError.thy ===== *)
theory GoError
  imports Prelude
begin

text \<open>
  Go errors as values. \<open>ErrorString\<close> is \<open>errors.New\<close> and \<open>fmt.Errorf\<close> without a
  wrapped error, \<open>WrapError\<close> is \<open>fmt.Errorf("...: %w", err)\<close>, \<open>PgError\<close> an error the
  PostgreSQL server returned (its SQLSTATE code and its text), \<open>ErrNoRows\<close> the sentinel of
  the driver for an empty result, and \<open>ErrNotExist\<close> the error of opening a missing file.
  The two classifiers of the repository that decide whether an operation is retried are here:
  \<open>isConnectionError\<close> of the database storage and \<open>isNetworkError\<close>, which the agent's
  client and the audit observer both have.
\<close>

datatype goerr =
    ErrorString bytes
  | WrapError bytes goerr
  | PgError bytes bytes
  | ErrNoRows
  | ErrNotExist
  | Canceled
  | DeadlineExceeded

text \<open>The text that \<open>err.Error()\<close> returns.\<close>

fun error_text :: "goerr \<Rightarrow> bytes" where
  "error_text (ErrorString s) = s"
| "error_text (WrapError p e) = p @ error_text e"
| "error_text (PgError code text) = text"
| "error_text ErrNoRows = ''no rows in result set''"
| "error_text ErrNotExist = ''no such file or directory''"
| "error_text Canceled = ''context canceled''"
| "error_text DeadlineExceeded = ''context deadline exceeded''"

text \<open>\<open>errors.As(err, &pgErr)\<close>: the first PostgreSQL error of the chain of wrapped errors.\<close>

fun errors_As_pg :: "goerr \<Rightarrow> (bytes \<times> bytes) option" where
  "errors_As_pg (PgError code text) = Some (code, text)"
| "errors_As_pg (WrapError p e) = errors_As_pg e"
| "errors_As_pg e = None"

text \<open>\<open>errors.Is(err, pgx.ErrNoRows)\<close>.\<close>

fun errors_Is_no_rows :: "goerr \<Rightarrow> bool" where
  "errors_Is_no_rows ErrNoRows = True"
| "errors_Is_no_rows (WrapError p e) = errors_Is_no_rows e"
| "errors_Is_no_rows e = False"

text \<open>The SQLSTATE codes that package \<open>pgerrcode\<close> names in \<open>isConnectionError\<close>, in the code's
  order: AdminShutdown, CannotConnectNow, ConnectionException, ConnectionDoesNotExist,
  ConnectionFailure, SQLClientUnableToEstablishSQLConnection,
  SQLServerRejectedEstablishmentOfSQLConnection, TransactionResolutionUnknown.\<close>

definition connection_codes :: "bytes list" where
  "connection_codes =
     [''57P01'', ''57P03'', ''08000'', ''08003'', ''08006'', ''08001'', ''08004'', ''08007'']"

definition isConnectionError :: "goerr \<Rightarrow> bool" where
  "isConnectionError err =
     (case errors_As_pg err of
        Some (code, text) \<Rightarrow> List.member connection_codes code
      | None \<Rightarrow> contains (error_text err) ''connection refused''
              \<or> contains (error_text err) ''network''
              \<or> contains (error_text err) ''timeout'')"

definition isNetworkError :: "goerr option \<Rightarrow> bool" where
  "isNetworkError err =
     (case err of
        None \<Rightarrow> False
      | Some e \<Rightarrow>
          (let errorStr = error_text e in
             contains errorStr ''connection refused''
             \<or> contains errorStr ''timeout''
             \<or> contains errorStr ''network''))"

text \<open>Wrapping an error with a prefix changes neither what \<open>errors.As\<close> finds nor, for an
  error of the server, the decision to retry.\<close>

lemma errors_As_pg_wrap [simp]: "errors_As_pg (WrapError p e) = errors_As_pg e"
  by simp

lemma isConnectionError_pg_wrap:
  "errors_As_pg e \<noteq> None \<Longrightarrow> isConnectionError (WrapError p e) = isConnectionError e"
  by (auto simp: isConnectionError_def)

lemma isConnectionError_PgError:
  "isConnectionError (PgError code text) \<longleftrightarrow> code \<in> set connection_codes"
  by (simp add: isConnectionError_def)

lemma contains_appendI2: "contains s sub \<Longrightarrow> contains (p @ s) sub"
  using contains_append [of s sub p "[]"] by simp

lemma isNetworkError_wrap:
  "isNetworkError (Some e) \<Longrightarrow> isNetworkError (Some (WrapError p e))"
  by (auto simp: isNetworkError_def Let_def contains_appendI2)

lemma isConnectionError_network:
  "errors_As_pg e = None \<Longrightarrow> isConnectionError e = isNetworkError (Some e)"
  by (auto simp: isConnectionError_def isNetworkError_def Let_def)

end
