(* ===== verification/Http.thy ===== *)
theory Http
  imports Prelude GoError
begin

text \<open>
  The part of package \<open>net/http\<close> that handlers and middleware use. A handler's effect on its
  \<open>ResponseWriter\<close> is the list of calls it makes (\<open>wcall\<close>); \<open>serve\<close> interprets such a list the
  way the server's own writer does: the first \<open>WriteHeader\<close> decides the status and freezes the
  headers, a \<open>Write\<close> before it sends 200, later calls of \<open>WriteHeader\<close> are ignored. Header
  names are compared without regard to case. A middleware that wraps the writer is a function
  from the calls of the inner handler to the calls on the outer writer.
\<close>

type_synonym header = "bytes \<rightharpoonup> bytes"

definition hget :: "header \<Rightarrow> bytes \<Rightarrow> bytes" where
  "hget h key = (case h (to_lower key) of None \<Rightarrow> [] | Some v \<Rightarrow> v)"

definition hset :: "bytes \<Rightarrow> bytes \<Rightarrow> header \<Rightarrow> header" where
  "hset key v h = h(to_lower key \<mapsto> v)"

definition hdel :: "bytes \<Rightarrow> header \<Rightarrow> header" where
  "hdel key h = h(to_lower key := None)"

text \<open>A request as a handler sees it. Reading the body gives its bytes or an error; the body of
  a server request is never nil. \<open>url_param\<close> holds what the router matched.\<close>

record request =
  req_method :: bytes
  req_path :: bytes
  req_header :: header
  req_body :: "goerr + bytes"
  ContentLength :: int
  RemoteAddr :: bytes
  url_param :: "bytes \<Rightarrow> bytes"

definition StatusOK :: nat where "StatusOK = 200"
definition StatusBadRequest :: nat where "StatusBadRequest = 400"
definition StatusNotFound :: nat where "StatusNotFound = 404"
definition StatusUnsupportedMediaType :: nat where "StatusUnsupportedMediaType = 415"
definition StatusTooManyRequests :: nat where "StatusTooManyRequests = 429"
definition StatusInternalServerError :: nat where "StatusInternalServerError = 500"
definition StatusServiceUnavailable :: nat where "StatusServiceUnavailable = 503"

lemmas status_defs = StatusOK_def StatusBadRequest_def StatusNotFound_def
  StatusUnsupportedMediaType_def StatusTooManyRequests_def StatusInternalServerError_def
  StatusServiceUnavailable_def

section \<open>Response writers\<close>

datatype wcall =
    SetHeader bytes bytes
  | DelHeader bytes
  | WriteHeader nat
  | Write bytes

record rwriter =
  rw_header :: header
  rw_sent :: "(nat \<times> header) option"
  rw_body :: bytes

definition fresh_writer :: rwriter where
  "fresh_writer = \<lparr>rw_header = Map.empty, rw_sent = None, rw_body = []\<rparr>"

definition rw_WriteHeader :: "nat \<Rightarrow> rwriter \<Rightarrow> rwriter" where
  "rw_WriteHeader code w =
     (case rw_sent w of Some sent \<Rightarrow> w | None \<Rightarrow> w\<lparr>rw_sent := Some (code, rw_header w)\<rparr>)"

fun rw_call :: "wcall \<Rightarrow> rwriter \<Rightarrow> rwriter" where
  "rw_call (SetHeader k v) w = w\<lparr>rw_header := hset k v (rw_header w)\<rparr>"
| "rw_call (DelHeader k) w = w\<lparr>rw_header := hdel k (rw_header w)\<rparr>"
| "rw_call (WriteHeader code) w = rw_WriteHeader code w"
| "rw_call (Write p) w = (let w' = rw_WriteHeader StatusOK w in w'\<lparr>rw_body := rw_body w' @ p\<rparr>)"

fun rw_calls :: "wcall list \<Rightarrow> rwriter \<Rightarrow> rwriter" where
  "rw_calls [] w = w"
| "rw_calls (c # cs) w = rw_calls cs (rw_call c w)"

lemma rw_calls_append: "rw_calls (xs @ ys) w = rw_calls ys (rw_calls xs w)"
  by (induction xs arbitrary: w) simp_all

record response =
  status :: nat
  resp_header :: header
  body :: bytes

text \<open>When the handler returns, a response that was never started is an empty 200.\<close>

definition serve :: "wcall list \<Rightarrow> response" where
  "serve cs =
     (let w = rw_WriteHeader StatusOK (rw_calls cs fresh_writer) in
      case rw_sent w of
        Some (code, h) \<Rightarrow> \<lparr>status = code, resp_header = h, body = rw_body w\<rparr>
      | None \<Rightarrow> \<lparr>status = 0, resp_header = Map.empty, body = []\<rparr>)"

text \<open>\<open>http.Error\<close>.\<close>

definition http_Error :: "bytes \<Rightarrow> nat \<Rightarrow> wcall list" where
  "http_Error msg code =
     [DelHeader ''Content-Length'',
      SetHeader ''Content-Type'' ''text/plain; charset=utf-8'',
      SetHeader ''X-Content-Type-Options'' ''nosniff'',
      WriteHeader code,
      Write (msg @ nl)]"

section \<open>The status of a call list\<close>

text \<open>The status is the argument of the first \<open>WriteHeader\<close>, or 200 when a \<open>Write\<close> comes first.\<close>

fun first_status :: "wcall list \<Rightarrow> nat" where
  "first_status [] = StatusOK"
| "first_status (WriteHeader code # cs) = code"
| "first_status (Write p # cs) = StatusOK"
| "first_status (SetHeader k v # cs) = first_status cs"
| "first_status (DelHeader k # cs) = first_status cs"

fun written :: "wcall list \<Rightarrow> bytes" where
  "written [] = []"
| "written (Write p # cs) = p @ written cs"
| "written (c # cs) = written cs"

lemma rw_sent_calls: "rw_sent w = Some x \<Longrightarrow> rw_sent (rw_calls cs w) = Some x"
proof (induction cs arbitrary: w)
  case Nil
  then show ?case by simp
next
  case (Cons c cs)
  then show ?case by (cases c) (auto simp: rw_WriteHeader_def Let_def)
qed

lemma rw_WriteHeader_frame [simp]:
  "rw_body (rw_WriteHeader code w) = rw_body w" "rw_header (rw_WriteHeader code w) = rw_header w"
  by (auto simp: rw_WriteHeader_def split: option.splits)

lemma rw_body_calls: "rw_body (rw_calls cs w) = rw_body w @ written cs"
proof (induction cs arbitrary: w)
  case Nil
  then show ?case by simp
next
  case (Cons c cs)
  then show ?case by (cases c) (auto simp: Let_def)
qed

lemma rw_sent_first_status:
  "rw_sent w = None \<Longrightarrow>
     \<exists>h. rw_sent (rw_WriteHeader StatusOK (rw_calls cs w)) = Some (first_status cs, h)"
proof (induction cs arbitrary: w)
  case Nil
  then show ?case by (simp add: rw_WriteHeader_def)
next
  case (Cons c cs)
  have go: "rw_sent (rw_calls cs v) = Some x \<Longrightarrow> rw_sent (rw_WriteHeader StatusOK (rw_calls cs v)) = Some x"
    for v x by (simp add: rw_WriteHeader_def)
  show ?case
  proof (cases c)
    case (WriteHeader code)
    with Cons.prems show ?thesis
      using go [OF rw_sent_calls [of "rw_WriteHeader code w" "(code, rw_header w)" cs]]
      by (simp add: rw_WriteHeader_def)
  next
    case (Write p)
    define w' where "w' = (rw_WriteHeader StatusOK w)\<lparr>rw_body := rw_body w @ p\<rparr>"
    have "rw_sent w' = Some (StatusOK, rw_header w)"
      using Cons.prems by (simp add: w'_def rw_WriteHeader_def)
    from go [OF rw_sent_calls [OF this]] Write show ?thesis
      by (simp add: w'_def Let_def)
  qed (use Cons in simp_all)
qed

lemma status_serve: "status (serve cs) = first_status cs"
  using rw_sent_first_status [of fresh_writer cs]
  by (auto simp: serve_def Let_def fresh_writer_def)

lemma body_serve: "body (serve cs) = written cs"
proof -
  have b: "rw_body (rw_calls cs fresh_writer) = written cs"
    by (simp add: rw_body_calls fresh_writer_def)
  show ?thesis
    using rw_sent_first_status [of fresh_writer cs] b
    by (auto simp: serve_def Let_def fresh_writer_def)
qed

lemma http_Error_status [simp]:
  "first_status (http_Error msg code @ cs) = code" "first_status (http_Error msg code) = code"
  by (simp_all add: http_Error_def)

lemma http_Error_written [simp]:
  "written (http_Error msg code) = msg @ nl"
  by (simp add: http_Error_def)

lemma written_append [simp]: "written (xs @ ys) = written xs @ written ys"
proof (induction xs)
  case (Cons c xs)
  then show ?case by (cases c) simp_all
qed simp

end
