(* ===== verification/Strconv.thy ===== *)
theory Strconv
  imports Prelude
begin

text \<open>
  Package \<open>strconv\<close> as far as the code uses it on integers: \<open>ParseInt(s, 10, 64)\<close>, which the
  update handler calls on the URL, and \<open>FormatInt(i, 10)\<close>, which the value handler and the
  listings call, with the round trip between them. The text forms of \<open>float64\<close>
  (\<open>ParseFloat\<close>, \<open>FormatFloat\<close>) are arguments of the definitions that use them.
\<close>

datatype num_error = ErrSyntax | ErrRange

section \<open>FormatInt\<close>

fun dec_nat :: "nat \<Rightarrow> bytes" where
  "dec_nat n = (if n < 10 then [char_of (48 + n)] else dec_nat (n div 10) @ [char_of (48 + n mod 10)])"

declare dec_nat.simps [simp del]

definition FormatInt :: "int64 \<Rightarrow> bytes" where
  "FormatInt w = (let i = sint w in
     if i < 0 then ''-'' @ dec_nat (nat (- i)) else dec_nat (nat i))"

section \<open>ParseInt\<close>

definition digit_value :: "char \<Rightarrow> nat option" where
  "digit_value c = (let n = of_char c :: nat in if 48 \<le> n \<and> n \<le> 57 then Some (n - 48) else None)"

text \<open>The loop of \<open>ParseUint\<close> in base 10: a byte that is not a digit is a syntax error, a
  value that leaves 64 bits a range error, whichever comes first.\<close>

fun parse_digits :: "nat \<Rightarrow> bytes \<Rightarrow> num_error + nat" where
  "parse_digits n [] = Inr n"
| "parse_digits n (c # cs) =
     (case digit_value c of
        None \<Rightarrow> Inl ErrSyntax
      | Some d \<Rightarrow> if 10 * n + d < 2 ^ 64 then parse_digits (10 * n + d) cs else Inl ErrRange)"

definition ParseUint :: "bytes \<Rightarrow> num_error + nat" where
  "ParseUint s = (if s = [] then Inl ErrSyntax else parse_digits 0 s)"

definition ParseInt :: "bytes \<Rightarrow> num_error + int64" where
  "ParseInt s =
     (if s = [] then Inl ErrSyntax
      else
        let neg = (hd s = CHR ''-'');
            body = (if hd s = CHR ''+'' \<or> hd s = CHR ''-'' then tl s else s)
        in (case ParseUint body of
              Inl e \<Rightarrow> Inl e
            | Inr un \<Rightarrow>
                if \<not> neg \<and> un \<ge> 2 ^ 63 then Inl ErrRange
                else if neg \<and> un > 2 ^ 63 then Inl ErrRange
                else Inr (word_of_int (if neg then - int un else int un))))"

section \<open>The round trip\<close>

lemma digit_value_dec [simp]: "d < 10 \<Longrightarrow> digit_value (char_of (48 + d)) = Some d"
  by (simp add: digit_value_def)

lemma dec_nat_nonempty [simp]: "dec_nat n \<noteq> []"
  by (subst dec_nat.simps) simp

lemma dec_nat_digits: "c \<in> set (dec_nat n) \<Longrightarrow> digit_value c \<noteq> None"
proof (induction n rule: dec_nat.induct)
  case (1 n)
  then show ?case
    by (cases "n < 10") (auto simp: dec_nat.simps [of n])
qed

lemma dec_nat_hd_not_sign:
  "hd (dec_nat n) \<noteq> CHR ''-''" "hd (dec_nat n) \<noteq> CHR ''+''"
proof -
  have "digit_value (hd (dec_nat n)) \<noteq> None"
    by (rule dec_nat_digits [of _ n]) simp
  moreover have "digit_value (CHR ''-'') = None" "digit_value (CHR ''+'') = None"
    by (simp_all add: digit_value_def)
  ultimately show "hd (dec_nat n) \<noteq> CHR ''-''" and "hd (dec_nat n) \<noteq> CHR ''+''"
    by auto
qed

text \<open>Reading the digits of a number leaves the number in the accumulator.\<close>

lemma parse_digits_dec_nat:
  "n < 2 ^ 64 \<Longrightarrow> parse_digits 0 (dec_nat n @ s) = parse_digits n s"
proof (induction n arbitrary: s rule: dec_nat.induct)
  case (1 n)
  show ?case
  proof (cases "n < 10")
    case True
    then show ?thesis by (simp add: dec_nat.simps [of n])
  next
    case False
    have "10 * (n div 10) + n mod 10 = n" by simp
    with False 1 show ?thesis by (simp add: dec_nat.simps [of n])
  qed
qed

lemma ParseUint_dec_nat: "n < 2 ^ 64 \<Longrightarrow> ParseUint (dec_nat n) = Inr n"
  using parse_digits_dec_nat [of n "[]"] by (simp add: ParseUint_def)

text \<open>A number is within the bounds of its width whenever parsing accepts it.\<close>

lemma parse_digits_bound: "parse_digits n s = Inr m \<Longrightarrow> n < 2 ^ 64 \<Longrightarrow> m < 2 ^ 64"
  by (induction s arbitrary: n) (auto split: option.splits if_splits)

lemma sint_int64_bounds: "- (2 ^ 63) \<le> sint (w :: int64)" "sint (w :: int64) < 2 ^ 63"
  using sint_greater_eq [of w] sint_less [of w] by simp_all

lemma ParseInt_FormatInt_aux: "ParseInt (FormatInt w) = Inr w"
proof (cases "sint w < 0")
  case True
  have "nat (- sint w) \<le> 2 ^ 63" using sint_int64_bounds [of w] by simp
  then have "nat (- sint w) < 2 ^ 64" by simp
  with True \<open>nat (- sint w) \<le> 2 ^ 63\<close> show ?thesis
    by (simp add: FormatInt_def ParseInt_def ParseUint_dec_nat)
next
  case False
  have "nat (sint w) < 2 ^ 63" using sint_int64_bounds [of w] False by simp
  then have "nat (sint w) < 2 ^ 64" by simp
  with False \<open>nat (sint w) < 2 ^ 63\<close> show ?thesis
    using dec_nat_hd_not_sign [of "nat (sint w)"]
    by (simp add: FormatInt_def ParseInt_def ParseUint_dec_nat)
qed

lemma FormatInt_inj: "FormatInt v = FormatInt w \<Longrightarrow> v = w"
  by (metis ParseInt_FormatInt_aux sum.inject(2))

end
