(* ===== verification/Model.thy ===== *)
theory Model
  imports Strconv
begin

text \<open>
  Package \<open>internal/model\<close>: the metric as it travels in JSON and is kept in the storage
  (\<open>Metrics\<close>), the agent's snapshot of the runtime (\<open>MemoryMetrics\<close>) with its map form, zero
  test and copy, and the audit event. A pointer field is an option, a nil slice is \<open>None\<close>.
\<close>

section \<open>Metrics\<close>

definition Counter :: bytes where
  "Counter = ''counter''"

definition Gauge :: bytes where
  "Gauge = ''gauge''"

lemma Counter_neq_Gauge [simp]: "Counter \<noteq> Gauge" "Gauge \<noteq> Counter"
  by (simp_all add: Counter_def Gauge_def)

lemma to_lower_Counter [simp]: "to_lower Counter = Counter"
  by (simp add: to_lower_def lower_char_def Counter_def)

lemma to_lower_Gauge [simp]: "to_lower Gauge = Gauge"
  by (simp add: to_lower_def lower_char_def Gauge_def)

record Metrics =
  ID :: bytes
  MType :: bytes
  Delta :: "int64 option"
  Value :: "float64 option"
  Hash :: bytes

definition zero_Metrics :: Metrics where
  "zero_Metrics = \<lparr>ID = [], MType = [], Delta = None, Value = None, Hash = []\<rparr>"

definition counter_metric :: "bytes \<Rightarrow> int64 \<Rightarrow> Metrics" where
  "counter_metric i d = \<lparr>ID = i, MType = Counter, Delta = Some d, Value = None, Hash = []\<rparr>"

definition gauge_metric :: "bytes \<Rightarrow> float64 \<Rightarrow> Metrics" where
  "gauge_metric i v = \<lparr>ID = i, MType = Gauge, Delta = None, Value = Some v, Hash = []\<rparr>"

lemma counter_metric_sel [simp]:
  "ID (counter_metric i d) = i" "MType (counter_metric i d) = Counter"
  "Delta (counter_metric i d) = Some d" "Value (counter_metric i d) = None"
  "Hash (counter_metric i d) = []"
  by (simp_all add: counter_metric_def)

lemma gauge_metric_sel [simp]:
  "ID (gauge_metric i v) = i" "MType (gauge_metric i v) = Gauge"
  "Delta (gauge_metric i v) = None" "Value (gauge_metric i v) = Some v"
  "Hash (gauge_metric i v) = []"
  by (simp_all add: gauge_metric_def)

section \<open>Audit events\<close>

text \<open>\<open>TS\<close> is the time in milliseconds that \<open>Timestamp\<close> stands for.\<close>

record MetricProcessedEvent =
  Timestamp :: int
  TS :: int64
  EvMetrics :: "bytes list option"
  IPAddr :: bytes

section \<open>MemoryMetrics\<close>

record MemoryMetrics =
  Alloc :: float64
  BuckHashSys :: float64
  Frees :: float64
  GCCPUFraction :: float64
  GCSys :: float64
  HeapAlloc :: float64
  HeapIdle :: float64
  HeapInuse :: float64
  HeapObjects :: float64
  HeapReleased :: float64
  HeapSys :: float64
  LastGC :: float64
  Lookups :: float64
  MCacheInuse :: float64
  MCacheSys :: float64
  MSpanInuse :: float64
  MSpanSys :: float64
  Mallocs :: float64
  NextGC :: float64
  NumForcedGC :: float64
  NumGC :: float64
  OtherSys :: float64
  PauseTotalNs :: float64
  StackInuse :: float64
  StackSys :: float64
  Sys :: float64
  TotalAlloc :: float64
  RandomValue :: float64
  TotalMemory :: float64
  FreeMemory :: float64
  CPUutilization :: "float64 list option"

definition zero_MemoryMetrics :: MemoryMetrics where
  "zero_MemoryMetrics =
     \<lparr>Alloc = 0, BuckHashSys = 0, Frees = 0, GCCPUFraction = 0, GCSys = 0, HeapAlloc = 0,
      HeapIdle = 0, HeapInuse = 0, HeapObjects = 0, HeapReleased = 0, HeapSys = 0, LastGC = 0,
      Lookups = 0, MCacheInuse = 0, MCacheSys = 0, MSpanInuse = 0, MSpanSys = 0, Mallocs = 0,
      NextGC = 0, NumForcedGC = 0, NumGC = 0, OtherSys = 0, PauseTotalNs = 0, StackInuse = 0,
      StackSys = 0, Sys = 0, TotalAlloc = 0, RandomValue = 0, TotalMemory = 0, FreeMemory = 0,
      CPUutilization = None\<rparr>"

text \<open>The literal of \<open>ToMap\<close>, in the order of the source.\<close>

definition metric_fields :: "MemoryMetrics \<Rightarrow> (bytes \<times> float64) list" where
  "metric_fields m =
     [(''Alloc'', Alloc m), (''BuckHashSys'', BuckHashSys m), (''Frees'', Frees m),
      (''GCCPUFraction'', GCCPUFraction m), (''GCSys'', GCSys m), (''HeapAlloc'', HeapAlloc m),
      (''HeapIdle'', HeapIdle m), (''HeapInuse'', HeapInuse m), (''HeapObjects'', HeapObjects m),
      (''HeapReleased'', HeapReleased m), (''HeapSys'', HeapSys m), (''LastGC'', LastGC m),
      (''Lookups'', Lookups m), (''MCacheInuse'', MCacheInuse m), (''MCacheSys'', MCacheSys m),
      (''MSpanInuse'', MSpanInuse m), (''MSpanSys'', MSpanSys m), (''Mallocs'', Mallocs m),
      (''NextGC'', NextGC m), (''NumForcedGC'', NumForcedGC m), (''NumGC'', NumGC m),
      (''OtherSys'', OtherSys m), (''PauseTotalNs'', PauseTotalNs m),
      (''StackInuse'', StackInuse m), (''StackSys'', StackSys m), (''Sys'', Sys m),
      (''TotalAlloc'', TotalAlloc m), (''RandomValue'', RandomValue m),
      (''TotalMemory'', TotalMemory m), (''FreeMemory'', FreeMemory m)]"

definition cpu_key :: "nat \<Rightarrow> bytes" where
  "cpu_key i = ''CPUutilization'' @ dec_nat (i + 1)"

text \<open>The loop of \<open>ToMap\<close> over the processors, from index \<open>i\<close>.\<close>

fun add_cpu :: "(bytes \<rightharpoonup> float64) \<Rightarrow> nat \<Rightarrow> float64 list \<Rightarrow> (bytes \<rightharpoonup> float64)" where
  "add_cpu result i [] = result"
| "add_cpu result i (u # us) = add_cpu (result(cpu_key i \<mapsto> u)) (Suc i) us"

definition slice_elems :: "'a list option \<Rightarrow> 'a list" where
  "slice_elems s = (case s of None \<Rightarrow> [] | Some xs \<Rightarrow> xs)"

lemma slice_elems_simps [simp]: "slice_elems None = []" "slice_elems (Some xs) = xs"
  by (simp_all add: slice_elems_def)

definition ToMap :: "MemoryMetrics \<Rightarrow> (bytes \<rightharpoonup> float64)" where
  "ToMap m = add_cpu (map_of (metric_fields m)) 0 (slice_elems (CPUutilization m))"

definition IsZero :: "MemoryMetrics \<Rightarrow> bool" where
  "IsZero m \<longleftrightarrow> f64_is_zero (Alloc m) \<and> f64_is_zero (Sys m) \<and> f64_is_zero (TotalAlloc m)"

text \<open>\<open>String\<close>: \<open>fmt_f 2\<close> is \<open>strconv.FormatFloat(x, 'f', 2, 64)\<close>.\<close>

definition MM_String :: "(int \<Rightarrow> float64 \<Rightarrow> bytes) \<Rightarrow> MemoryMetrics \<Rightarrow> bytes" where
  "MM_String fmt_f m = ''MemoryMetrics{Alloc: '' @ fmt_f 2 (Alloc m)
     @ '', HeapAlloc: '' @ fmt_f 2 (HeapAlloc m)
     @ '', Sys: '' @ fmt_f 2 (Sys m) @ ''}''"

lemma IsZero_zero [simp]: "IsZero zero_MemoryMetrics"
  by (simp add: IsZero_def zero_MemoryMetrics_def)

end
