(* ===== verification/Retry.thy ===== *)
theory Retry
  imports GoError
begin

text \<open>
  Package \<open>internal/retry\<close>. An operation is a state transformer that returns an optional
  error. A context says, for the wait after the attempt with index \<open>i\<close>, whether it is done
  before the delay has passed (\<open>ctx_wait i\<close>), and what \<open>ctx.Err()\<close> gives when it is asked
  without a wait (\<open>ctx_err\<close>). \<open>retry_Do\<close> also returns the delays that were slept.

  The count of attempts is \<open>MaxRetries + 1\<close> in 64-bit arithmetic, as in the code.
\<close>

record retry_config =
  MaxRetries :: int64
  Delays :: "duration list option"
  IsRetryableFn :: "(goerr \<Rightarrow> bool) option"

record context_t =
  ctx_wait :: "nat \<Rightarrow> goerr option"
  ctx_err :: "goerr option"

definition background :: context_t where
  "background = \<lparr>ctx_wait = (\<lambda>i. None), ctx_err = None\<rparr>"

type_synonym 's operation = "'s \<Rightarrow> goerr option \<times> 's"

section \<open>The loop\<close>

function retry_loop :: "(goerr \<Rightarrow> bool) \<Rightarrow> duration list \<Rightarrow> context_t \<Rightarrow> 's operation \<Rightarrow> int
    \<Rightarrow> nat \<Rightarrow> goerr option \<Rightarrow> duration list \<Rightarrow> 's \<Rightarrow> goerr option \<times> 's \<times> duration list" where
  "retry_loop retryable delays ctx opn limit i lastErr slept s =
     (if int i < limit then
        (case opn s of
           (None, s') \<Rightarrow> (None, s', slept)
         | (Some err, s') \<Rightarrow>
             if \<not> retryable err then (Some err, s', slept)
             else if i < length delays then
               (case ctx_wait ctx i of
                  Some e \<Rightarrow> (Some e, s', slept)
                | None \<Rightarrow> retry_loop retryable delays ctx opn limit (Suc i) (Some err)
                            (slept @ [delays ! i]) s')
             else retry_loop retryable delays ctx opn limit (Suc i) (Some err) slept s')
      else (case lastErr of Some e \<Rightarrow> (Some e, s, slept) | None \<Rightarrow> (ctx_err ctx, s, slept)))"
  by pat_completeness auto
termination
  by (relation "measure (\<lambda>(r, d, c, f, limit, i, l, sl, s). nat (limit - int i))") auto

declare retry_loop.simps [simp del]

definition default_delays :: "duration list" where
  "default_delays = [Second, 3 * Second, 5 * Second]"

definition retry_Do :: "context_t \<Rightarrow> retry_config \<Rightarrow> 's operation \<Rightarrow> 's \<Rightarrow> goerr option \<times> 's \<times> duration list" where
  "retry_Do ctx cfg opn s =
     (let maxRetries = (if sint (MaxRetries cfg) < 0 then 0 else MaxRetries cfg);
          delays = (case Delays cfg of None \<Rightarrow> default_delays | Some ds \<Rightarrow> ds);
          retryable = (case IsRetryableFn cfg of None \<Rightarrow> (\<lambda>e. False) | Some f \<Rightarrow> f);
          totalAttempts = maxRetries + 1
      in retry_loop retryable delays ctx opn (sint totalAttempts) 0 None [] s)"

text \<open>The error and the state, for callers that do not look at the delays.\<close>

definition retry_do :: "context_t \<Rightarrow> retry_config \<Rightarrow> 's operation \<Rightarrow> 's operation" where
  "retry_do ctx cfg opn s = (case retry_Do ctx cfg opn s of (r, s', slept) \<Rightarrow> (r, s'))"

section \<open>Attempts\<close>

definition max_retries :: "retry_config \<Rightarrow> nat" where
  "max_retries cfg = nat (sint (MaxRetries cfg))"

definition retries_bounded :: "retry_config \<Rightarrow> bool" where
  "retries_bounded cfg \<longleftrightarrow> sint (MaxRetries cfg) < 2 ^ 63 - 1"

lemma sint_plus_one_int64: "sint (w :: int64) < 2 ^ 63 - 1 \<Longrightarrow> sint (w + 1) = sint w + 1"
  using sint_greater_eq [of w] by (simp add: sint_word_ariths signed_take_bit_int_eq_self)

lemma total_attempts:
  assumes "retries_bounded cfg"
  shows "sint ((if sint (MaxRetries cfg) < 0 then 0 else MaxRetries cfg) + 1) = int (max_retries cfg) + 1"
proof (cases "sint (MaxRetries cfg) < 0")
  case True
  then show ?thesis by (simp add: max_retries_def)
next
  case False
  with assms sint_plus_one_int64 [of "MaxRetries cfg"] show ?thesis
    by (simp add: max_retries_def retries_bounded_def)
qed

text \<open>The state after \<open>n\<close> attempts, and the result of the attempt with index \<open>n\<close>.\<close>

fun after :: "'s operation \<Rightarrow> 's \<Rightarrow> nat \<Rightarrow> 's" where
  "after opn s 0 = s"
| "after opn s (Suc n) = snd (opn (after opn s n))"

definition attempt :: "'s operation \<Rightarrow> 's \<Rightarrow> nat \<Rightarrow> goerr option" where
  "attempt opn s n = fst (opn (after opn s n))"

lemma after_shift: "after opn (snd (opn s)) n = after opn s (Suc n)"
  by (induction n) simp_all

lemma attempt_shift: "attempt opn (snd (opn s)) n = attempt opn s (Suc n)"
  by (simp add: attempt_def after_shift)

text \<open>The attempt with index \<open>i\<close> failed in a way that lets the loop go on.\<close>

definition goes_on :: "(goerr \<Rightarrow> bool) \<Rightarrow> duration list \<Rightarrow> context_t \<Rightarrow> goerr option \<Rightarrow> nat \<Rightarrow> bool" where
  "goes_on retryable delays ctx r i \<longleftrightarrow>
     (case r of None \<Rightarrow> False
      | Some e \<Rightarrow> retryable e \<and> (i < length delays \<longrightarrow> ctx_wait ctx i = None))"

definition retryable_of :: "retry_config \<Rightarrow> goerr \<Rightarrow> bool" where
  "retryable_of cfg = (case IsRetryableFn cfg of None \<Rightarrow> (\<lambda>e. False) | Some f \<Rightarrow> f)"

definition delays_of :: "retry_config \<Rightarrow> duration list" where
  "delays_of cfg = (case Delays cfg of None \<Rightarrow> default_delays | Some ds \<Rightarrow> ds)"

lemma retry_Do_loop:
  assumes "retries_bounded cfg"
  shows "retry_Do ctx cfg opn s =
    retry_loop (retryable_of cfg) (delays_of cfg) ctx opn (int (max_retries cfg) + 1) 0 None [] s"
  using total_attempts [OF assms]
  by (simp add: retry_Do_def Let_def retryable_of_def delays_of_def)

lemma retry_loop_step:
  assumes "goes_on retryable delays ctx (attempt opn s 0) i" "int i < limit"
  shows "retry_loop retryable delays ctx opn limit i l sl s =
     retry_loop retryable delays ctx opn limit (Suc i) (attempt opn s 0)
       (sl @ (if i < length delays then [delays ! i] else [])) (after opn s 1)"
  using assms
  by (subst retry_loop.simps)
     (cases "opn s", auto simp: goes_on_def attempt_def split: option.splits)

lemma retry_loop_end:
  "\<not> int i < limit \<Longrightarrow> retry_loop retryable delays ctx opn limit i l sl s =
     (case l of Some e \<Rightarrow> (Some e, s, sl) | None \<Rightarrow> (ctx_err ctx, s, sl))"
  by (subst retry_loop.simps) simp

lemma take_Suc_snoc: "take (Suc n) xs = take n xs @ (if n < length xs then [xs ! n] else [])"
  by (simp add: take_Suc_conv_app_nth)

text \<open>As long as the attempts go on, the loop has run them and slept the first delays.\<close>

lemma retry_loop_steps:
  assumes "\<forall>i < n. goes_on retryable delays ctx (attempt opn s i) i" "int n \<le> limit"
  shows "retry_loop retryable delays ctx opn limit 0 None [] s =
     retry_loop retryable delays ctx opn limit n
       (if n = 0 then None else attempt opn s (n - 1)) (take n delays) (after opn s n)"
  using assms
proof (induction n)
  case 0
  then show ?case by simp
next
  case (Suc n)
  have at: "attempt opn (after opn s n) 0 = attempt opn s n"
    by (simp add: attempt_def)
  have "goes_on retryable delays ctx (attempt opn (after opn s n) 0) n"
    using Suc.prems(1) at by simp
  then show ?case
    using Suc retry_loop_step [of retryable delays ctx opn "after opn s n" n limit]
    by (simp add: at take_Suc_snoc)
qed

lemma retry_loop_done:
  assumes "\<not> goes_on retryable delays ctx (attempt opn s 0) i" "int i < limit"
  shows "retry_loop retryable delays ctx opn limit i l sl s =
     (case attempt opn s 0 of
        None \<Rightarrow> None
      | Some e \<Rightarrow> if retryable e then ctx_wait ctx i else Some e, after opn s 1, sl)"
  using assms
  by (subst retry_loop.simps)
     (cases "opn s", auto simp: goes_on_def attempt_def split: option.splits)

text \<open>
  The reference: the first attempt that does not let the loop go on decides, or, when all of
  the \<open>MaxRetries + 1\<close> attempts do, the last one.
\<close>

definition retry_stop :: "context_t \<Rightarrow> retry_config \<Rightarrow> 's operation \<Rightarrow> 's \<Rightarrow> nat" where
  "retry_stop ctx cfg opn s =
     length (takeWhile (\<lambda>i. goes_on (retryable_of cfg) (delays_of cfg) ctx (attempt opn s i) i)
       [0 ..< Suc (max_retries cfg)])"

definition retry_spec :: "context_t \<Rightarrow> retry_config \<Rightarrow> 's operation \<Rightarrow> 's \<Rightarrow> goerr option \<times> 's \<times> duration list" where
  "retry_spec ctx cfg opn s =
     (let j = retry_stop ctx cfg opn s in
      if j = Suc (max_retries cfg)
      then (attempt opn s (max_retries cfg), after opn s j, take j (delays_of cfg))
      else (case attempt opn s j of
              None \<Rightarrow> None
            | Some e \<Rightarrow> if retryable_of cfg e then ctx_wait ctx j else Some e,
            after opn s (Suc j), take j (delays_of cfg)))"

lemma takeWhile_upt_stop:
  "length (takeWhile P [0 ..< n]) = j \<Longrightarrow> (\<forall>i < j. P i) \<and> (j = n \<or> j < n \<and> \<not> P j)"
proof -
  assume j: "length (takeWhile P [0 ..< n]) = j"
  then have le: "j \<le> n" by (metis length_takeWhile_le length_upt minus_nat.diff_0)
  have "\<forall>i < j. P i"
    using j le by (metis add_0 nth_upt order_less_le_trans set_takeWhileD nth_mem takeWhile_nth)
  moreover have "j < n \<Longrightarrow> \<not> P j"
    using j nth_length_takeWhile [of P "[0 ..< n]"] by simp
  ultimately show ?thesis using le by auto
qed

lemma retry_Do_spec_aux:
  assumes "retries_bounded cfg"
  shows "retry_Do ctx cfg opn s = retry_spec ctx cfg opn s"
proof -
  let ?r = "retryable_of cfg" and ?d = "delays_of cfg" and ?m = "max_retries cfg"
  define j where "j = retry_stop ctx cfg opn s"
  have j: "(\<forall>i < j. goes_on ?r ?d ctx (attempt opn s i) i)
     \<and> (j = Suc ?m \<or> j < Suc ?m \<and> \<not> goes_on ?r ?d ctx (attempt opn s j) j)"
    by (rule takeWhile_upt_stop) (simp add: j_def retry_stop_def)
  then have go: "\<forall>i < j. goes_on ?r ?d ctx (attempt opn s i) i" and le: "int j \<le> int ?m + 1"
    by auto
  have steps: "retry_Do ctx cfg opn s = retry_loop ?r ?d ctx opn (int ?m + 1) j
      (if j = 0 then None else attempt opn s (j - 1)) (take j ?d) (after opn s j)"
    unfolding retry_Do_loop [OF assms] by (rule retry_loop_steps [OF go le])
  have at: "attempt opn (after opn s j) 0 = attempt opn s j" by (simp add: attempt_def)
  show ?thesis
  proof (cases "j = Suc ?m")
    case True
    then have "goes_on ?r ?d ctx (attempt opn s ?m) ?m" using go by simp
    then obtain e where e: "attempt opn s ?m = Some e" by (auto simp: goes_on_def split: option.splits)
    have "retry_Do ctx cfg opn s = (Some e, after opn s j, take j ?d)"
      unfolding steps using True e by (subst retry_loop_end) simp_all
    with True e show ?thesis
      by (simp add: retry_spec_def j_def [symmetric] del: after.simps)
  next
    case False
    with j have stop: "\<not> goes_on ?r ?d ctx (attempt opn (after opn s j) 0) j" and lt: "int j < int ?m + 1"
      using at by auto
    have "after opn (after opn s j) 1 = after opn s (Suc j)" by simp
    with False at show ?thesis
      unfolding steps retry_loop_done [OF stop lt]
      by (simp add: retry_spec_def j_def [symmetric] del: after.simps)
  qed
qed

section \<open>Reasoning about retried operations\<close>

text \<open>
  An operation whose retryable failures keep \<open>I\<close> and use up something (\<open>f\<close>), of which no more
  is left than there are retries, ends with a result that is not a retryable failure.
\<close>

definition live_context :: "context_t \<Rightarrow> bool" where
  "live_context ctx \<longleftrightarrow> ctx_wait ctx = (\<lambda>i. None)"

lemma retry_loop_absorb:
  assumes step: "\<And>s r s'. I s \<Longrightarrow> opn s = (r, s') \<Longrightarrow>
      (case r of None \<Rightarrow> G r s'
       | Some e \<Rightarrow> if retryable e then I s' \<and> f s' < (f s :: nat) else G r s')"
    and live: "live_context ctx"
  shows "I s \<Longrightarrow> int i + int (f s) < limit \<Longrightarrow>
    retry_loop retryable delays ctx opn limit i l sl s = (r, s', sl') \<Longrightarrow> G r s'"
proof (induction "nat (limit - int i)" arbitrary: i l sl s rule: less_induct)
  case less
  obtain r1 s1 where o1: "opn s = (r1, s1)" by (cases "opn s")
  note st = step [OF less.prems(1) o1]
  have lt: "int i < limit" using less.prems(2) by simp
  show ?case
  proof (cases "r1 \<noteq> None \<and> retryable (the r1)")
    case False
    with less.prems(3) lt o1 st show ?thesis
      by (subst (asm) retry_loop.simps) (auto split: option.splits)
  next
    case True
    then obtain e where r1: "r1 = Some e" "retryable e" by auto
    with st have I1: "I s1" and f1: "f s1 < f s" by simp_all
    obtain sl1 where "retry_loop retryable delays ctx opn limit (Suc i) (Some e) sl1 s1 = (r, s', sl')"
      using less.prems(3) lt o1 r1 live
      by (subst (asm) retry_loop.simps) (auto simp: live_context_def split: if_splits)
    moreover have "nat (limit - int (Suc i)) < nat (limit - int i)" using lt by simp
    ultimately show ?thesis using less.hyps [of "Suc i" s1] I1 f1 less.prems(2) by simp
  qed
qed

lemma retry_do_absorb:
  assumes "\<And>s r s'. I s \<Longrightarrow> opn s = (r, s') \<Longrightarrow>
      (case r of None \<Rightarrow> G r s'
       | Some e \<Rightarrow> if retryable_of cfg e then I s' \<and> f s' < (f s :: nat) else G r s')"
    and "live_context ctx" "retries_bounded cfg" "I s" "f s \<le> max_retries cfg"
    and res: "retry_do ctx cfg opn s = (r, s')"
  shows "G r s'"
proof -
  obtain sl where "retry_Do ctx cfg opn s = (r, s', sl)"
    using res by (auto simp: retry_do_def split: prod.splits)
  then have run: "retry_loop (retryable_of cfg) (delays_of cfg) ctx opn (int (max_retries cfg) + 1) 0 None [] s = (r, s', sl)"
    by (simp only: retry_Do_loop [OF assms(3)])
  have "int 0 + int (f s) < int (max_retries cfg) + 1"
    using assms(5) by simp
  from retry_loop_absorb [of I opn G "retryable_of cfg" f, OF assms(1,2,4) this run]
  show ?thesis by blast
qed

text \<open>Without assumptions on the context: success came from an attempt, and failures keep \<open>I\<close>.\<close>

lemma retry_loop_inv:
  assumes step: "\<And>s r s'. I s \<Longrightarrow> opn s = (r, s') \<Longrightarrow> (case r of None \<Rightarrow> Q s' | Some e \<Rightarrow> I s')"
  shows "I s \<Longrightarrow> (l = None \<Longrightarrow> int i < limit) \<Longrightarrow>
    retry_loop retryable delays ctx opn limit i l sl s = (r, s', sl') \<Longrightarrow>
    (case r of None \<Rightarrow> Q s' | Some e \<Rightarrow> I s')"
proof (induction "nat (limit - int i)" arbitrary: i l sl s rule: less_induct)
  case less
  obtain r1 s1 where o1: "opn s = (r1, s1)" by (cases "opn s")
  note st = step [OF less.prems(1) o1]
  show ?case
  proof (cases "int i < limit")
    case False
    with less.prems show ?thesis by (auto simp: retry_loop_end split: option.splits)
  next
    case True
    have dec: "nat (limit - int (Suc i)) < nat (limit - int i)" using True by simp
    have again: "retry_loop retryable delays ctx opn limit (Suc i) (Some e) sl1 s1 = (r, s', sl') \<Longrightarrow> r1 = Some e \<Longrightarrow> ?thesis"
      for e sl1 using less.hyps [OF dec, of s1 "Some e"] st by simp
    from less.prems(3) True o1 st again show ?thesis
      by (subst (asm) retry_loop.simps) (auto split: option.splits if_splits)
  qed
qed

lemma retry_do_inv:
  assumes "\<And>s r s'. I s \<Longrightarrow> opn s = (r, s') \<Longrightarrow> (case r of None \<Rightarrow> Q s' | Some e \<Rightarrow> I s')"
    and "retries_bounded cfg" "I s" and res: "retry_do ctx cfg opn s = (r, s')"
  shows "case r of None \<Rightarrow> Q s' | Some e \<Rightarrow> I s'"
proof -
  obtain sl where "retry_Do ctx cfg opn s = (r, s', sl)"
    using res by (auto simp: retry_do_def split: prod.splits)
  then have run: "retry_loop (retryable_of cfg) (delays_of cfg) ctx opn (int (max_retries cfg) + 1) 0 None [] s = (r, s', sl)"
    by (simp only: retry_Do_loop [OF assms(2)])
  show ?thesis
    by (rule retry_loop_inv [where I = I and opn = opn and Q = Q, OF _ assms(3) _ run])
      (erule assms(1), assumption, simp)
qed

lemma take_length_take: "take (min (length xs) n) xs = take n xs"
  by (cases "length xs \<le> n") (simp_all add: min_def)

lemma retry_do_once:
  assumes "retries_bounded cfg" "opn s = (None, s')"
  shows "retry_do ctx cfg opn s = (None, s')"
  using assms(2) unfolding retry_do_def retry_Do_loop [OF assms(1)]
  by (subst retry_loop.simps) simp

lemma retry_do_final:
  assumes "retries_bounded cfg" "opn s = (Some e, s')" "\<not> retryable_of cfg e"
  shows "retry_do ctx cfg opn s = (Some e, s')"
  using assms(2,3) unfolding retry_do_def retry_Do_loop [OF assms(1)]
  by (subst retry_loop.simps) simp

lemma retry_do_second:
  assumes "retries_bounded cfg" "live_context ctx" "1 \<le> max_retries cfg"
    and "opn s = (Some e, s1)" "retryable_of cfg e" "opn s1 = (None, s2)"
  shows "retry_do ctx cfg opn s = (None, s2)"
proof -
  have "retry_loop (retryable_of cfg) ds ctx opn (int (max_retries cfg) + 1) (Suc 0) l sl s1 = (None, s2, sl)"
    for ds l sl using assms(3,6) by (subst retry_loop.simps) simp
  then show ?thesis
    using assms(2-5) unfolding retry_do_def retry_Do_loop [OF assms(1)]
    by (subst retry_loop.simps) (simp add: live_context_def)
qed

section \<open>Properties\<close>

text \<open>
  C13. \<open>retry.Do\<close> is its reference: it calls the operation until an attempt succeeds, fails with
  an error that is not retryable, or meets a context that is done while it waits, and gives up
  with the last error after \<open>MaxRetries + 1\<close> attempts; between two attempts it waits for the
  corresponding delay as long as there are delays. It always returns.
\<close>

theorem retry_Do_refines_spec:
  assumes "retries_bounded cfg"
  shows "retry_Do ctx cfg opn s = retry_spec ctx cfg opn s"
  by (rule retry_Do_spec_aux [OF assms])

text \<open>An operation that fails as often as its state says.\<close>

definition countdown :: "nat operation" where
  "countdown n = (case n of 0 \<Rightarrow> (None, 0) | Suc k \<Rightarrow> (Some (ErrorString ''timeout''), k))"

definition two_retries :: retry_config where
  "two_retries = \<lparr>MaxRetries = 2, Delays = Some [Second], IsRetryableFn = Some isConnectionError\<rparr>"

lemma timeout_is_connection: "isConnectionError (ErrorString ''timeout'')"
  by (simp add: isConnectionError_def)

theorem retry_Do_refines_spec_witness:
  "retry_Do background two_retries countdown 1 = retry_spec background two_retries countdown 1"
  by (rule retry_Do_refines_spec) (simp add: retries_bounded_def two_retries_def)

text \<open>
  The operation runs at most \<open>MaxRetries + 1\<close> times, the delays that are slept are a prefix
  of the configured ones (of 1, 3 and 5 seconds when none are configured), one per failed attempt
  as far as they reach, and a negative \<open>MaxRetries\<close> means one attempt.
\<close>

theorem retry_Do_attempts_bounded:
  assumes "retries_bounded cfg" "retry_Do ctx cfg opn s = (r, s', slept)"
  shows "\<exists>k \<le> max_retries cfg + 1. 1 \<le> k \<and> s' = after opn s k
    \<and> slept = take (length slept) (delays_of cfg) \<and> length slept \<le> k"
proof -
  let ?j = "retry_stop ctx cfg opn s"
  have le: "?j \<le> Suc (max_retries cfg)"
    unfolding retry_stop_def by (rule order_trans [OF length_takeWhile_le]) simp
  have spec: "retry_spec ctx cfg opn s = (r, s', slept)"
    using assms(2) unfolding retry_Do_spec_aux [OF assms(1)] .
  have tk: "slept = take (length slept) (delays_of cfg) \<and> length slept \<le> ?j"
    using spec by (auto simp: retry_spec_def Let_def take_length_take split: if_splits)
  show ?thesis
  proof (cases "?j = Suc (max_retries cfg)")
    case True
    with spec have "s' = after opn s ?j" by (simp add: retry_spec_def del: after.simps)
    with True tk show ?thesis by (intro exI [of _ ?j]) (simp del: after.simps)
  next
    case False
    with spec have "s' = after opn s (Suc ?j)" by (simp add: retry_spec_def Let_def del: after.simps)
    with False le tk show ?thesis by (intro exI [of _ "Suc ?j"]) (simp del: after.simps)
  qed
qed

theorem retry_Do_attempts_bounded_witness:
  "\<exists>k \<le> max_retries two_retries + 1. 1 \<le> k
     \<and> fst (snd (retry_Do background two_retries countdown 5)) = after countdown 5 k
     \<and> snd (snd (retry_Do background two_retries countdown 5))
         = take (length (snd (snd (retry_Do background two_retries countdown 5)))) (delays_of two_retries)
     \<and> length (snd (snd (retry_Do background two_retries countdown 5))) \<le> k"
  by (rule retry_Do_attempts_bounded [of two_retries background countdown 5
        "fst (retry_Do background two_retries countdown 5)"])
    (simp_all add: retries_bounded_def two_retries_def)

text \<open>
  With \<open>MaxRetries\<close> at the largest \<open>int\<close> the count of attempts wraps around to a negative
  number: the operation is never called, and \<open>Do\<close> returns \<open>ctx.Err()\<close>, which is nil (success)
  for a live context.
\<close>

theorem retry_Do_overflow_skips:
  assumes "MaxRetries cfg = 0x7FFFFFFFFFFFFFFF"
  shows "retry_Do ctx cfg opn s = (ctx_err ctx, s, [])"
  using assms by (simp add: retry_Do_def Let_def retry_loop_end)

definition overflow_config :: retry_config where
  "overflow_config = two_retries\<lparr>MaxRetries := 0x7FFFFFFFFFFFFFFF\<rparr>"

theorem retry_Do_overflow_skips_witness:
  "retry_Do background overflow_config countdown 7 = (None, 7, [])"
  using retry_Do_overflow_skips [of overflow_config background countdown 7]
  by (simp add: overflow_config_def background_def)

end
