(* ===== verification/Storage.thy ===== *)
theory Storage
  imports Model Retry
begin

text \<open>
  The interface \<open>service.Storage\<close>. A Go interface value is the record of its methods over a
  state \<open>'s\<close>. What the methods promise is stated on the abstract metric table of a state: a map
  of gauges and a map of counters.

  How a single metric changes the table is a parameter \<open>step\<close> of the contract, because the two
  storages of the repository differ in it: in memory (\<open>memory_step\<close>) a counter update adds in
  64-bit arithmetic and a gauge update overwrites, while the database, whose rows have one type
  per name, refuses or ignores some updates (\<open>pg_step\<close> in the theory \<open>DbStorage\<close>). In both, a
  batch applies its entries in order and skips those without a value or with an unknown type,
  and an update that reports an error has changed nothing. Reads are promised under a context
  that is \<open>live\<close>: the in-memory storage never looks at the context, the database storage gives
  up waiting when it is done. A listing or a ping may fail, but it never changes the table.

  The locale \<open>storage_spec\<close> has these laws; a read of a counter is only promised there for a
  counter that exists. \<open>exact_storage\<close> adds that a missing counter is reported as missing, which
  the in-memory storage does and the database storage does not.
\<close>

record 's Storage =
  st_UpdateGauge :: "context_t \<Rightarrow> bytes \<Rightarrow> float64 \<Rightarrow> 's operation"
  st_UpdateCounter :: "context_t \<Rightarrow> bytes \<Rightarrow> int64 \<Rightarrow> 's operation"
  st_UpdateMetrics :: "context_t \<Rightarrow> Metrics list \<Rightarrow> 's operation"
  st_GetGauge :: "context_t \<Rightarrow> bytes \<Rightarrow> 's \<Rightarrow> (float64 \<times> bool) \<times> 's"
  st_GetCounter :: "context_t \<Rightarrow> bytes \<Rightarrow> 's \<Rightarrow> (int64 \<times> bool) \<times> 's"
  st_GetAllMetrics :: "context_t \<Rightarrow> 's \<Rightarrow> (goerr + bytes) \<times> 's"
  st_Ping :: "context_t \<Rightarrow> 's operation"
  st_Close :: "'s operation"

section \<open>The abstract metric table\<close>

record metric_table =
  tab_gauges :: "bytes \<rightharpoonup> float64"
  tab_counters :: "bytes \<rightharpoonup> int64"

definition empty_table :: metric_table where
  "empty_table = \<lparr>tab_gauges = Map.empty, tab_counters = Map.empty\<rparr>"

definition set_gauge :: "bytes \<Rightarrow> float64 \<Rightarrow> metric_table \<Rightarrow> metric_table" where
  "set_gauge n v t = t\<lparr>tab_gauges := (tab_gauges t)(n \<mapsto> v)\<rparr>"

definition add_counter :: "bytes \<Rightarrow> int64 \<Rightarrow> metric_table \<Rightarrow> metric_table" where
  "add_counter n d t = t\<lparr>tab_counters := (tab_counters t)(n \<mapsto>
     (case tab_counters t n of None \<Rightarrow> d | Some x \<Rightarrow> x + d))\<rparr>"

definition apply_metric :: "Metrics \<Rightarrow> metric_table \<Rightarrow> metric_table" where
  "apply_metric m t =
     (if MType m = Gauge then (case Value m of None \<Rightarrow> t | Some v \<Rightarrow> set_gauge (ID m) v t)
      else if MType m = Counter then (case Delta m of None \<Rightarrow> t | Some d \<Rightarrow> add_counter (ID m) d t)
      else t)"

fun apply_metrics :: "Metrics list \<Rightarrow> metric_table \<Rightarrow> metric_table" where
  "apply_metrics [] t = t"
| "apply_metrics (m # ms) t = apply_metrics ms (apply_metric m t)"

lemma set_gauge_view [simp, map_view]:
  "tab_gauges (set_gauge n v t) = (tab_gauges t)(n \<mapsto> v)"
  "tab_counters (set_gauge n v t) = tab_counters t"
  by (simp_all add: set_gauge_def)

lemma add_counter_view [simp, map_view]:
  "tab_gauges (add_counter n d t) = tab_gauges t"
  "tab_counters (add_counter n d t) n' =
     (if n' = n then Some (case tab_counters t n of None \<Rightarrow> d | Some x \<Rightarrow> x + d) else tab_counters t n')"
  by (simp_all add: add_counter_def)

lemma apply_metrics_append: "apply_metrics (xs @ ys) t = apply_metrics ys (apply_metrics xs t)"
  by (induction xs arbitrary: t) simp_all

subsection \<open>Counters accumulate, gauges keep the last value\<close>

text \<open>The deltas that a batch holds for one counter, and the values it holds for one gauge.\<close>

definition deltas_for :: "bytes \<Rightarrow> Metrics list \<Rightarrow> int64 list" where
  "deltas_for n ms =
     List.map_filter (\<lambda>m. if MType m = Counter \<and> ID m = n then Delta m else None) ms"

definition values_for :: "bytes \<Rightarrow> Metrics list \<Rightarrow> float64 list" where
  "values_for n ms =
     List.map_filter (\<lambda>m. if MType m = Gauge \<and> ID m = n then Value m else None) ms"

lemma deltas_for_Cons:
  "deltas_for n (m # ms) =
     (if MType m = Counter \<and> ID m = n then (case Delta m of None \<Rightarrow> [] | Some d \<Rightarrow> [d]) else [])
       @ deltas_for n ms"
  by (auto simp: deltas_for_def split: option.splits)

lemma values_for_Cons:
  "values_for n (m # ms) =
     (if MType m = Gauge \<and> ID m = n then (case Value m of None \<Rightarrow> [] | Some v \<Rightarrow> [v]) else [])
       @ values_for n ms"
  by (auto simp: values_for_def split: option.splits)

lemma deltas_for_Nil [simp]: "deltas_for n [] = []"
  by (simp add: deltas_for_def)

lemma values_for_Nil [simp]: "values_for n [] = []"
  by (simp add: values_for_def)

definition total_counter :: "int64 option \<Rightarrow> int64 list \<Rightarrow> int64 option" where
  "total_counter c ds = (if ds = [] then c else Some (case_option 0 id c + sum_list ds))"

lemma total_counter_mset: "mset ds = mset ds' \<Longrightarrow> total_counter c ds = total_counter c ds'"
proof -
  assume eq: "mset ds = mset ds'"
  have "sum_list ds = sum_list ds'"
    using arg_cong [OF eq, of sum_mset] by (simp only: sum_mset_sum_list)
  moreover have "ds = [] \<longleftrightarrow> ds' = []"
    using eq by (metis mset_zero_iff)
  ultimately show ?thesis by (simp add: total_counter_def)
qed

definition last_gauge :: "float64 option \<Rightarrow> float64 list \<Rightarrow> float64 option" where
  "last_gauge g vs = (if vs = [] then g else Some (last vs))"

lemma apply_metrics_counters:
  "tab_counters (apply_metrics ms t) n = total_counter (tab_counters t n) (deltas_for n ms)"
proof (induction ms arbitrary: t)
  case Nil
  then show ?case by (simp add: total_counter_def)
next
  case (Cons m ms)
  then show ?case
    by (auto simp: apply_metric_def deltas_for_Cons total_counter_def algebra_simps split: option.splits)
qed

lemma apply_metrics_gauges:
  "tab_gauges (apply_metrics ms t) n = last_gauge (tab_gauges t n) (values_for n ms)"
proof (induction ms arbitrary: t)
  case Nil
  then show ?case by (simp add: last_gauge_def)
next
  case (Cons m ms)
  then show ?case
    by (auto simp: apply_metric_def values_for_Cons last_gauge_def split: option.splits)
qed

section \<open>The contract\<close>

type_synonym table_step = "Metrics \<Rightarrow> metric_table \<Rightarrow> metric_table option"

fun run_steps :: "table_step \<Rightarrow> Metrics list \<Rightarrow> metric_table \<Rightarrow> metric_table option" where
  "run_steps step [] t = Some t"
| "run_steps step (m # ms) t = (case step m t of None \<Rightarrow> None | Some t' \<Rightarrow> run_steps step ms t')"

definition memory_step :: table_step where
  "memory_step m t = Some (apply_metric m t)"

lemma run_memory_steps [simp]: "run_steps memory_step ms t = Some (apply_metrics ms t)"
  by (induction ms arbitrary: t) (simp_all add: memory_step_def)

lemma apply_gauge_metric [simp]: "apply_metric (gauge_metric n v) t = set_gauge n v t"
  by (simp add: apply_metric_def)

lemma apply_counter_metric [simp]: "apply_metric (counter_metric n d) t = add_counter n d t"
  by (simp add: apply_metric_def)

locale storage_spec =
  fixes S :: "'s Storage"
    and step :: table_step
    and live :: "context_t \<Rightarrow> bool"
    and ok :: "'s \<Rightarrow> bool"
    and view :: "'s \<Rightarrow> metric_table"
  assumes UpdateGauge_ok:
      "ok s \<Longrightarrow> st_UpdateGauge S ctx n v s = (None, s') \<Longrightarrow>
         ok s' \<and> step (gauge_metric n v) (view s) = Some (view s')"
    and UpdateGauge_err:
      "ok s \<Longrightarrow> st_UpdateGauge S ctx n v s = (Some e, s') \<Longrightarrow> ok s' \<and> view s' = view s"
    and UpdateCounter_ok:
      "ok s \<Longrightarrow> st_UpdateCounter S ctx n d s = (None, s') \<Longrightarrow>
         ok s' \<and> step (counter_metric n d) (view s) = Some (view s')"
    and UpdateCounter_err:
      "ok s \<Longrightarrow> st_UpdateCounter S ctx n d s = (Some e, s') \<Longrightarrow> ok s' \<and> view s' = view s"
    and UpdateMetrics_ok:
      "ok s \<Longrightarrow> st_UpdateMetrics S ctx ms s = (None, s') \<Longrightarrow>
         ok s' \<and> run_steps step ms (view s) = Some (view s')"
    and UpdateMetrics_err:
      "ok s \<Longrightarrow> st_UpdateMetrics S ctx ms s = (Some e, s') \<Longrightarrow> ok s' \<and> view s' = view s"
    and GetGauge_val:
      "ok s \<Longrightarrow> st_GetGauge S ctx n s = (rg, s') \<Longrightarrow>
         ok s' \<and> view s' = view s
         \<and> (live ctx \<longrightarrow> rg = (case tab_gauges (view s) n of None \<Rightarrow> (0, False) | Some v \<Rightarrow> (v, True)))"
    and GetCounter_val:
      "ok s \<Longrightarrow> st_GetCounter S ctx n s = (rc, s') \<Longrightarrow>
         ok s' \<and> view s' = view s
         \<and> (\<forall>d. live ctx \<longrightarrow> tab_counters (view s) n = Some d \<longrightarrow> rc = (d, True))"
    and GetAllMetrics_frame:
      "ok s \<Longrightarrow> st_GetAllMetrics S ctx s = (ra, s') \<Longrightarrow> ok s' \<and> view s' = view s"
    and Ping_frame:
      "ok s \<Longrightarrow> st_Ping S ctx s = (rp, s') \<Longrightarrow> ok s' \<and> view s' = view s"

locale exact_storage = storage_spec +
  assumes GetCounter_missing:
      "ok s \<Longrightarrow> live ctx \<Longrightarrow> st_GetCounter S ctx n s = (rc, s') \<Longrightarrow> tab_counters (view s) n = None \<Longrightarrow> rc = (0, False)"

text \<open>A storage with the table semantics of memory.\<close>

locale memory_storage = exact_storage S memory_step "\<lambda>ctx. True" ok view
  for S :: "'s Storage" and ok :: "'s \<Rightarrow> bool" and view :: "'s \<Rightarrow> metric_table"
begin

lemma UpdateMetrics_counter:
  assumes "ok s" "st_UpdateMetrics S ctx ms s = (None, s')"
  shows "tab_counters (view s') n = total_counter (tab_counters (view s) n) (deltas_for n ms)"
  using UpdateMetrics_ok [OF assms] by (auto simp: apply_metrics_counters [symmetric])

lemma UpdateMetrics_gauge:
  assumes "ok s" "st_UpdateMetrics S ctx ms s = (None, s')"
  shows "tab_gauges (view s') n = last_gauge (tab_gauges (view s) n) (values_for n ms)"
  using UpdateMetrics_ok [OF assms] by (auto simp: apply_metrics_gauges [symmetric])

end

end
