(* ===== verification/Services.thy ===== *)
theory Services
  imports Storage
begin

text \<open>
  The services between the handlers and the storage: \<open>metricsservice\<close>, which turns a missing
  metric into an error and publishes an event per batch, and \<open>mainpageservice\<close>, which puts the
  listing into the page template. Their state is that of the storage, the clock, and the events
  whose publication was started (\<open>go func() { Publish(event) }\<close>).

  The interface \<open>metricshandler.MetricsService\<close> is again a record of methods with a locale for
  its contract; the contract of a storage gives the contract of the service over it.
\<close>

record 's app =
  store :: 's
  clock_ms :: int
  published :: "MetricProcessedEvent list"

record 's MetricsService =
  sv_UpdateGauge :: "context_t \<Rightarrow> bytes \<Rightarrow> float64 \<Rightarrow> 's operation"
  sv_UpdateCounter :: "context_t \<Rightarrow> bytes \<Rightarrow> int64 \<Rightarrow> 's operation"
  sv_UpdateMetrics :: "context_t \<Rightarrow> Metrics list \<Rightarrow> bytes \<Rightarrow> 's operation"
  sv_GetGauge :: "context_t \<Rightarrow> bytes \<Rightarrow> 's \<Rightarrow> (goerr + float64) \<times> 's"
  sv_GetCounter :: "context_t \<Rightarrow> bytes \<Rightarrow> 's \<Rightarrow> (goerr + int64) \<times> 's"

section \<open>metricsservice\<close>

definition svc_UpdateGauge :: "'s Storage \<Rightarrow> context_t \<Rightarrow> bytes \<Rightarrow> float64 \<Rightarrow> 's app operation" where
  "svc_UpdateGauge storage ctx name value a =
     (case st_UpdateGauge storage ctx name value (store a) of (r, s') \<Rightarrow> (r, a\<lparr>store := s'\<rparr>))"

definition svc_UpdateCounter :: "'s Storage \<Rightarrow> context_t \<Rightarrow> bytes \<Rightarrow> int64 \<Rightarrow> 's app operation" where
  "svc_UpdateCounter storage ctx name value a =
     (case st_UpdateCounter storage ctx name value (store a) of (r, s') \<Rightarrow> (r, a\<lparr>store := s'\<rparr>))"

definition batch_event :: "int \<Rightarrow> Metrics list \<Rightarrow> bytes \<Rightarrow> MetricProcessedEvent" where
  "batch_event now metrics ipAddr =
     \<lparr>Timestamp = now, TS = word_of_int now,
      EvMetrics = (if metrics = [] then None else Some (map ID metrics)), IPAddr = ipAddr\<rparr>"

definition svc_UpdateMetrics :: "'s Storage \<Rightarrow> context_t \<Rightarrow> Metrics list \<Rightarrow> bytes \<Rightarrow> 's app operation" where
  "svc_UpdateMetrics storage ctx metrics ipAddr a =
     (case st_UpdateMetrics storage ctx metrics (store a) of
        (Some err, s') \<Rightarrow> (Some (WrapError ''failed to save metrics in storage: '' err), a\<lparr>store := s'\<rparr>)
      | (None, s') \<Rightarrow>
          (None, a\<lparr>store := s', published := published a @ [batch_event (clock_ms a) metrics ipAddr]\<rparr>))"

definition svc_GetGauge :: "'s Storage \<Rightarrow> context_t \<Rightarrow> bytes \<Rightarrow> 's app \<Rightarrow> (goerr + float64) \<times> 's app" where
  "svc_GetGauge storage ctx name a =
     (case st_GetGauge storage ctx name (store a) of
        ((value, exist), s') \<Rightarrow>
          (if \<not> exist then Inl (ErrorString ''gauge metric not found'') else Inr value, a\<lparr>store := s'\<rparr>))"

definition svc_GetCounter :: "'s Storage \<Rightarrow> context_t \<Rightarrow> bytes \<Rightarrow> 's app \<Rightarrow> (goerr + int64) \<times> 's app" where
  "svc_GetCounter storage ctx name a =
     (case st_GetCounter storage ctx name (store a) of
        ((value, exist), s') \<Rightarrow>
          (if \<not> exist then Inl (ErrorString ''counter metric not found'') else Inr value, a\<lparr>store := s'\<rparr>))"

definition NewMetricService :: "'s Storage \<Rightarrow> 's app MetricsService" where
  "NewMetricService storage =
     \<lparr>sv_UpdateGauge = svc_UpdateGauge storage, sv_UpdateCounter = svc_UpdateCounter storage,
      sv_UpdateMetrics = svc_UpdateMetrics storage, sv_GetGauge = svc_GetGauge storage,
      sv_GetCounter = svc_GetCounter storage\<rparr>"

section \<open>mainpageservice\<close>

text \<open>
  \<open>template.Execute\<close> of package \<open>html/template\<close> puts a string into the text of the page with
  the characters that HTML gives a meaning replaced.
\<close>

definition html_escape_char :: "char \<Rightarrow> bytes" where
  "html_escape_char c =
     (if c = CHR 0x00 then [CHR 0xEF, CHR 0xBF, CHR 0xBD]
      else if c = CHR 0x22 then ''&#34;''
      else if c = CHR ''&'' then ''&amp;''
      else if c = CHR 0x27 then ''&#39;''
      else if c = CHR ''+'' then ''&#43;''
      else if c = CHR ''<'' then ''&lt;''
      else if c = CHR ''>'' then ''&gt;''
      else [c])"

definition html_escape :: "bytes \<Rightarrow> bytes" where
  "html_escape s = concat (map html_escape_char s)"

text \<open>The page before and after the place of the listing. \<open>title\<close> and \<open>heading\<close> are the Russian
  words of the template, in UTF-8.\<close>

definition utf8 :: "nat list \<Rightarrow> bytes" where
  "utf8 = map char_of"

definition page_title :: bytes where
  "page_title = utf8 [0xD0,0x94,0xD0,0xBE,0xD1,0x81,0xD1,0x82,0xD1,0x83,0xD0,0xBF,0xD0,0xBD,0xD1,0x8B,
     0xD0,0xB5,0x20,0xD0,0xBC,0xD0,0xB5,0xD1,0x82,0xD1,0x80,0xD0,0xB8,0xD0,0xBA,0xD0,0xB8]"

definition page_heading :: bytes where
  "page_heading = utf8 [0xD0,0xA1,0xD0,0xBF,0xD0,0xB8,0xD1,0x81,0xD0,0xBE,0xD0,0xBA,0x20,
     0xD0,0xBC,0xD0,0xB5,0xD1,0x82,0xD1,0x80,0xD0,0xB8,0xD0,0xBA]"

definition quot :: bytes where
  "quot = [CHR 0x22]"

definition page_before :: bytes where
  "page_before =
     ''<!DOCTYPE html>'' @ nl
     @ ''<html lang='' @ quot @ ''ru'' @ quot @ ''>'' @ nl
     @ ''<head>'' @ nl
     @ ''    <meta charset='' @ quot @ ''UTF-8'' @ quot @ ''>'' @ nl
     @ ''    <meta name='' @ quot @ ''viewport'' @ quot @ '' content='' @ quot
     @ ''width=device-width, initial-scale=1.0'' @ quot @ ''>'' @ nl
     @ ''    <title>'' @ page_title @ ''</title>'' @ nl
     @ ''</head>'' @ nl
     @ ''<body>'' @ nl
     @ ''    <h1>'' @ page_heading @ ''</h1>'' @ nl
     @ ''    <p>''"

definition page_after :: bytes where
  "page_after = ''</p>'' @ nl @ ''</body>'' @ nl @ ''</html>''"

definition GetMainPage :: "'s Storage \<Rightarrow> context_t \<Rightarrow> 's \<Rightarrow> (goerr + bytes) \<times> 's" where
  "GetMainPage storage ctx s =
     (case st_GetAllMetrics storage ctx s of
        (Inl err, s') \<Rightarrow> (Inl err, s')
      | (Inr metricsResult, s') \<Rightarrow> (Inr (page_before @ html_escape metricsResult @ page_after), s'))"

lemma html_escape_append: "html_escape (xs @ ys) = html_escape xs @ html_escape ys"
  by (simp add: html_escape_def)

lemma html_escape_char_no_markup:
  "CHR ''<'' \<notin> set (html_escape_char c)" "CHR ''>'' \<notin> set (html_escape_char c)"
  by (simp_all add: html_escape_char_def)

lemma html_escape_no_markup: "CHR ''<'' \<notin> set (html_escape s)" "CHR ''>'' \<notin> set (html_escape s)"
  using html_escape_char_no_markup by (auto simp: html_escape_def)

section \<open>The contract of the service\<close>

locale service_spec =
  fixes V :: "'s MetricsService"
    and step :: table_step
    and live :: "context_t \<Rightarrow> bool"
    and ok :: "'s \<Rightarrow> bool"
    and view :: "'s \<Rightarrow> metric_table"
    and events :: "'s \<Rightarrow> MetricProcessedEvent list"
  assumes svUpdateGauge_ok:
      "ok s \<Longrightarrow> sv_UpdateGauge V ctx n v s = (None, s') \<Longrightarrow>
         ok s' \<and> step (gauge_metric n v) (view s) = Some (view s') \<and> events s' = events s"
    and svUpdateCounter_ok:
      "ok s \<Longrightarrow> sv_UpdateCounter V ctx n d s = (None, s') \<Longrightarrow>
         ok s' \<and> step (counter_metric n d) (view s) = Some (view s') \<and> events s' = events s"
    and svUpdateMetrics_ok:
      "ok s \<Longrightarrow> sv_UpdateMetrics V ctx ms ip s = (None, s') \<Longrightarrow>
         ok s' \<and> run_steps step ms (view s) = Some (view s')
         \<and> (\<exists>ev. events s' = events s @ [ev] \<and> IPAddr ev = ip
              \<and> EvMetrics ev = (if ms = [] then None else Some (map ID ms)))"
    and svUpdateGauge_err:
      "ok s \<Longrightarrow> sv_UpdateGauge V ctx n v s = (Some e, s') \<Longrightarrow>
         ok s' \<and> view s' = view s \<and> events s' = events s"
    and svUpdateCounter_err:
      "ok s \<Longrightarrow> sv_UpdateCounter V ctx n d s = (Some e, s') \<Longrightarrow>
         ok s' \<and> view s' = view s \<and> events s' = events s"
    and svUpdateMetrics_err:
      "ok s \<Longrightarrow> sv_UpdateMetrics V ctx ms ip s = (Some e, s') \<Longrightarrow>
         ok s' \<and> view s' = view s \<and> events s' = events s"
    and svGetGauge_val:
      "ok s \<Longrightarrow> sv_GetGauge V ctx n s = (rg, s') \<Longrightarrow>
         ok s' \<and> view s' = view s \<and> events s' = events s
         \<and> (live ctx \<longrightarrow> rg = (case tab_gauges (view s) n of
                   None \<Rightarrow> Inl (ErrorString ''gauge metric not found'') | Some v \<Rightarrow> Inr v))"
    and svGetCounter_val:
      "ok s \<Longrightarrow> sv_GetCounter V ctx n s = (rc, s') \<Longrightarrow>
         ok s' \<and> view s' = view s \<and> events s' = events s
         \<and> (\<forall>d. live ctx \<longrightarrow> tab_counters (view s) n = Some d \<longrightarrow> rc = Inr d)"

locale exact_service = service_spec +
  assumes svGetCounter_missing:
      "ok s \<Longrightarrow> live ctx \<Longrightarrow> sv_GetCounter V ctx n s = (rc, s') \<Longrightarrow> tab_counters (view s) n = None \<Longrightarrow>
         rc = Inl (ErrorString ''counter metric not found'')"
begin

lemma svGetCounter_exact:
  assumes "ok s" "sv_GetCounter V ctx n s = (r, s')" "live ctx"
  shows "ok s' \<and> view s' = view s \<and> events s' = events s
    \<and> r = (case tab_counters (view s) n of
             None \<Rightarrow> Inl (ErrorString ''counter metric not found'') | Some d \<Rightarrow> Inr d)"
  using svGetCounter_val [OF assms(1,2)] svGetCounter_missing [OF assms(1,3,2)] assms(3) by (auto split: option.splits)

end

lemmas svc_defs = svc_UpdateGauge_def svc_UpdateCounter_def svc_UpdateMetrics_def svc_GetGauge_def
  svc_GetCounter_def batch_event_def

sublocale storage_spec \<subseteq> svc: service_spec "NewMetricService S" step live "\<lambda>a. ok (store a)" "\<lambda>a. view (store a)" published
  by unfold_locales
    (auto simp: NewMetricService_def svc_defs split: prod.splits option.splits
      dest: UpdateGauge_ok UpdateGauge_err UpdateCounter_ok UpdateCounter_err
        UpdateMetrics_ok UpdateMetrics_err GetGauge_val GetCounter_val)

sublocale exact_storage \<subseteq> svc: exact_service "NewMetricService S" step live "\<lambda>a. ok (store a)" "\<lambda>a. view (store a)" published
  by unfold_locales
    (auto simp: NewMetricService_def svc_defs split: prod.splits dest: GetCounter_missing)

end
