(* ===== verification/Json.thy ===== *)
theory Json
  imports Model GoError
begin

text \<open>
  The JSON documents that the code reads and writes, as trees: \<open>json.Marshal\<close> of a metric and
  of a slice of metrics (field names and \<open>omitempty\<close> from the struct tags), and
  \<open>json.Unmarshal\<close> into them (keys match without regard to case, \<open>null\<close> leaves a field
  alone or clears a pointer, an unknown key is ignored, a value of the wrong kind is an error).
  A number is its literal. The text of a document, the text of a float and the parsing of a
  duration are functions of the standard library; they are the fields of \<open>go_std\<close>, an
  argument of the definitions that use them.

  Files are a map from names to contents, with a fault for the paths that cannot be opened.
\<close>

datatype json =
    JNull
  | JBool bool
  | JNum bytes
  | JStr bytes
  | JArr "json list"
  | JObj "(bytes \<times> json) list"

record go_std =
  ParseFloat :: "bytes \<Rightarrow> float64 option"
  FormatFloat :: "int \<Rightarrow> float64 \<Rightarrow> bytes"
  json_float :: "float64 \<Rightarrow> bytes"
  json_write :: "json \<Rightarrow> bytes"
  json_write_indent :: "json \<Rightarrow> bytes"
  json_read :: "bytes \<Rightarrow> goerr + json"
  json_read_first :: "bytes \<Rightarrow> goerr + json"
  ParseDuration :: "bytes \<Rightarrow> goerr + duration"

section \<open>Marshal\<close>

definition UnsupportedValueError :: goerr where
  "UnsupportedValueError = ErrorString ''json: unsupported value''"

definition omitempty :: "bool \<Rightarrow> bytes \<Rightarrow> json \<Rightarrow> (bytes \<times> json) list" where
  "omitempty present key v = (if present then [(key, v)] else [])"

definition marshal_metric :: "go_std \<Rightarrow> Metrics \<Rightarrow> goerr + json" where
  "marshal_metric std m =
     (if (case Value m of None \<Rightarrow> False | Some v \<Rightarrow> \<not> f64_is_finite v) then Inl UnsupportedValueError
      else Inr (JObj ([(''id'', JStr (ID m)), (''type'', JStr (MType m))]
        @ (case Delta m of None \<Rightarrow> [] | Some d \<Rightarrow> [(''delta'', JNum (FormatInt d))])
        @ (case Value m of None \<Rightarrow> [] | Some v \<Rightarrow> [(''value'', JNum (json_float std v))])
        @ omitempty (Hash m \<noteq> []) ''hash'' (JStr (Hash m)))))"

fun marshal_list :: "('a \<Rightarrow> goerr + json) \<Rightarrow> 'a list \<Rightarrow> goerr + json list" where
  "marshal_list f [] = Inr []"
| "marshal_list f (x # xs) =
     (case f x of
        Inl e \<Rightarrow> Inl e
      | Inr j \<Rightarrow> (case marshal_list f xs of Inl e \<Rightarrow> Inl e | Inr js \<Rightarrow> Inr (j # js)))"

text \<open>A nil slice, which is what \<open>append\<close> in a loop without iterations leaves, is \<open>null\<close>.\<close>

definition marshal_metrics :: "go_std \<Rightarrow> Metrics list \<Rightarrow> goerr + json" where
  "marshal_metrics std ms =
     (if ms = [] then Inr JNull
      else case marshal_list (marshal_metric std) ms of Inl e \<Rightarrow> Inl e | Inr js \<Rightarrow> Inr (JArr js))"

section \<open>Unmarshal\<close>

definition UnmarshalTypeError :: "bytes \<Rightarrow> goerr" where
  "UnmarshalTypeError key = ErrorString (''json: cannot unmarshal into Go struct field '' @ key)"

fun unmarshal_string :: "bytes \<Rightarrow> json \<Rightarrow> bytes \<Rightarrow> goerr + bytes" where
  "unmarshal_string key (JStr s) old = Inr s"
| "unmarshal_string key JNull old = Inr old"
| "unmarshal_string key j old = Inl (UnmarshalTypeError key)"

fun unmarshal_int64_ptr :: "bytes \<Rightarrow> json \<Rightarrow> goerr + int64 option" where
  "unmarshal_int64_ptr key (JNum lit) =
     (case ParseInt lit of Inl e \<Rightarrow> Inl (UnmarshalTypeError key) | Inr d \<Rightarrow> Inr (Some d))"
| "unmarshal_int64_ptr key JNull = Inr None"
| "unmarshal_int64_ptr key j = Inl (UnmarshalTypeError key)"

fun unmarshal_float64_ptr :: "go_std \<Rightarrow> bytes \<Rightarrow> json \<Rightarrow> goerr + float64 option" where
  "unmarshal_float64_ptr std key (JNum lit) =
     (case ParseFloat std lit of None \<Rightarrow> Inl (UnmarshalTypeError key) | Some v \<Rightarrow> Inr (Some v))"
| "unmarshal_float64_ptr std key JNull = Inr None"
| "unmarshal_float64_ptr std key j = Inl (UnmarshalTypeError key)"

definition unmarshal_field :: "go_std \<Rightarrow> bytes \<times> json \<Rightarrow> Metrics \<Rightarrow> goerr + Metrics" where
  "unmarshal_field std kv m =
     (let key = to_lower (fst kv); j = snd kv in
      if key = ''id'' then map_sum id (\<lambda>s. m\<lparr>ID := s\<rparr>) (unmarshal_string key j (ID m))
      else if key = ''type'' then map_sum id (\<lambda>s. m\<lparr>MType := s\<rparr>) (unmarshal_string key j (MType m))
      else if key = ''delta'' then map_sum id (\<lambda>d. m\<lparr>Delta := d\<rparr>) (unmarshal_int64_ptr key j)
      else if key = ''value'' then map_sum id (\<lambda>v. m\<lparr>Value := v\<rparr>) (unmarshal_float64_ptr std key j)
      else if key = ''hash'' then map_sum id (\<lambda>s. m\<lparr>Hash := s\<rparr>) (unmarshal_string key j (Hash m))
      else Inr m)"

fun unmarshal_fields :: "go_std \<Rightarrow> (bytes \<times> json) list \<Rightarrow> Metrics \<Rightarrow> goerr + Metrics" where
  "unmarshal_fields std [] m = Inr m"
| "unmarshal_fields std (kv # kvs) m =
     (case unmarshal_field std kv m of Inl e \<Rightarrow> Inl e | Inr m' \<Rightarrow> unmarshal_fields std kvs m')"

fun unmarshal_metric :: "go_std \<Rightarrow> json \<Rightarrow> goerr + Metrics" where
  "unmarshal_metric std (JObj kvs) = unmarshal_fields std kvs zero_Metrics"
| "unmarshal_metric std JNull = Inr zero_Metrics"
| "unmarshal_metric std j = Inl (UnmarshalTypeError [])"

fun unmarshal_list :: "go_std \<Rightarrow> json list \<Rightarrow> goerr + Metrics list" where
  "unmarshal_list std [] = Inr []"
| "unmarshal_list std (j # js) =
     (case unmarshal_metric std j of
        Inl e \<Rightarrow> Inl e
      | Inr m \<Rightarrow> (case unmarshal_list std js of Inl e \<Rightarrow> Inl e | Inr ms \<Rightarrow> Inr (m # ms)))"

fun unmarshal_metrics :: "go_std \<Rightarrow> json \<Rightarrow> goerr + Metrics list" where
  "unmarshal_metrics std (JArr js) = unmarshal_list std js"
| "unmarshal_metrics std JNull = Inr []"
| "unmarshal_metrics std j = Inl (UnmarshalTypeError [])"

section \<open>Round trip of documents\<close>

text \<open>What the round trip of a float needs: it is finite, and its JSON literal reads back.\<close>

definition float_reads_back :: "go_std \<Rightarrow> float64 \<Rightarrow> bool" where
  "float_reads_back std v \<longleftrightarrow> f64_is_finite v \<and> ParseFloat std (json_float std v) = Some v"

definition metric_reads_back :: "go_std \<Rightarrow> Metrics \<Rightarrow> bool" where
  "metric_reads_back std m \<longleftrightarrow> (case Value m of None \<Rightarrow> True | Some v \<Rightarrow> float_reads_back std v)"

lemma metric_keys_lower [simp]:
  "to_lower ''id'' = ''id''" "to_lower ''type'' = ''type''" "to_lower ''delta'' = ''delta''"
  "to_lower ''value'' = ''value''" "to_lower ''hash'' = ''hash''"
  by (simp_all add: to_lower_def lower_char_def)

lemma unmarshal_fields_append:
  "unmarshal_fields std (xs @ ys) m =
     (case unmarshal_fields std xs m of Inl e \<Rightarrow> Inl e | Inr m' \<Rightarrow> unmarshal_fields std ys m')"
  by (induction xs arbitrary: m) (auto split: sum.splits)

lemma unmarshal_marshal_metric:
  assumes "metric_reads_back std m"
  shows "\<exists>j. marshal_metric std m = Inr j \<and> unmarshal_metric std j = Inr m"
  using assms
  by (cases m) (auto simp: marshal_metric_def metric_reads_back_def float_reads_back_def
      unmarshal_field_def omitempty_def zero_Metrics_def ParseInt_FormatInt_aux
      split: option.splits)

lemma unmarshal_marshal_list:
  "\<forall>m \<in> set ms. metric_reads_back std m \<Longrightarrow>
     \<exists>js. marshal_list (marshal_metric std) ms = Inr js \<and> unmarshal_list std js = Inr ms"
proof (induction ms)
  case Nil
  then show ?case by simp
next
  case (Cons m ms)
  then obtain js where js: "marshal_list (marshal_metric std) ms = Inr js" "unmarshal_list std js = Inr ms"
    by auto
  obtain j where "marshal_metric std m = Inr j" "unmarshal_metric std j = Inr m"
    using Cons.prems unmarshal_marshal_metric [of std m] by auto
  with js show ?case by simp
qed

lemma unmarshal_marshal_metrics:
  assumes "\<forall>m \<in> set ms. metric_reads_back std m"
  shows "\<exists>j. marshal_metrics std ms = Inr j \<and> unmarshal_metrics std j = Inr ms"
proof (cases "ms = []")
  case True
  then show ?thesis by (simp add: marshal_metrics_def)
next
  case False
  with unmarshal_marshal_list [OF assms] show ?thesis by (auto simp: marshal_metrics_def)
qed

lemma marshal_list_error:
  "m \<in> set ms \<Longrightarrow> f m = Inl e \<Longrightarrow> \<exists>e'. marshal_list f ms = Inl e'"
  by (induction ms) (auto split: sum.splits)

lemma marshal_metrics_nonfinite:
  assumes "m \<in> set ms" "Value m = Some v" "\<not> f64_is_finite v"
  shows "\<exists>e. marshal_metrics std ms = Inl e"
proof -
  have "marshal_metric std m = Inl UnsupportedValueError"
    using assms(2,3) by (simp add: marshal_metric_def)
  from marshal_list_error [where f = "marshal_metric std", OF assms(1) this]
  obtain e' where "marshal_list (marshal_metric std) ms = Inl e'" by blast
  with assms(1) show ?thesis by (auto simp: marshal_metrics_def)
qed

section \<open>A sample of the library\<close>

text \<open>Concrete library functions for the closed instances of theorems about files: the text of
  every document is read back as \<open>doc\<close>, every float literal as 1.\<close>

definition sample_std :: "json \<Rightarrow> go_std" where
  "sample_std doc =
     \<lparr>ParseFloat = (\<lambda>s. if s = ''1'' then Some f64_one else if s = ''NaN'' then Some f64_NaN else None),
      FormatFloat = (\<lambda>p v. ''1''),
      json_float = (\<lambda>v. ''1''), json_write = (\<lambda>j. ''doc''), json_write_indent = (\<lambda>j. ''doc''),
      json_read = (\<lambda>s. Inr doc), json_read_first = (\<lambda>s. Inr doc),
      ParseDuration = (\<lambda>s. if s = ''1s'' then Inr Second else Inl (ErrorString ''time: invalid duration''))\<rparr>"

lemma sample_std_sel [simp]:
  "ParseFloat (sample_std doc) s =
     (if s = ''1'' then Some f64_one else if s = ''NaN'' then Some f64_NaN else None)"
  "FormatFloat (sample_std doc) p v = ''1''" "json_float (sample_std doc) v = ''1''"
  "json_write (sample_std doc) j = ''doc''" "json_write_indent (sample_std doc) j = ''doc''"
  "json_read (sample_std doc) t = Inr doc" "json_read_first (sample_std doc) t = Inr doc"
  "ParseDuration (sample_std doc) d =
     (if d = ''1s'' then Inr Second else Inl (ErrorString ''time: invalid duration''))"
  by (simp_all add: sample_std_def)

section \<open>Files\<close>

record filesystem =
  fs_file :: "bytes \<rightharpoonup> bytes"
  fs_fault :: "bytes \<Rightarrow> goerr option"

definition os_ReadFile :: "bytes \<Rightarrow> filesystem \<Rightarrow> goerr + bytes" where
  "os_ReadFile name fs =
     (case fs_fault fs name of
        Some e \<Rightarrow> Inl e
      | None \<Rightarrow> (case fs_file fs name of None \<Rightarrow> Inl ErrNotExist | Some d \<Rightarrow> Inr d))"

text \<open>The empty name cannot be opened.\<close>

definition os_WriteFile :: "bytes \<Rightarrow> bytes \<Rightarrow> filesystem \<Rightarrow> goerr option \<times> filesystem" where
  "os_WriteFile name data fs =
     (if name = [] then (Some ErrNotExist, fs)
      else case fs_fault fs name of
        Some e \<Rightarrow> (Some e, fs)
      | None \<Rightarrow> (None, fs\<lparr>fs_file := (fs_file fs)(name \<mapsto> data)\<rparr>))"

lemma os_Read_after_Write:
  "os_WriteFile name data fs = (None, fs') \<Longrightarrow> os_ReadFile name fs' = Inr data"
  by (auto simp: os_WriteFile_def os_ReadFile_def split: if_splits option.splits)

end
