(* ===== verification/Config.thy ===== *)
theory Config
  imports Json
begin

text \<open>
  Package \<open>internal/config\<close>: the configuration of the server and of the agent, their default
  values, and the conversion of the retry delays from text. Flags and environment variables
  are parsed by third-party packages (\<open>pflag\<close>, \<open>env\<close>) that write into these records.
\<close>

record ServerFlags =
  ServerAddr :: bytes
  LogLevel :: bytes
  StoreInterval :: int64
  FileStoragePath :: bytes
  Restore :: bool
  DatabaseDSN :: bytes
  SecretKet :: bytes
  RateLimit :: int64
  srv_MaxRetries :: int64
  RetryDelays :: "bytes list"
  AuditFile :: bytes
  AuditURL :: bytes

record AgentFlags =
  ag_ServerAddr :: bytes
  ReportInterval :: int64
  PollingInterval :: int64
  ag_LogLevel :: bytes
  SecretKey :: bytes
  ag_RateLimit :: int64
  ag_MaxRetries :: int64
  ag_RetryDelays :: "bytes list"

definition zero_ServerFlags :: ServerFlags where
  "zero_ServerFlags =
     \<lparr>ServerAddr = [], LogLevel = [], StoreInterval = 0, FileStoragePath = [], Restore = False,
      DatabaseDSN = [], SecretKet = [], RateLimit = 0, srv_MaxRetries = 0, RetryDelays = [],
      AuditFile = [], AuditURL = []\<rparr>"

definition zero_AgentFlags :: AgentFlags where
  "zero_AgentFlags =
     \<lparr>ag_ServerAddr = [], ReportInterval = 0, PollingInterval = 0, ag_LogLevel = [],
      SecretKey = [], ag_RateLimit = 0, ag_MaxRetries = 0, ag_RetryDelays = []\<rparr>"

definition setDefaultServerFlag :: "ServerFlags \<Rightarrow> ServerFlags" where
  "setDefaultServerFlag cfg =
     cfg\<lparr>ServerAddr := ''http://localhost:8080'', LogLevel := ''info'', StoreInterval := 300,
         FileStoragePath := ''metrics.json'', Restore := False, srv_MaxRetries := 3,
         RetryDelays := [''1s'', ''3s'', ''5s'']\<rparr>"

definition setDefaultAgentFlag :: "AgentFlags \<Rightarrow> AgentFlags" where
  "setDefaultAgentFlag cfg =
     cfg\<lparr>ag_ServerAddr := ''http://localhost:8080'', ReportInterval := 10, PollingInterval := 2,
         ag_MaxRetries := 3, ag_RetryDelays := [''1s'', ''3s'', ''5s'']\<rparr>"

text \<open>The body that both \<open>GetRetryDelaysAsDuration\<close> methods share: the first delay that does
  not parse is the error.\<close>

fun parse_delays :: "go_std \<Rightarrow> bytes list \<Rightarrow> goerr + duration list" where
  "parse_delays std [] = Inr []"
| "parse_delays std (d # ds) =
     (case ParseDuration std d of
        Inl e \<Rightarrow> Inl (WrapError (''invalid duration format '' @ [CHR 0x27] @ d @ [CHR 0x27] @ '': '') e)
      | Inr t \<Rightarrow> (case parse_delays std ds of Inl e \<Rightarrow> Inl e | Inr ts \<Rightarrow> Inr (t # ts)))"

definition server_GetRetryDelaysAsDuration :: "go_std \<Rightarrow> ServerFlags \<Rightarrow> goerr + duration list" where
  "server_GetRetryDelaysAsDuration std a = parse_delays std (RetryDelays a)"

definition agent_GetRetryDelaysAsDuration :: "go_std \<Rightarrow> AgentFlags \<Rightarrow> goerr + duration list" where
  "agent_GetRetryDelaysAsDuration std a = parse_delays std (ag_RetryDelays a)"

lemma parse_delays_length: "parse_delays std ds = Inr ts \<Longrightarrow> length ts = length ds"
  by (induction ds arbitrary: ts) (auto split: sum.splits)

lemma parse_delays_nth:
  "parse_delays std ds = Inr ts \<Longrightarrow> i < length ds \<Longrightarrow> ParseDuration std (ds ! i) = Inr (ts ! i)"
  by (induction ds arbitrary: ts i) (auto split: sum.splits simp: nth_Cons')

lemma parse_delays_error_iff:
  "(\<exists>e. parse_delays std ds = Inl e) \<longleftrightarrow> (\<exists>d \<in> set ds. \<exists>e. ParseDuration std d = Inl e)"
  by (induction ds) (auto split: sum.splits)

end
