(* ===== verification/MemStorage.thy ===== *)
theory MemStorage
  imports Services Config
begin

text \<open>
  Package \<open>internal/repository/memstorage\<close>: the in-memory storage with its file. Every method
  takes the mutex for its whole body, so each is one step on the state; what happens between
  the goroutine that saves periodically and \<open>Close\<close> is in the theory \<open>MemSaver\<close>. The files of
  the machine are part of the state. The order in which Go iterates over the two maps is chosen
  by \<open>iterc\<close> and \<open>iterg\<close>.
\<close>

record memStorage =
  counters :: "bytes \<rightharpoonup> int64"
  gauges :: "bytes \<rightharpoonup> float64"
  ms_cfg :: ServerFlags
  ticker :: "duration option"
  done_closed :: bool

record mem_world =
  mem :: memStorage
  files :: filesystem

section \<open>Updates and reads\<close>

definition mem_UpdateGauge :: "bytes \<Rightarrow> float64 \<Rightarrow> mem_world operation" where
  "mem_UpdateGauge name value w =
     (None, w\<lparr>mem := (mem w)\<lparr>gauges := (gauges (mem w))(name \<mapsto> value)\<rparr>\<rparr>)"

definition mem_UpdateCounter :: "bytes \<Rightarrow> int64 \<Rightarrow> mem_world operation" where
  "mem_UpdateCounter name value w =
     (None, w\<lparr>mem := (mem w)\<lparr>counters :=
        (case counters (mem w) name of
           Some existing \<Rightarrow> (counters (mem w))(name \<mapsto> existing + value)
         | None \<Rightarrow> (counters (mem w))(name \<mapsto> value))\<rparr>\<rparr>)"

definition update_one :: "Metrics \<Rightarrow> memStorage \<Rightarrow> memStorage" where
  "update_one metric m =
     (if MType metric = Gauge then
        (case Value metric of
           Some v \<Rightarrow> m\<lparr>gauges := (gauges m)(ID metric \<mapsto> v)\<rparr>
         | None \<Rightarrow> m)
      else if MType metric = Counter then
        (case Delta metric of
           Some d \<Rightarrow>
             (case counters m (ID metric) of
                Some existing \<Rightarrow> m\<lparr>counters := (counters m)(ID metric \<mapsto> existing + d)\<rparr>
              | None \<Rightarrow> m\<lparr>counters := (counters m)(ID metric \<mapsto> d)\<rparr>)
         | None \<Rightarrow> m)
      else m)"

fun update_all :: "Metrics list \<Rightarrow> memStorage \<Rightarrow> memStorage" where
  "update_all [] m = m"
| "update_all (metric # metrics) m = update_all metrics (update_one metric m)"

definition mem_UpdateMetrics :: "Metrics list \<Rightarrow> mem_world operation" where
  "mem_UpdateMetrics metrics w = (None, w\<lparr>mem := update_all metrics (mem w)\<rparr>)"

definition mem_GetGauge :: "bytes \<Rightarrow> mem_world \<Rightarrow> (float64 \<times> bool) \<times> mem_world" where
  "mem_GetGauge name w =
     (case gauges (mem w) name of Some metric \<Rightarrow> ((metric, True), w) | None \<Rightarrow> ((0, False), w))"

definition mem_GetCounter :: "bytes \<Rightarrow> mem_world \<Rightarrow> (int64 \<times> bool) \<times> mem_world" where
  "mem_GetCounter name w =
     (case counters (mem w) name of Some metric \<Rightarrow> ((metric, True), w) | None \<Rightarrow> ((0, False), w))"

section \<open>The listing\<close>

definition counter_line :: "bytes \<times> int64 \<Rightarrow> bytes" where
  "counter_line kv = ''<li>'' @ fst kv @ '' = '' @ FormatInt (snd kv) @ ''</li>'' @ nl"

definition gauge_line :: "go_std \<Rightarrow> bytes \<times> float64 \<Rightarrow> bytes" where
  "gauge_line std kv = ''<li>'' @ fst kv @ '' = '' @ FormatFloat std 6 (snd kv) @ ''</li>'' @ nl"

definition mem_listing :: "go_std \<Rightarrow> bytes list \<Rightarrow> bytes list \<Rightarrow> memStorage \<Rightarrow> bytes" where
  "mem_listing std ordc ordg m =
     ''<ul>'' @ nl
     @ concat (map counter_line (map_range (counters m) ordc))
     @ concat (map (gauge_line std) (map_range (gauges m) ordg))
     @ ''</ul>'' @ nl"

definition mem_GetAllMetrics :: "go_std \<Rightarrow> bytes list \<Rightarrow> bytes list \<Rightarrow> mem_world \<Rightarrow> (goerr + bytes) \<times> mem_world" where
  "mem_GetAllMetrics std ordc ordg w =
     (let result = mem_listing std ordc ordg (mem w) in
      if result \<noteq> ''<ul>'' @ nl @ ''</ul>'' @ nl then (Inr result, w)
      else (Inl (ErrorString ''no metrics found''), w))"

section \<open>The file\<close>

definition saved_metrics :: "bytes list \<Rightarrow> bytes list \<Rightarrow> memStorage \<Rightarrow> Metrics list" where
  "saved_metrics ordc ordg m =
     map (\<lambda>(k, v). counter_metric k v) (map_range (counters m) ordc)
     @ map (\<lambda>(k, v). gauge_metric k v) (map_range (gauges m) ordg)"

definition mem_SaveToFile :: "go_std \<Rightarrow> bytes list \<Rightarrow> bytes list \<Rightarrow> bytes \<Rightarrow> mem_world operation" where
  "mem_SaveToFile std ordc ordg filename w =
     (case marshal_metrics std (saved_metrics ordc ordg (mem w)) of
        Inl e \<Rightarrow> (Some (WrapError ''failed to marshal metrics: '' e), w)
      | Inr data \<Rightarrow>
          (case os_WriteFile filename (json_write_indent std data) (files w) of
             (Some e, fs) \<Rightarrow> (Some (WrapError ''failed to write file: '' e), w\<lparr>files := fs\<rparr>)
           | (None, fs) \<Rightarrow> (None, w\<lparr>files := fs\<rparr>)))"

definition load_one :: "Metrics \<Rightarrow> memStorage \<Rightarrow> memStorage" where
  "load_one metric m =
     (if MType metric = Counter then
        (case Delta metric of
           Some d \<Rightarrow> m\<lparr>counters := (counters m)(ID metric \<mapsto> d)\<rparr>
         | None \<Rightarrow> m)
      else if MType metric = Gauge then
        (case Value metric of
           Some v \<Rightarrow> m\<lparr>gauges := (gauges m)(ID metric \<mapsto> v)\<rparr>
         | None \<Rightarrow> m)
      else m)"

fun load_all :: "Metrics list \<Rightarrow> memStorage \<Rightarrow> memStorage" where
  "load_all [] m = m"
| "load_all (metric # metrics) m = load_all metrics (load_one metric m)"

definition mem_LoadFromFile :: "go_std \<Rightarrow> bytes \<Rightarrow> mem_world operation" where
  "mem_LoadFromFile std filename w =
     (case os_ReadFile filename (files w) of
        Inl e \<Rightarrow> if e = ErrNotExist then (None, w)
                 else (Some (WrapError ''failed to read file: '' e), w)
      | Inr data \<Rightarrow>
          (case (case json_read std data of Inl e \<Rightarrow> Inl e | Inr j \<Rightarrow> unmarshal_metrics std j) of
             Inl e \<Rightarrow> (Some (WrapError ''failed to unmarshal metrics: '' e), w)
           | Inr metrics \<Rightarrow> (None, w\<lparr>mem := load_all metrics (mem w)\<rparr>)))"

section \<open>Construction, periodic saving, closing\<close>

definition mem_StartPeriodicSave :: "duration \<Rightarrow> mem_world \<Rightarrow> mem_world outcome" where
  "mem_StartPeriodicSave interval w =
     (case ticker (mem w) of
        Some t \<Rightarrow> Return w
      | None \<Rightarrow>
          (case NewTicker interval of
             Panic msg \<Rightarrow> Panic msg
           | Return t \<Rightarrow> Return (w\<lparr>mem := (mem w)\<lparr>ticker := Some t\<rparr>\<rparr>)))"

definition fresh_memStorage :: "ServerFlags \<Rightarrow> memStorage" where
  "fresh_memStorage c =
     \<lparr>counters = Map.empty, gauges = Map.empty, ms_cfg = c, ticker = None, done_closed = False\<rparr>"

text \<open>\<open>NewMemStorage\<close> returns a nil interface (\<open>None\<close>) when the file cannot be restored.\<close>

definition NewMemStorage :: "go_std \<Rightarrow> ServerFlags \<Rightarrow> filesystem \<Rightarrow> mem_world option outcome" where
  "NewMemStorage std c fs =
     (let storage = \<lparr>mem = fresh_memStorage c, files = fs\<rparr>;
          loaded = (if Restore c then mem_LoadFromFile std (FileStoragePath c) storage
                    else (None, storage))
      in (case loaded of
            (Some e, w) \<Rightarrow> Return None
          | (None, w) \<Rightarrow>
              if sint (StoreInterval c) > 0 then
                (case mem_StartPeriodicSave (StoreInterval c * Second) w of
                   Panic msg \<Rightarrow> Panic msg
                 | Return w' \<Rightarrow> Return (Some w'))
              else Return (Some w)))"

definition mem_Ping :: "mem_world operation" where
  "mem_Ping w = (None, w)"

definition mem_Close :: "go_std \<Rightarrow> bytes list \<Rightarrow> bytes list \<Rightarrow> mem_world operation" where
  "mem_Close std ordc ordg w =
     (let m1 = (case ticker (mem w) of Some t \<Rightarrow> (mem w)\<lparr>ticker := None\<rparr> | None \<Rightarrow> mem w);
          m2 = (if done_closed m1 then m1 else m1\<lparr>done_closed := True\<rparr>);
          w2 = w\<lparr>mem := m2\<rparr>
      in (case mem_SaveToFile std ordc ordg (FileStoragePath (ms_cfg m2)) w2 of
            (Some e, w3) \<Rightarrow> (Some (WrapError ''failed to save on close: '' e), w3)
          | (None, w3) \<Rightarrow> (None, w3)))"

text \<open>The method table of the storage.\<close>

definition mem_storage :: "go_std \<Rightarrow> ((bytes \<rightharpoonup> int64) \<Rightarrow> bytes list) \<Rightarrow> ((bytes \<rightharpoonup> float64) \<Rightarrow> bytes list)
    \<Rightarrow> mem_world Storage" where
  "mem_storage std iterc iterg =
     \<lparr>st_UpdateGauge = (\<lambda>ctx. mem_UpdateGauge),
      st_UpdateCounter = (\<lambda>ctx. mem_UpdateCounter),
      st_UpdateMetrics = (\<lambda>ctx. mem_UpdateMetrics),
      st_GetGauge = (\<lambda>ctx. mem_GetGauge),
      st_GetCounter = (\<lambda>ctx. mem_GetCounter),
      st_GetAllMetrics =
        (\<lambda>ctx w. mem_GetAllMetrics std (iterc (counters (mem w))) (iterg (gauges (mem w))) w),
      st_Ping = (\<lambda>ctx. mem_Ping),
      st_Close = (\<lambda>w. mem_Close std (iterc (counters (mem w))) (iterg (gauges (mem w))) w)\<rparr>"

section \<open>The storage keeps its contract\<close>

definition mem_view :: "mem_world \<Rightarrow> metric_table" where
  "mem_view w = \<lparr>tab_gauges = gauges (mem w), tab_counters = counters (mem w)\<rparr>"

text \<open>The maps of a running server are finite, so the runtime can iterate over them.\<close>

definition mem_ok :: "mem_world \<Rightarrow> bool" where
  "mem_ok w \<longleftrightarrow> finite (dom (counters (mem w))) \<and> finite (dom (gauges (mem w)))"

lemma table_eq_iff:
  "(t :: metric_table) = t' \<longleftrightarrow> tab_gauges t = tab_gauges t' \<and> tab_counters t = tab_counters t'"
  by (cases t; cases t') simp

lemma update_one_view:
  "gauges (update_one x m) = tab_gauges (apply_metric x \<lparr>tab_gauges = gauges m, tab_counters = counters m\<rparr>)"
  "counters (update_one x m) = tab_counters (apply_metric x \<lparr>tab_gauges = gauges m, tab_counters = counters m\<rparr>)"
  by (auto simp: update_one_def apply_metric_def set_gauge_def add_counter_def split: option.splits)

lemma update_all_view:
  "\<lparr>tab_gauges = gauges (update_all ms m), tab_counters = counters (update_all ms m)\<rparr> =
     apply_metrics ms \<lparr>tab_gauges = gauges m, tab_counters = counters m\<rparr>"
proof (induction ms arbitrary: m)
  case Nil
  then show ?case by simp
next
  case (Cons x ms)
  have "\<lparr>tab_gauges = gauges (update_one x m), tab_counters = counters (update_one x m)\<rparr> =
      apply_metric x \<lparr>tab_gauges = gauges m, tab_counters = counters m\<rparr>"
    by (simp add: update_one_view)
  with Cons show ?case by simp
qed

lemma update_one_ok:
  "finite (dom (counters m)) \<Longrightarrow> finite (dom (counters (update_one x m)))"
  "finite (dom (gauges m)) \<Longrightarrow> finite (dom (gauges (update_one x m)))"
  by (auto simp: update_one_def split: option.splits)

lemma update_all_ok:
  "finite (dom (counters m)) \<Longrightarrow> finite (dom (gauges m)) \<Longrightarrow>
     finite (dom (counters (update_all ms m))) \<and> finite (dom (gauges (update_all ms m)))"
  by (induction ms arbitrary: m) (simp_all add: update_one_ok)

lemma update_one_frame [simp]:
  "ticker (update_one x m) = ticker m" "ms_cfg (update_one x m) = ms_cfg m"
  "done_closed (update_one x m) = done_closed m"
  by (auto simp: update_one_def split: option.splits)

lemma update_all_frame [simp]:
  "ticker (update_all ms m) = ticker m" "ms_cfg (update_all ms m) = ms_cfg m"
  "done_closed (update_all ms m) = done_closed m"
  by (induction ms arbitrary: m) simp_all

lemma mem_UpdateGauge_view [map_view]:
  "mem_UpdateGauge n v w = (r, w') \<Longrightarrow> mem_ok w \<Longrightarrow>
     r = None \<and> mem_ok w' \<and> memory_step (gauge_metric n v) (mem_view w) = Some (mem_view w')"
  by (auto simp: memory_step_def mem_UpdateGauge_def mem_ok_def mem_view_def set_gauge_def)

lemma mem_UpdateCounter_view [map_view]:
  "mem_UpdateCounter n d w = (r, w') \<Longrightarrow> mem_ok w \<Longrightarrow>
     r = None \<and> mem_ok w' \<and> memory_step (counter_metric n d) (mem_view w) = Some (mem_view w')"
  by (auto simp: memory_step_def mem_UpdateCounter_def mem_ok_def mem_view_def add_counter_def split: option.splits)

lemma mem_UpdateMetrics_view [map_view]:
  "mem_UpdateMetrics ms w = (r, w') \<Longrightarrow> mem_ok w \<Longrightarrow>
     r = None \<and> mem_ok w' \<and> mem_view w' = apply_metrics ms (mem_view w)"
  using update_all_ok [of "mem w" ms]
  by (auto simp: mem_UpdateMetrics_def mem_ok_def mem_view_def update_all_view)

lemma mem_GetGauge_val:
  "mem_GetGauge n w = (case tab_gauges (mem_view w) n of None \<Rightarrow> ((0, False), w) | Some v \<Rightarrow> ((v, True), w))"
  by (auto simp: mem_GetGauge_def mem_view_def split: option.splits)

lemma mem_GetCounter_val:
  "mem_GetCounter n w = (case tab_counters (mem_view w) n of None \<Rightarrow> ((0, False), w) | Some d \<Rightarrow> ((d, True), w))"
  by (auto simp: mem_GetCounter_def mem_view_def split: option.splits)

lemmas mem_storage_sel = mem_storage_def Storage.simps

interpretation mem: memory_storage "mem_storage std iterc iterg" mem_ok mem_view
  by unfold_locales
    (auto simp: mem_storage_sel mem_GetGauge_val mem_GetCounter_val mem_GetAllMetrics_def mem_Ping_def Let_def
      dest: mem_UpdateGauge_view mem_UpdateCounter_view mem_UpdateMetrics_view
      split: option.splits if_splits)

section \<open>Saving and loading\<close>

lemma load_all_append: "load_all (xs @ ys) m = load_all ys (load_all xs m)"
  by (induction xs arbitrary: m) simp_all

lemma load_all_counters:
  "load_all (map (\<lambda>(k, v). counter_metric k v) kvs) m = m\<lparr>counters := counters m ++ map_of (rev kvs)\<rparr>"
  by (induction kvs arbitrary: m) (auto simp: load_one_def)

lemma load_all_gauges:
  "load_all (map (\<lambda>(k, v). gauge_metric k v) kvs) m = m\<lparr>gauges := gauges m ++ map_of (rev kvs)\<rparr>"
  by (induction kvs arbitrary: m) (auto simp: load_one_def)

lemma map_of_rev_range: "map_order m ord \<Longrightarrow> map_of (rev (map_range m ord)) = m"
  by (simp add: map_of_rev map_of_map_range keys_map_range map_order_def)

lemma load_saved:
  assumes "map_order (counters m) ordc" "map_order (gauges m) ordg"
  shows "load_all (saved_metrics ordc ordg m) m0 =
    m0\<lparr>counters := counters m0 ++ counters m, gauges := gauges m0 ++ gauges m\<rparr>"
  using assms by (simp add: saved_metrics_def load_all_append load_all_counters load_all_gauges map_of_rev_range)

text \<open>\<open>SaveToFile\<close> succeeds when the file can be written and every gauge is finite.\<close>

definition file_writable :: "bytes \<Rightarrow> filesystem \<Rightarrow> bool" where
  "file_writable name fs \<longleftrightarrow> name \<noteq> [] \<and> fs_fault fs name = None"

definition gauges_read_back :: "go_std \<Rightarrow> memStorage \<Rightarrow> bool" where
  "gauges_read_back std m \<longleftrightarrow> (\<forall>v \<in> ran (gauges m). float_reads_back std v)"

text \<open>The text of a document reads back as the document.\<close>

definition text_reads_back :: "go_std \<Rightarrow> json \<Rightarrow> bool" where
  "text_reads_back std j \<longleftrightarrow> json_read std (json_write_indent std j) = Inr j"

lemma saved_metrics_read_back:
  "gauges_read_back std m \<Longrightarrow> x \<in> set (saved_metrics ordc ordg m) \<Longrightarrow> metric_reads_back std x"
  by (auto simp: saved_metrics_def metric_reads_back_def gauges_read_back_def set_map_range ranI)

lemma save_load_document:
  assumes "gauges_read_back std m"
  obtains j where "marshal_metrics std (saved_metrics ordc ordg m) = Inr j"
    and "unmarshal_metrics std j = Inr (saved_metrics ordc ordg m)"
  using unmarshal_marshal_metrics [of "saved_metrics ordc ordg m" std]
    saved_metrics_read_back [OF assms] by blast

lemma mem_SaveToFile_ok:
  assumes "file_writable f (files w)" "marshal_metrics std (saved_metrics ordc ordg (mem w)) = Inr j"
  shows "mem_SaveToFile std ordc ordg f w =
    (None, w\<lparr>files := (files w)\<lparr>fs_file := (fs_file (files w))(f \<mapsto> json_write_indent std j)\<rparr>\<rparr>)"
  using assms by (simp add: mem_SaveToFile_def os_WriteFile_def file_writable_def)

lemma mem_LoadFromFile_ok:
  assumes "fs_fault (files w) f = None" "fs_file (files w) f = Some (json_write_indent std j)"
    "text_reads_back std j" "unmarshal_metrics std j = Inr ms"
  shows "mem_LoadFromFile std f w = (None, w\<lparr>mem := load_all ms (mem w)\<rparr>)"
  using assms by (simp add: mem_LoadFromFile_def os_ReadFile_def text_reads_back_def)

lemma mem_Close_save:
  "mem_Close std ordc ordg w =
     (case mem_SaveToFile std ordc ordg (FileStoragePath (ms_cfg (mem w)))
             (w\<lparr>mem := (mem w)\<lparr>ticker := None, done_closed := True\<rparr>\<rparr>) of
        (Some e, w3) \<Rightarrow> (Some (WrapError ''failed to save on close: '' e), w3)
      | (None, w3) \<Rightarrow> (None, w3))"
proof -
  have "(if done_closed m1 then m1 else m1\<lparr>done_closed := True\<rparr>) = m\<lparr>ticker := None, done_closed := True\<rparr>"
    if "m1 = (case ticker m of Some t \<Rightarrow> m\<lparr>ticker := None\<rparr> | None \<Rightarrow> m)" for m m1 :: memStorage
    using that by (cases m; cases "ticker m") auto
  then show ?thesis by (simp add: mem_Close_def Let_def)
qed

definition interval_ok :: "ServerFlags \<Rightarrow> bool" where
  "interval_ok c \<longleftrightarrow> sint (StoreInterval c) \<le> 0 \<or> 0 < sint (StoreInterval c * Second)"

lemma NewMemStorage_restored:
  assumes "Restore c" "interval_ok c"
    "mem_LoadFromFile std (FileStoragePath c) \<lparr>mem = fresh_memStorage c, files = fs\<rparr> = (None, w)"
    "ticker (mem w) = None"
  shows "\<exists>w'. NewMemStorage std c fs = Return (Some w') \<and> mem_view w' = mem_view w"
  using assms
  by (auto simp: NewMemStorage_def interval_ok_def mem_StartPeriodicSave_def NewTicker_pos mem_view_def)

text \<open>
  C8. Restart. When the server stops, \<open>Close\<close> writes every counter and gauge to the file, and a
  server started with \<open>Restore\<close> on the same file has exactly the same counters and gauges:
  whatever order Go chooses for its maps, provided that the file can be opened, that every
  gauge is finite and its JSON literal reads back, and that the text of the document does.
\<close>

theorem restart_restores_metrics:
  assumes "map_order (counters (mem w)) ordc" "map_order (gauges (mem w)) ordg"
    and "gauges_read_back std (mem w)"
    and "file_writable (FileStoragePath (ms_cfg (mem w))) (files w)"
    and "FileStoragePath c = FileStoragePath (ms_cfg (mem w))" "Restore c" "interval_ok c"
    and "\<forall>j. marshal_metrics std (saved_metrics ordc ordg (mem w)) = Inr j \<longrightarrow> text_reads_back std j"
  shows "\<exists>w1 w2. mem_Close std ordc ordg w = (None, w1)
    \<and> NewMemStorage std c (files w1) = Return (Some w2) \<and> mem_view w2 = mem_view w"
proof -
  let ?f = "FileStoragePath c" and ?m = "(mem w)\<lparr>ticker := None, done_closed := True\<rparr>"
  obtain j where j: "marshal_metrics std (saved_metrics ordc ordg (mem w)) = Inr j"
      "unmarshal_metrics std j = Inr (saved_metrics ordc ordg (mem w))"
    using save_load_document [OF assms(3)] .
  define w1 where "w1 = \<lparr>mem = ?m,
    files = (files w)\<lparr>fs_file := (fs_file (files w))(?f \<mapsto> json_write_indent std j)\<rparr>\<rparr>"
  have "saved_metrics ordc ordg ?m = saved_metrics ordc ordg (mem w)"
    by (simp add: saved_metrics_def)
  then have close: "mem_Close std ordc ordg w = (None, w1)"
    using assms(4,5) j(1) mem_SaveToFile_ok [of ?f "w\<lparr>mem := ?m\<rparr>" std ordc ordg j]
    by (simp add: mem_Close_save w1_def)
  have "mem_LoadFromFile std ?f \<lparr>mem = fresh_memStorage c, files = files w1\<rparr> =
      (None, \<lparr>mem = load_all (saved_metrics ordc ordg (mem w)) (fresh_memStorage c), files = files w1\<rparr>)"
    using assms(4,5,8) j by (subst mem_LoadFromFile_ok [where j = j]) (auto simp: w1_def file_writable_def)
  from NewMemStorage_restored [OF assms(6,7) this]
  have "\<exists>w2. NewMemStorage std c (files w1) = Return (Some w2) \<and> mem_view w2 = mem_view w"
    using assms(1,2) by (simp add: load_saved fresh_memStorage_def mem_view_def)
  with close show ?thesis by blast
qed

definition sample_flags :: ServerFlags where
  "sample_flags = zero_ServerFlags\<lparr>FileStoragePath := ''m.json'', Restore := True, StoreInterval := 300\<rparr>"

definition sample_mem :: memStorage where
  "sample_mem = \<lparr>counters = [''c'' \<mapsto> 5], gauges = [''g'' \<mapsto> f64_one], ms_cfg = sample_flags,
     ticker = Some (300 * Second), done_closed = False\<rparr>"

definition no_files :: filesystem where
  "no_files = \<lparr>fs_file = Map.empty, fs_fault = (\<lambda>f. None)\<rparr>"

definition sample_doc :: json where
  "sample_doc = JArr
     [JObj [(''id'', JStr ''c''), (''type'', JStr ''counter''), (''delta'', JNum (FormatInt 5))],
      JObj [(''id'', JStr ''g''), (''type'', JStr ''gauge''), (''value'', JNum ''1'')]]"

lemma sample_saved:
  "marshal_metrics (sample_std d) (saved_metrics [''c''] [''g''] sample_mem) = Inr sample_doc"
  by (simp add: sample_mem_def saved_metrics_def marshal_metrics_def marshal_metric_def
      sample_doc_def omitempty_def counter_metric_def gauge_metric_def Counter_def Gauge_def)

lemma restart_restores_metrics_witness:
  "\<exists>w1 w2. mem_Close (sample_std sample_doc) [''c''] [''g''] \<lparr>mem = sample_mem, files = no_files\<rparr> = (None, w1)
     \<and> NewMemStorage (sample_std sample_doc) sample_flags (files w1) = Return (Some w2)
     \<and> mem_view w2 = \<lparr>tab_gauges = [''g'' \<mapsto> f64_one], tab_counters = [''c'' \<mapsto> 5]\<rparr>"
proof -
  let ?w = "\<lparr>mem = sample_mem, files = no_files\<rparr>"
  have "map_order (counters (mem ?w)) [''c'']" "map_order (gauges (mem ?w)) [''g'']"
    by (simp_all add: map_order_def sample_mem_def)
  moreover have "gauges_read_back (sample_std sample_doc) (mem ?w)"
    by (simp add: gauges_read_back_def float_reads_back_def sample_mem_def)
  moreover have "file_writable (FileStoragePath (ms_cfg (mem ?w))) (files ?w)"
    by (simp add: file_writable_def sample_mem_def sample_flags_def no_files_def)
  moreover have "FileStoragePath sample_flags = FileStoragePath (ms_cfg (mem ?w))"
    "Restore sample_flags" "interval_ok sample_flags"
    by (simp_all add: sample_mem_def sample_flags_def interval_ok_def Second_def)
  moreover have "\<forall>j. marshal_metrics (sample_std sample_doc) (saved_metrics [''c''] [''g''] (mem ?w)) = Inr j
      \<longrightarrow> text_reads_back (sample_std sample_doc) j"
    by (simp add: sample_saved text_reads_back_def)
  ultimately have "\<exists>w1 w2. mem_Close (sample_std sample_doc) [''c''] [''g''] ?w = (None, w1)
     \<and> NewMemStorage (sample_std sample_doc) sample_flags (files w1) = Return (Some w2)
     \<and> mem_view w2 = mem_view ?w"
    by (rule restart_restores_metrics)
  then show ?thesis by (simp add: mem_view_def sample_mem_def)
qed

text \<open>
  C28. A gauge that is not finite blocks persistence. The update handler accepts \<open>NaN\<close> and
  \<open>Inf\<close>, but JSON has no form for them: as long as one gauge holds such a value, \<open>SaveToFile\<close>
  fails and writes nothing, so no counter or gauge reaches the file.
\<close>

theorem nonfinite_gauge_blocks_saving:
  assumes "map_order (gauges (mem w)) ordg" "gauges (mem w) n = Some v" "\<not> f64_is_finite v"
  shows "\<exists>e. mem_SaveToFile std ordc ordg f w = (Some (WrapError ''failed to marshal metrics: '' e), w)"
proof -
  have "gauge_metric n v \<in> set (saved_metrics ordc ordg (mem w))"
    using assms(1,2) by (force simp: saved_metrics_def set_map_range map_order_def)
  then obtain e where "marshal_metrics std (saved_metrics ordc ordg (mem w)) = Inl e"
    using marshal_metrics_nonfinite [of "gauge_metric n v" _ v std] assms(3) by auto
  then show ?thesis by (simp add: mem_SaveToFile_def)
qed

lemma nonfinite_gauge_blocks_saving_witness:
  "\<exists>e. mem_SaveToFile (sample_std JNull) [''c''] [''g''] ''m.json''
      \<lparr>mem = sample_mem\<lparr>gauges := [''g'' \<mapsto> f64_NaN]\<rparr>, files = no_files\<rparr> =
    (Some (WrapError ''failed to marshal metrics: '' e),
     \<lparr>mem = sample_mem\<lparr>gauges := [''g'' \<mapsto> f64_NaN]\<rparr>, files = no_files\<rparr>)"
  by (rule nonfinite_gauge_blocks_saving [where n = "''g''" and v = f64_NaN])
    (simp_all add: map_order_def)

section \<open>Batches and the listing\<close>

text \<open>
  C22. A batch on the in-memory storage: every counter ends at its old value (zero when there
  was none) plus the sum, in 64-bit arithmetic, of all deltas that the batch holds for it; every
  gauge ends at the last value that the batch holds for it; names that the batch does not
  mention, entries without a value and entries of an unknown type change nothing.
\<close>

theorem batch_counters_and_gauges:
  assumes "mem_ok w" "mem_UpdateMetrics ms w = (r, w')"
  shows "r = None
    \<and> counters (mem w') n = total_counter (counters (mem w) n) (deltas_for n ms)
    \<and> gauges (mem w') n = last_gauge (gauges (mem w) n) (values_for n ms)"
proof -
  have "r = None" using assms by (simp add: mem_UpdateMetrics_def)
  then have "st_UpdateMetrics (mem_storage (sample_std JNull) (\<lambda>m. []) (\<lambda>m. [])) background ms w = (None, w')"
    using assms(2) by (simp add: mem_storage_sel)
  from mem.UpdateMetrics_counter [OF assms(1) this, of n] mem.UpdateMetrics_gauge [OF assms(1) this, of n]
  show ?thesis using \<open>r = None\<close> by (simp add: mem_view_def)
qed

lemma batch_counters_and_gauges_witness:
  "counters (mem (snd (mem_UpdateMetrics
      [counter_metric ''c'' 7, gauge_metric ''g'' 0, counter_metric ''c'' (-1), zero_Metrics]
      \<lparr>mem = sample_mem, files = no_files\<rparr>))) ''c'' = Some 11"
proof -
  let ?ms = "[counter_metric ''c'' 7, gauge_metric ''g'' 0, counter_metric ''c'' (-1), zero_Metrics]"
  let ?w = "\<lparr>mem = sample_mem, files = no_files\<rparr>"
  have "mem_ok ?w" by (simp add: mem_ok_def sample_mem_def)
  then show ?thesis
    using batch_counters_and_gauges [of ?w ?ms "fst (mem_UpdateMetrics ?ms ?w)"
        "snd (mem_UpdateMetrics ?ms ?w)" "''c''"]
    by (simp add: total_counter_def deltas_for_Cons zero_Metrics_def Counter_def sample_mem_def)
qed

text \<open>
  Counter updates commute: two batches with the same entries in any order, as concurrent
  agents may interleave them under the mutex, leave the same counters.
\<close>

theorem counters_order_independent:
  assumes "mset xs = mset ys"
  shows "counters (mem (snd (mem_UpdateMetrics xs w))) = counters (mem (snd (mem_UpdateMetrics ys w)))"
proof
  fix n
  have c: "counters (update_all ms m) n = total_counter (counters m n) (deltas_for n ms)" for ms m
    using arg_cong [OF update_all_view [of ms m], of tab_counters]
      apply_metrics_counters [of ms "\<lparr>tab_gauges = gauges m, tab_counters = counters m\<rparr>" n]
    by simp
  have "mset (deltas_for n xs) = mset (deltas_for n ys)"
    unfolding deltas_for_def using assms by (rule mset_map_filter_cong)
  then have "total_counter x (deltas_for n xs) = total_counter x (deltas_for n ys)" for x
    by (rule total_counter_mset)
  with c show "counters (mem (snd (mem_UpdateMetrics xs w))) n = counters (mem (snd (mem_UpdateMetrics ys w))) n"
    by (simp add: mem_UpdateMetrics_def)
qed

lemma counters_order_independent_witness:
  "counters (mem (snd (mem_UpdateMetrics [counter_metric ''c'' 7, counter_metric ''d'' 1]
      \<lparr>mem = sample_mem, files = no_files\<rparr>))) =
   counters (mem (snd (mem_UpdateMetrics [counter_metric ''d'' 1, counter_metric ''c'' 7]
      \<lparr>mem = sample_mem, files = no_files\<rparr>)))"
  by (rule counters_order_independent) simp

lemma mem_listing_empty_iff:
  assumes "map_order (counters m) ordc" "map_order (gauges m) ordg"
  shows "mem_listing std ordc ordg m = ''<ul>'' @ nl @ ''</ul>'' @ nl
    \<longleftrightarrow> counters m = Map.empty \<and> gauges m = Map.empty"
proof -
  let ?c = "concat (map counter_line (map_range (counters m) ordc))"
  let ?g = "concat (map (gauge_line std) (map_range (gauges m) ordg))"
  have "mem_listing std ordc ordg m = ''<ul>'' @ nl @ ''</ul>'' @ nl \<longleftrightarrow> ?c @ ?g = []"
    unfolding mem_listing_def by (simp only: same_append_eq append_tail_self)
  also have "\<dots> \<longleftrightarrow> map_range (counters m) ordc = [] \<and> map_range (gauges m) ordg = []"
    by (cases "map_range (counters m) ordc"; cases "map_range (gauges m) ordg")
      (simp_all add: counter_line_def gauge_line_def)
  finally show ?thesis using assms by (simp add: map_range_nonempty)
qed

lemma contains_concat: "x \<in> set xs \<Longrightarrow> contains (p @ concat xs @ q) x"
  by (metis (no_types, lifting) append.assoc concat.simps(2) concat_append contains_append
      contains_self in_set_conv_decomp)

lemma mem_listing_counter:
  assumes "map_order (counters m) ordc" "counters m k = Some d"
  shows "contains (mem_listing std ordc ordg m) (counter_line (k, d))"
proof -
  have "counter_line (k, d) \<in> set (map counter_line (map_range (counters m) ordc))"
    using assms by (force simp: set_map_range map_order_def)
  from contains_concat [OF this, of "''<ul>'' @ nl"] show ?thesis
    by (simp add: mem_listing_def)
qed

lemma mem_listing_gauge:
  assumes "map_order (gauges m) ordg" "gauges m k = Some v"
  shows "contains (mem_listing std ordc ordg m) (gauge_line std (k, v))"
proof -
  let ?c = "concat (map counter_line (map_range (counters m) ordc))"
  have "gauge_line std (k, v) \<in> set (map (gauge_line std) (map_range (gauges m) ordg))"
    using assms by (force simp: set_map_range map_order_def)
  from contains_concat [OF this, of "''<ul>'' @ nl @ ?c"] show ?thesis
    by (simp add: mem_listing_def)
qed

text \<open>
  C27. The listing of the in-memory storage: \<open>GetAllMetrics\<close> fails with \<open>no metrics found\<close>
  exactly when there is neither a counter nor a gauge, and otherwise the page has the line of
  every counter (its value in decimal) and of every gauge (with six decimals), whatever order
  Go chooses for its maps.
\<close>

theorem listing_shows_every_metric:
  assumes "map_order (counters (mem w)) ordc" "map_order (gauges (mem w)) ordg"
  shows "(fst (mem_GetAllMetrics std ordc ordg w) = Inl (ErrorString ''no metrics found'')
      \<longleftrightarrow> mem_view w = empty_table)
    \<and> (\<forall>k d. counters (mem w) k = Some d \<longrightarrow>
        (\<exists>page. fst (mem_GetAllMetrics std ordc ordg w) = Inr page \<and> contains page (counter_line (k, d))))
    \<and> (\<forall>k v. gauges (mem w) k = Some v \<longrightarrow>
        (\<exists>page. fst (mem_GetAllMetrics std ordc ordg w) = Inr page \<and> contains page (gauge_line std (k, v))))"
  using mem_listing_empty_iff [OF assms, of std] mem_listing_counter [OF assms(1), of _ _ std ordg]
    mem_listing_gauge [OF assms(2), of _ _ std ordc]
  by (auto simp: mem_GetAllMetrics_def Let_def mem_view_def empty_table_def)

lemma listing_shows_every_metric_witness:
  "\<exists>page. fst (mem_GetAllMetrics (sample_std JNull) [''c''] [''g''] \<lparr>mem = sample_mem, files = no_files\<rparr>) = Inr page
     \<and> contains page (''<li>c = 5</li>'' @ nl)"
proof -
  have line: "counter_line (''c'', 5) = ''<li>c = 5</li>'' @ nl"
    by code_simp
  have "map_order (counters (mem \<lparr>mem = sample_mem, files = no_files\<rparr>)) [''c'']"
    "map_order (gauges (mem \<lparr>mem = sample_mem, files = no_files\<rparr>)) [''g'']"
    "counters (mem \<lparr>mem = sample_mem, files = no_files\<rparr>) ''c'' = Some 5"
    by (simp_all add: map_order_def sample_mem_def)
  then show ?thesis
    using listing_shows_every_metric [of "\<lparr>mem = sample_mem, files = no_files\<rparr>" "[''c'']" "[''g'']" "sample_std JNull"]
    unfolding line [symmetric] by blast
qed

end
