(* ===== verification/Handlers.thy ===== *)
theory Handlers
  imports Http Services MemStorage
begin

text \<open>
  The HTTP handlers: \<open>metricshandler\<close> (five endpoints and their helpers), \<open>mainpagehandler\<close> and
  \<open>pinghandler\<close>. A handler maps a request and the state to the calls it makes on its response
  writer and the new state; its service is a method table. Logging is left out. \<open>ctx\<close> is the
  context of the request.
\<close>

type_synonym 's handler = "context_t \<Rightarrow> request \<Rightarrow> 's \<Rightarrow> wcall list \<times> 's"

definition isValidMetricType :: "bytes \<Rightarrow> bool" where
  "isValidMetricType metricType \<longleftrightarrow> metricType = Gauge \<or> metricType = Counter"

definition logAndWriteError :: "nat \<Rightarrow> bytes \<Rightarrow> wcall list" where
  "logAndWriteError statusCode msg = http_Error msg statusCode"

section \<open>URL endpoints\<close>

definition write_value :: "bytes \<Rightarrow> wcall list" where
  "write_value valueStr =
     [SetHeader ''Content-Type'' ''text/plain'', WriteHeader StatusOK, Write valueStr]"

definition GetMetric :: "go_std \<Rightarrow> 's MetricsService \<Rightarrow> 's handler" where
  "GetMetric std service ctx r s =
     (let metricType = url_param r ''metricType''; metricName = url_param r ''metricName'' in
      if \<not> isValidMetricType metricType
      then (logAndWriteError StatusBadRequest ''invalid metric type'', s)
      else if metricType = Gauge then
        (case sv_GetGauge service ctx metricName s of
           (Inl err, s') \<Rightarrow> (logAndWriteError StatusNotFound ''error getting gauge metric'', s')
         | (Inr gaugeValue, s') \<Rightarrow> (write_value (FormatFloat std (-1) gaugeValue), s'))
      else
        (case sv_GetCounter service ctx metricName s of
           (Inl err, s') \<Rightarrow> (logAndWriteError StatusNotFound ''error getting counter metric'', s')
         | (Inr counterValue, s') \<Rightarrow> (write_value (FormatInt counterValue), s')))"

text \<open>\<open>updateMetricByType\<close> answers its errors itself and returns them.\<close>

definition updateMetricByType :: "go_std \<Rightarrow> 's MetricsService \<Rightarrow> context_t \<Rightarrow> bytes \<Rightarrow> bytes \<Rightarrow> bytes
    \<Rightarrow> 's \<Rightarrow> wcall list \<times> goerr option \<times> 's" where
  "updateMetricByType std service ctx metricType metricName metricValueStr s =
     (if metricType = Gauge then
        (case ParseFloat std metricValueStr of
           None \<Rightarrow> (http_Error ''invalid gauge value format'' StatusBadRequest,
                    Some (ErrorString ''invalid syntax''), s)
         | Some parsedValue \<Rightarrow>
             (case sv_UpdateGauge service ctx metricName parsedValue s of
                (Some err, s') \<Rightarrow>
                  (http_Error ''failed to update gauge metric'' StatusInternalServerError, Some err, s')
              | (None, s') \<Rightarrow> ([], None, s')))
      else if metricType = Counter then
        (case ParseInt metricValueStr of
           Inl e \<Rightarrow> (http_Error ''invalid counter value format'' StatusBadRequest,
                     Some (ErrorString ''invalid syntax''), s)
         | Inr parsedValue \<Rightarrow>
             (case sv_UpdateCounter service ctx metricName parsedValue s of
                (Some err, s') \<Rightarrow>
                  (http_Error ''failed to update counter metric'' StatusInternalServerError, Some err, s')
              | (None, s') \<Rightarrow> ([], None, s')))
      else (http_Error ''unknown metric type'' StatusBadRequest,
            Some (ErrorString (''unknown metric type: '' @ metricType)), s))"

definition UpdateMetric :: "go_std \<Rightarrow> 's MetricsService \<Rightarrow> 's handler" where
  "UpdateMetric std service ctx r s =
     (case updateMetricByType std service ctx (url_param r ''metricType'') (url_param r ''metricName'')
             (url_param r ''value'') s of
        (calls, Some err, s') \<Rightarrow> (calls, s')
      | (calls, None, s') \<Rightarrow> (calls @ [WriteHeader StatusOK], s'))"

section \<open>JSON endpoints\<close>

definition json_content :: "request \<Rightarrow> bool" where
  "json_content r \<longleftrightarrow> contains (hget (req_header r) ''Content-Type'') ''application/json''"

text \<open>\<open>json.NewDecoder(r.Body).Decode\<close>: the first document of the body, or an error of the body.\<close>

definition decode_body :: "go_std \<Rightarrow> request \<Rightarrow> goerr + json" where
  "decode_body std r = (case req_body r of Inl e \<Rightarrow> Inl e | Inr b \<Rightarrow> json_read_first std b)"

definition updateMetricFromJSON :: "'s MetricsService \<Rightarrow> context_t \<Rightarrow> Metrics \<Rightarrow> 's
    \<Rightarrow> wcall list \<times> goerr option \<times> 's" where
  "updateMetricFromJSON service ctx data s =
     (let metricType = to_lower (MType data); metricName = ID data in
      if \<not> isValidMetricType metricType
      then (http_Error ''unknown metric type'' StatusBadRequest,
            Some (ErrorString (''unknown metric type: '' @ MType data)), s)
      else if metricType = Gauge then
        (case Value data of
           None \<Rightarrow> (http_Error ''metric value is required for gauge'' StatusBadRequest,
                    Some (ErrorString ''gauge metric value is nil''), s)
         | Some v \<Rightarrow>
             (case sv_UpdateGauge service ctx metricName v s of
                (Some err, s') \<Rightarrow>
                  (http_Error ''failed to update gauge metric'' StatusInternalServerError, Some err, s')
              | (None, s') \<Rightarrow> ([], None, s')))
      else
        (case Delta data of
           None \<Rightarrow> (http_Error ''metric delta is required for counter'' StatusBadRequest,
                    Some (ErrorString ''counter metric delta is nil''), s)
         | Some d \<Rightarrow>
             (case sv_UpdateCounter service ctx metricName d s of
                (Some err, s') \<Rightarrow>
                  (http_Error ''failed to update counter metric'' StatusInternalServerError, Some err, s')
              | (None, s') \<Rightarrow> ([], None, s'))))"

definition UpdatePost :: "go_std \<Rightarrow> 's MetricsService \<Rightarrow> 's handler" where
  "UpdatePost std service ctx r s =
     (if \<not> json_content r
      then (logAndWriteError StatusUnsupportedMediaType ''unsupported content type'', s)
      else if ContentLength r = 0
      then (logAndWriteError StatusBadRequest ''empty request body'', s)
      else
        (case (case decode_body std r of Inl e \<Rightarrow> Inl e | Inr j \<Rightarrow> unmarshal_metric std j) of
           Inl err \<Rightarrow> (logAndWriteError StatusBadRequest ''invalid JSON in request'', s)
         | Inr data \<Rightarrow>
             (case updateMetricFromJSON service ctx data s of
                (calls, Some err, s') \<Rightarrow> (calls, s')
              | (calls, None, s') \<Rightarrow> (calls @ [WriteHeader StatusOK], s'))))"

definition UpdateMetrics :: "go_std \<Rightarrow> 's MetricsService \<Rightarrow> 's handler" where
  "UpdateMetrics std service ctx r s =
     (if \<not> json_content r
      then (logAndWriteError StatusUnsupportedMediaType ''unsupported content type'', s)
      else
        (case (case decode_body std r of Inl e \<Rightarrow> Inl e | Inr j \<Rightarrow> unmarshal_metrics std j) of
           Inl err \<Rightarrow> (logAndWriteError StatusBadRequest ''invalid JSON in request'', s)
         | Inr data \<Rightarrow>
             (case sv_UpdateMetrics service ctx data (RemoteAddr r) s of
                (Some err, s') \<Rightarrow>
                  (logAndWriteError StatusInternalServerError ''failed to save batch of metrics'', s')
              | (None, s') \<Rightarrow> ([WriteHeader StatusOK], s'))))"

definition getMetricForJSONResponse :: "'s MetricsService \<Rightarrow> context_t \<Rightarrow> Metrics \<Rightarrow> 's
    \<Rightarrow> (wcall list + Metrics) \<times> 's" where
  "getMetricForJSONResponse service ctx data s =
     (let metricType = to_lower (MType data) in
      if \<not> isValidMetricType metricType
      then (Inl (http_Error ''unknown metric type'' StatusBadRequest), s)
      else if metricType = Gauge then
        (case sv_GetGauge service ctx (ID data) s of
           (Inl getErr, s') \<Rightarrow> (Inl (http_Error ''metric not found'' StatusNotFound), s')
         | (Inr gaugeValue, s') \<Rightarrow>
             (Inr (zero_Metrics\<lparr>ID := ID data, MType := MType data, Value := Some gaugeValue\<rparr>), s'))
      else
        (case sv_GetCounter service ctx (ID data) s of
           (Inl getErr, s') \<Rightarrow> (Inl (http_Error ''metric not found'' StatusNotFound), s')
         | (Inr counterValue, s') \<Rightarrow>
             (Inr (zero_Metrics\<lparr>ID := ID data, MType := MType data, Delta := Some counterValue\<rparr>), s')))"

definition SentMetricPost :: "go_std \<Rightarrow> 's MetricsService \<Rightarrow> 's handler" where
  "SentMetricPost std service ctx r s =
     (if \<not> json_content r
      then (logAndWriteError StatusUnsupportedMediaType ''unsupported content type'', s)
      else
        (case (case decode_body std r of Inl e \<Rightarrow> Inl e | Inr j \<Rightarrow> unmarshal_metric std j) of
           Inl err \<Rightarrow> (logAndWriteError StatusBadRequest ''invalid JSON in request'', s)
         | Inr data \<Rightarrow>
             (case getMetricForJSONResponse service ctx data s of
                (Inl calls, s') \<Rightarrow> (calls, s')
              | (Inr resp, s') \<Rightarrow>
                  ([SetHeader ''Content-Type'' ''application/json'', WriteHeader StatusOK]
                   @ (case marshal_metric std resp of
                        Inl err \<Rightarrow> logAndWriteError StatusInternalServerError ''error encoding response''
                      | Inr j \<Rightarrow> [Write (json_write std j @ nl)]), s'))))"

section \<open>Main page and ping\<close>

definition main_page_handler :: "'s Storage \<Rightarrow> 's handler" where
  "main_page_handler storage ctx r s =
     (case GetMainPage storage ctx s of
        (Inl err, s') \<Rightarrow>
          ([SetHeader ''Content-Type'' ''text/html; charset=utf-8'', WriteHeader StatusNotFound,
            Write ''Page not found''], s')
      | (Inr mainPage, s') \<Rightarrow>
          ([SetHeader ''Content-Type'' ''text/html; charset=utf-8'', WriteHeader StatusOK,
            Write mainPage], s'))"

definition GetPingDB :: "'s Storage \<Rightarrow> 's handler" where
  "GetPingDB storage ctx r s =
     (case st_Ping storage ctx s of
        (Some err, s') \<Rightarrow> ([WriteHeader StatusInternalServerError], s')
      | (None, s') \<Rightarrow> ([WriteHeader StatusOK], s'))"

lemmas endpoint_defs = logAndWriteError_def write_value_def updateMetricByType_def UpdateMetric_def
  updateMetricFromJSON_def UpdatePost_def UpdateMetrics_def getMetricForJSONResponse_def
  SentMetricPost_def GetMetric_def

section \<open>What a request means\<close>

text \<open>The metric that the URL of an update request names, if it names one.\<close>

definition url_metric :: "go_std \<Rightarrow> request \<Rightarrow> Metrics option" where
  "url_metric std r =
     (let t = url_param r ''metricType''; n = url_param r ''metricName''; v = url_param r ''value'' in
      if t = Gauge then map_option (gauge_metric n) (ParseFloat std v)
      else if t = Counter then (case ParseInt v of Inl e \<Rightarrow> None | Inr d \<Rightarrow> Some (counter_metric n d))
      else None)"

text \<open>The metric that the body of an update request holds: its type may be written in any case,
  its value must be present.\<close>

definition body_metric :: "go_std \<Rightarrow> request \<Rightarrow> goerr + Metrics" where
  "body_metric std r = (case decode_body std r of Inl e \<Rightarrow> Inl e | Inr j \<Rightarrow> unmarshal_metric std j)"

definition posted_metric :: "go_std \<Rightarrow> request \<Rightarrow> Metrics option" where
  "posted_metric std r =
     (if json_content r \<and> ContentLength r \<noteq> 0 then
        (case body_metric std r of
           Inl e \<Rightarrow> None
         | Inr m \<Rightarrow>
             if to_lower (MType m) = Gauge then map_option (gauge_metric (ID m)) (Value m)
             else if to_lower (MType m) = Counter then map_option (counter_metric (ID m)) (Delta m)
             else None)
      else None)"

definition posted_batch :: "go_std \<Rightarrow> request \<Rightarrow> Metrics list option" where
  "posted_batch std r =
     (if json_content r then
        (case (case decode_body std r of Inl e \<Rightarrow> Inl e | Inr j \<Rightarrow> unmarshal_metrics std j) of
           Inl e \<Rightarrow> None
         | Inr ms \<Rightarrow> Some ms)
      else None)"

section \<open>Handlers over a service that keeps its contract\<close>

context service_spec
begin

text \<open>An update request: 200 means that the metric was applied, anything else that nothing was.\<close>

lemma UpdateMetric_outcome:
  assumes "ok s" "UpdateMetric std V ctx r s = (cs, s')"
  shows "ok s' \<and> events s' = events s \<and>
    (if first_status cs = StatusOK
     then (\<exists>m. url_metric std r = Some m \<and> step m (view s) = Some (view s'))
     else first_status cs \<in> {StatusBadRequest, StatusInternalServerError} \<and> view s' = view s)"
proof -
  let ?n = "url_param r ''metricName''" and ?v = "url_param r ''value''"
  consider (gauge) "url_param r ''metricType'' = Gauge"
    | (counter) "url_param r ''metricType'' = Counter"
    | (other) "url_param r ''metricType'' \<noteq> Gauge" "url_param r ''metricType'' \<noteq> Counter" by blast
  then show ?thesis
  proof cases
    case gauge
    with assms(2) assms(1) show ?thesis
      by (auto simp: UpdateMetric_def updateMetricByType_def url_metric_def status_defs
          split: option.splits prod.splits dest: svUpdateGauge_ok svUpdateGauge_err)
  next
    case counter
    with assms(2) assms(1) show ?thesis
      by (auto simp: UpdateMetric_def updateMetricByType_def url_metric_def status_defs
          split: option.splits prod.splits sum.splits dest: svUpdateCounter_ok svUpdateCounter_err)
  next
    case other
    with assms show ?thesis
      by (auto simp: UpdateMetric_def updateMetricByType_def status_defs)
  qed
qed

lemma updateMetricFromJSON_outcome:
  assumes "ok s" "updateMetricFromJSON V ctx data s = (cs, r, s')"
  shows "ok s' \<and> events s' = events s \<and>
    (case r of
       None \<Rightarrow> cs = [] \<and>
         (if to_lower (MType data) = Gauge then \<exists>v. Value data = Some v \<and> step (gauge_metric (ID data) v) (view s) = Some (view s')
          else to_lower (MType data) = Counter
            \<and> (\<exists>d. Delta data = Some d \<and> step (counter_metric (ID data) d) (view s) = Some (view s')))
     | Some e \<Rightarrow> first_status cs \<in> {StatusBadRequest, StatusInternalServerError} \<and> view s' = view s)"
proof -
  consider (gauge) "to_lower (MType data) = Gauge" | (counter) "to_lower (MType data) = Counter"
    | (other) "\<not> isValidMetricType (to_lower (MType data))" by (auto simp: isValidMetricType_def)
  then show ?thesis
  proof cases
    case gauge
    with assms(2) assms(1) show ?thesis
      by (auto simp: updateMetricFromJSON_def isValidMetricType_def
          split: option.splits prod.splits dest: svUpdateGauge_ok svUpdateGauge_err)
  next
    case counter
    with assms(2) assms(1) show ?thesis
      by (auto simp: updateMetricFromJSON_def isValidMetricType_def
          split: option.splits prod.splits dest: svUpdateCounter_ok svUpdateCounter_err)
  next
    case other
    with assms show ?thesis by (auto simp: updateMetricFromJSON_def)
  qed
qed

lemma UpdatePost_outcome:
  assumes "ok s" "UpdatePost std V ctx r s = (cs, s')"
  shows "ok s' \<and> events s' = events s \<and>
    (if first_status cs = StatusOK
     then (\<exists>m. posted_metric std r = Some m \<and> step m (view s) = Some (view s'))
     else view s' = view s)"
proof (cases "json_content r \<and> ContentLength r \<noteq> 0 \<and> (\<exists>data. body_metric std r = Inr data)")
  case False
  with assms show ?thesis
    by (auto simp: UpdatePost_def body_metric_def logAndWriteError_def status_defs split: sum.splits if_splits)
next
  case True
  then obtain data where data: "json_content r" "ContentLength r \<noteq> 0" "body_metric std r = Inr data" by blast
  obtain cs1 e s1 where upd: "updateMetricFromJSON V ctx data s = (cs1, e, s1)"
    by (metis prod_cases3)
  from updateMetricFromJSON_outcome [OF assms(1) upd] assms(2) data upd show ?thesis
    by (cases e) (auto simp: UpdatePost_def posted_metric_def body_metric_def status_defs split: if_splits)
qed

lemma UpdateMetrics_outcome:
  assumes "ok s" "UpdateMetrics std V ctx r s = (cs, s')"
  shows "ok s' \<and>
    (if first_status cs = StatusOK
     then (\<exists>ms ev. posted_batch std r = Some ms \<and> run_steps step ms (view s) = Some (view s')
        \<and> events s' = events s @ [ev] \<and> IPAddr ev = RemoteAddr r
        \<and> EvMetrics ev = (if ms = [] then None else Some (map ID ms)))
     else view s' = view s \<and> events s' = events s)"
proof (cases "posted_batch std r")
  case None
  with assms show ?thesis
    by (auto simp: UpdateMetrics_def posted_batch_def logAndWriteError_def status_defs split: sum.splits if_splits)
next
  case (Some ms)
  obtain e s1 where upd: "sv_UpdateMetrics V ctx ms (RemoteAddr r) s = (e, s1)"
    by (metis surj_pair)
  with Some assms(2) have eq: "s' = s1"
    "cs = (case e of None \<Rightarrow> [WriteHeader StatusOK]
           | Some x \<Rightarrow> logAndWriteError StatusInternalServerError ''failed to save batch of metrics'')"
    by (auto simp: UpdateMetrics_def posted_batch_def split: sum.splits if_splits option.splits)
  show ?thesis
  proof (cases e)
    case None
    with svUpdateMetrics_ok [OF assms(1)] upd eq Some show ?thesis by fastforce
  next
    case (Some x)
    with svUpdateMetrics_err [OF assms(1)] upd eq show ?thesis
      by (auto simp: logAndWriteError_def status_defs)
  qed
qed

text \<open>A gauge that was updated by URL is read back by URL as its shortest decimal text.\<close>

lemma GetMetric_gauge:
  assumes "ok s" "GetMetric std V ctx r s = (cs, s')" "url_param r ''metricType'' = Gauge" "live ctx"
  shows "ok s' \<and> view s' = view s \<and> events s' = events s \<and>
    (case tab_gauges (view s) (url_param r ''metricName'') of
       None \<Rightarrow> status (serve cs) = StatusNotFound
     | Some v \<Rightarrow> status (serve cs) = StatusOK \<and> body (serve cs) = FormatFloat std (-1) v)"
  using assms svGetGauge_val [OF assms(1)]
  by (cases "sv_GetGauge V ctx (url_param r ''metricName'') s")
     (fastforce simp: GetMetric_def isValidMetricType_def write_value_def logAndWriteError_def
       status_serve body_serve split: option.splits)

end

context exact_service
begin

lemma GetMetric_counter:
  assumes "ok s" "GetMetric std V ctx r s = (cs, s')" "url_param r ''metricType'' = Counter" "live ctx"
  shows "ok s' \<and> view s' = view s \<and> events s' = events s \<and>
    (case tab_counters (view s) (url_param r ''metricName'') of
       None \<Rightarrow> status (serve cs) = StatusNotFound
     | Some d \<Rightarrow> status (serve cs) = StatusOK \<and> body (serve cs) = FormatInt d)"
  using assms svGetCounter_exact [OF assms(1) _ assms(4)]
  by (cases "sv_GetCounter V ctx (url_param r ''metricName'') s")
     (fastforce simp: GetMetric_def isValidMetricType_def write_value_def logAndWriteError_def
       status_serve body_serve split: option.splits)

end

end
