(* ===== verification/Gzip.thy ===== *)
theory Gzip
  imports Http Handlers
begin

text \<open>
  Package \<open>middlewares/compressor\<close>: the test of the encoding headers, the response writer that
  compresses, the decompression of requests, and the middleware around them. The format itself
  (\<open>compress/gzip\<close>) is a parameter: \<open>gz_pack\<close> is the stream for the bytes written, \<open>gz_open\<close>
  what \<open>Reset\<close> on a body gives, either an error or the body that is read through it.

  The writer of \<open>compress/gzip\<close> passes its output on in pieces. Since the status is sent before
  the first piece, only the concatenation can be observed, and the model writes it at \<open>Close\<close>.
\<close>

section \<open>The encoding headers\<close>

definition is_sep :: "char \<Rightarrow> bool" where
  "is_sep c \<longleftrightarrow> c = CHR '' '' \<or> c = CHR '',''"

text \<open>The two inner loops of \<open>isGzipEncoding\<close>, on an index into the string.\<close>

function skip_sep :: "bytes \<Rightarrow> nat \<Rightarrow> nat" where
  "skip_sep enc i = (if i < length enc \<and> is_sep (enc ! i) then skip_sep enc (Suc i) else i)"
  by pat_completeness auto
termination by (relation "measure (\<lambda>(enc, i). length enc - i)") auto

function skip_to_comma :: "bytes \<Rightarrow> nat \<Rightarrow> nat" where
  "skip_to_comma enc i = (if i < length enc \<and> enc ! i \<noteq> CHR '','' then skip_to_comma enc (Suc i) else i)"
  by pat_completeness auto
termination by (relation "measure (\<lambda>(enc, i). length enc - i)") auto

declare skip_sep.simps [simp del] skip_to_comma.simps [simp del]

lemma skip_sep_ge: "i \<le> skip_sep enc i"
proof (induction enc i rule: skip_sep.induct)
  case (1 enc i)
  then show ?case by (subst skip_sep.simps) (auto dest: Suc_leD)
qed

lemma skip_to_comma_ge: "i \<le> skip_to_comma enc i"
proof (induction enc i rule: skip_to_comma.induct)
  case (1 enc i)
  then show ?case by (subst skip_to_comma.simps) (auto dest: Suc_leD)
qed

definition gzip_at :: "bytes \<Rightarrow> nat \<Rightarrow> bool" where
  "gzip_at enc i \<longleftrightarrow>
     i + 4 \<le> length enc \<and> to_lower (take 4 (drop i enc)) = ''gzip''
     \<and> (i + 4 = length enc \<or> enc ! (i + 4) = CHR '','' \<or> enc ! (i + 4) = CHR '' '')"

function gzip_scan :: "bytes \<Rightarrow> nat \<Rightarrow> bool" where
  "gzip_scan enc i =
     (if i < length enc then
        (let j = skip_sep enc i in
         if gzip_at enc j then True else gzip_scan enc (Suc (skip_to_comma enc j)))
      else False)"
  by pat_completeness auto
termination
proof (relation "measure (\<lambda>(enc, i). length enc - i)", goal_cases)
  case (2 enc i j)
  have "i \<le> skip_to_comma enc j"
    using skip_sep_ge [of i enc] skip_to_comma_ge [of j enc] 2(2) by simp
  with 2(1) show ?case by simp
qed simp

declare gzip_scan.simps [simp del]

definition isGzipEncoding :: "bytes \<Rightarrow> bool" where
  "isGzipEncoding enc \<longleftrightarrow> (if enc = [] \<or> \<not> contains enc ''gzip'' then False else gzip_scan enc 0)"

definition isGzipAccepted :: "bytes \<Rightarrow> bool" where
  "isGzipAccepted acceptEnc = isGzipEncoding acceptEnc"

subsection \<open>The reference\<close>

text \<open>The elements of a comma-separated header, and the test of one element: after leading
  blanks it is \<open>gzip\<close> in any case, alone or followed by a blank.\<close>

fun split_comma :: "bytes \<Rightarrow> bytes list" where
  "split_comma [] = [[]]"
| "split_comma (c # cs) =
     (if c = CHR '','' then [] # split_comma cs
      else (case split_comma cs of [] \<Rightarrow> [[c]] | p # ps \<Rightarrow> (c # p) # ps))"

definition names_gzip :: "bytes \<Rightarrow> bool" where
  "names_gzip part \<longleftrightarrow>
     (let t = dropWhile (\<lambda>c. c = CHR '' '') part in
      to_lower (take 4 t) = ''gzip'' \<and> (case drop 4 t of [] \<Rightarrow> True | c # cs \<Rightarrow> c = CHR '' ''))"

lemma drop_step: "i < length xs \<Longrightarrow> drop i xs = xs ! i # drop (Suc i) xs"
  by (simp add: Cons_nth_drop_Suc)

lemma skip_sep_drop: "drop (skip_sep enc i) enc = dropWhile is_sep (drop i enc)"
proof (induction enc i rule: skip_sep.induct)
  case (1 enc i)
  show ?case
  proof (cases "i < length enc \<and> is_sep (enc ! i)")
    case True
    then have "drop i enc = enc ! i # drop (Suc i) enc" by (simp add: drop_step)
    with True 1 show ?thesis by (subst skip_sep.simps) simp
  next
    case False
    with drop_step [of i enc] show ?thesis
      by (subst skip_sep.simps) (cases "i < length enc"; simp)
  qed
qed

lemma skip_to_comma_drop: "drop (skip_to_comma enc i) enc = dropWhile (\<lambda>c. c \<noteq> CHR '','') (drop i enc)"
proof (induction enc i rule: skip_to_comma.induct)
  case (1 enc i)
  show ?case
  proof (cases "i < length enc \<and> enc ! i \<noteq> CHR '',''")
    case True
    then have "drop i enc = enc ! i # drop (Suc i) enc" by (simp add: drop_step)
    with True 1 show ?thesis by (subst skip_to_comma.simps) simp
  next
    case False
    with drop_step [of i enc] show ?thesis
      by (subst skip_to_comma.simps) (cases "i < length enc"; simp)
  qed
qed

text \<open>The scan on the rest of the string.\<close>

definition gzip_head :: "bytes \<Rightarrow> bool" where
  "gzip_head t \<longleftrightarrow> to_lower (take 4 t) = ''gzip'' \<and> (case drop 4 t of [] \<Rightarrow> True | c # cs \<Rightarrow> is_sep c)"

lemma gzip_at_head: "gzip_at enc i \<longleftrightarrow> gzip_head (drop i enc)"
proof -
  have len: "to_lower (take 4 (drop i enc)) = ''gzip'' \<Longrightarrow> i + 4 \<le> length enc"
    by (drule arg_cong [where f = length]) (auto simp: to_lower_def min_def split: if_splits)
  have c: "i + 4 < length enc \<Longrightarrow> drop 4 (drop i enc) = enc ! (i + 4) # drop (Suc (i + 4)) enc"
    using drop_step [of "i + 4" enc] by (simp add: add.commute)
  show ?thesis
    using len c by (cases "i + 4 < length enc") (auto simp: gzip_at_def gzip_head_def is_sep_def)
qed

function scan_list :: "bytes \<Rightarrow> bool" where
  "scan_list s =
     (if s = [] then False
      else (let t = dropWhile is_sep s in
            if gzip_head t then True else scan_list (drop 1 (dropWhile (\<lambda>c. c \<noteq> CHR '','') t))))"
  by pat_completeness auto
termination
proof (relation "measure length", goal_cases)
  case (2 s t)
  have "length (dropWhile (\<lambda>c. c \<noteq> CHR '','') t) \<le> length s"
    using 2(2) length_dropWhile_le order_trans by metis
  moreover have "0 < length s" using 2(1) by simp
  ultimately show ?case by (simp only: in_measure length_drop)
qed simp

declare scan_list.simps [simp del]

lemma gzip_scan_list: "gzip_scan enc i = scan_list (drop i enc)"
proof (induction enc i rule: gzip_scan.induct)
  case (1 enc i)
  show ?case
  proof (cases "i < length enc")
    case False
    then show ?thesis by (subst gzip_scan.simps, subst scan_list.simps) simp
  next
    case True
    have d: "drop (Suc (skip_to_comma enc (skip_sep enc i))) enc =
        drop 1 (dropWhile (\<lambda>c. c \<noteq> CHR '','') (dropWhile is_sep (drop i enc)))"
      by (simp add: skip_to_comma_drop [symmetric] skip_sep_drop [symmetric])
    show ?thesis
      using True 1 [OF True refl] d
      by (subst gzip_scan.simps, subst scan_list.simps) (simp add: Let_def gzip_at_head skip_sep_drop)
  qed
qed

definition any_gzip :: "bytes \<Rightarrow> bool" where
  "any_gzip s \<longleftrightarrow> list_ex names_gzip (split_comma s)"

lemma lower_comma: "lower_char CHR '','' = CHR '',''" "lower_char CHR '' '' = CHR '' ''"
  by (simp_all add: lower_char_def)

lemma split_comma_nonempty: "split_comma s \<noteq> []"
  by (cases s) (simp_all split: list.split)

lemma split_comma_unfold:
  "split_comma s = takeWhile (\<lambda>c. c \<noteq> CHR '','') s #
     (case dropWhile (\<lambda>c. c \<noteq> CHR '','') s of [] \<Rightarrow> [] | c # r \<Rightarrow> split_comma r)"
proof (induction s)
  case Nil
  then show ?case by simp
next
  case (Cons c s)
  show ?case
  proof (cases "c = CHR '',''")
    case False
    then show ?thesis using Cons by simp
  qed simp
qed

lemma gzip_length: "to_lower (take 4 x) = ''gzip'' \<Longrightarrow> 4 \<le> length x"
  by (drule arg_cong [where f = length]) (simp add: to_lower_def min_def split: if_splits)

lemma not_gzip_empty [simp]: "\<not> names_gzip []"
  by (simp add: names_gzip_def to_lower_def)

lemma names_gzip_blank: "names_gzip (CHR '' '' # part) = names_gzip part"
  by (simp add: names_gzip_def)

lemma any_gzip_Nil [simp]: "\<not> any_gzip []"
  by (simp add: any_gzip_def)

lemma any_gzip_comma: "any_gzip (CHR '','' # s) = any_gzip s"
  by (simp add: any_gzip_def)

lemma any_gzip_blank: "any_gzip (CHR '' '' # s) = any_gzip s"
proof -
  obtain x xs where "split_comma s = x # xs" using split_comma_nonempty [of s] by (cases "split_comma s") auto
  then show ?thesis by (simp add: any_gzip_def names_gzip_blank)
qed

lemma any_gzip_drop_sep: "any_gzip (dropWhile is_sep s) = any_gzip s"
proof (induction s)
  case (Cons c s)
  show ?case
  proof (cases "is_sep c")
    case True
    then have "any_gzip (c # s) = any_gzip s"
      unfolding is_sep_def using any_gzip_comma any_gzip_blank by blast
    with True Cons show ?thesis by simp
  qed simp
qed simp

lemma takeWhile_prefix: "P \<notin> set xs \<Longrightarrow> takeWhile (\<lambda>c. c \<noteq> P) (xs @ ys) = xs @ takeWhile (\<lambda>c. c \<noteq> P) ys"
  by (induction xs) auto

lemma gzip_no_comma: "to_lower xs = ''gzip'' \<Longrightarrow> CHR '','' \<notin> set xs"
proof
  assume "to_lower xs = ''gzip''" "CHR '','' \<in> set xs"
  then have "lower_char CHR '','' \<in> set ''gzip''" by (metis image_eqI image_set to_lower_def)
  then show False by (simp add: lower_comma)
qed

lemma names_gzip_head:
  assumes "t = [] \<or> \<not> is_sep (hd t)"
  shows "names_gzip (takeWhile (\<lambda>c. c \<noteq> CHR '','') t) = gzip_head t"
proof -
  let ?w = "takeWhile (\<lambda>c. c \<noteq> CHR '','') t"
  have blank: "dropWhile (\<lambda>c. c = CHR '' '') ?w = ?w"
    using assms by (cases t) (simp_all add: is_sep_def)
  have rest: "(case takeWhile (\<lambda>c. c \<noteq> CHR '','') ys of [] \<Rightarrow> True | c # cs \<Rightarrow> c = CHR '' '')
      = (case ys of [] \<Rightarrow> True | c # cs \<Rightarrow> is_sep c)" for ys
    by (cases ys) (simp_all add: is_sep_def)
  show ?thesis
  proof (cases "to_lower (take 4 t) = ''gzip''")
    case True
    have w: "?w = take 4 t @ takeWhile (\<lambda>c. c \<noteq> CHR '','') (drop 4 t)"
      using takeWhile_prefix [OF gzip_no_comma [OF True], of "drop 4 t"] by simp
    have l: "length (take 4 t) = 4" using gzip_length [OF True] by simp
    have "take 4 ?w = take 4 t" "drop 4 ?w = takeWhile (\<lambda>c. c \<noteq> CHR '','') (drop 4 t)"
      unfolding w using l by simp_all
    then show ?thesis unfolding names_gzip_def gzip_head_def Let_def blank by (simp only: rest)
  next
    case False
    have "to_lower (take 4 ?w) \<noteq> ''gzip''"
    proof
      assume g: "to_lower (take 4 ?w) = ''gzip''"
      from gzip_length [OF g] have "take 4 ?w = take 4 t"
        by (metis append_take_drop_id takeWhile_dropWhile_id take_append diff_is_0_eq take_0 append_Nil2)
      with g False show False by simp
    qed
    with False show ?thesis unfolding names_gzip_def gzip_head_def Let_def blank by simp
  qed
qed

lemma any_gzip_head:
  assumes "t = [] \<or> \<not> is_sep (hd t)"
  shows "any_gzip t = (gzip_head t \<or> any_gzip (drop 1 (dropWhile (\<lambda>c. c \<noteq> CHR '','') t)))"
proof -
  have rest: "list_ex names_gzip (case d of [] \<Rightarrow> [] | c # r \<Rightarrow> split_comma r) = any_gzip (drop 1 d)" for d
    by (cases d) (simp_all add: any_gzip_def)
  show ?thesis
    unfolding any_gzip_def [of t] split_comma_unfold [of t] list_ex_Cons_iff names_gzip_head [OF assms] rest ..
qed

lemma scan_list_any: "scan_list s = any_gzip s"
proof (induction s rule: scan_list.induct)
  case (1 s)
  show ?case
  proof (cases "s = []")
    case True
    then show ?thesis by (subst scan_list.simps) simp
  next
    case False
    let ?t = "dropWhile is_sep s"
    have "?t = [] \<or> \<not> is_sep (hd ?t)" using hd_dropWhile by blast
    from any_gzip_head [OF this] 1 [OF False refl] False any_gzip_drop_sep [of s] show ?thesis
      by (subst scan_list.simps) (auto simp: Let_def)
  qed
qed

text \<open>
  C23. \<open>isGzipEncoding\<close> finds exactly this: the header has \<open>gzip\<close> in lower case somewhere, and one
  of its comma-separated elements, after leading blanks, is \<open>gzip\<close> in any case, alone or followed
  by a blank. So the case-insensitive comparison of the loop never helps a header that is all
  \<open>GZIP\<close>, and an element with a quality (\<open>gzip;q=1.0\<close>) is not recognised. The loops end for every
  header.
\<close>

theorem isGzipEncoding_correct:
  "isGzipEncoding enc \<longleftrightarrow> contains enc ''gzip'' \<and> (\<exists>part \<in> set (split_comma enc). names_gzip part)"
  by (auto simp: isGzipEncoding_def gzip_scan_list scan_list_any any_gzip_def list_ex_iff)

theorem isGzipEncoding_correct_witness:
  "isGzipEncoding ''deflate, gzip'' \<and> \<not> isGzipEncoding ''GZIP'' \<and> \<not> isGzipEncoding ''gzip;q=1.0''"
  unfolding isGzipEncoding_correct by code_simp

section \<open>The compressing writer\<close>

record gzip_format =
  gz_pack :: "bytes \<Rightarrow> bytes"
  gz_open :: "goerr + bytes \<Rightarrow> goerr + (goerr + bytes)"

record compressWriter =
  statusCode :: nat
  headerWritten :: bool
  zw_data :: bytes

definition fresh_cw :: compressWriter where
  "fresh_cw = \<lparr>statusCode = 0, headerWritten = False, zw_data = []\<rparr>"

definition cw_WriteHeader :: "nat \<Rightarrow> compressWriter \<Rightarrow> wcall list \<times> compressWriter" where
  "cw_WriteHeader code c =
     (if headerWritten c then ([], c)
      else ((if code < 300 \<and> 200 \<le> code then [SetHeader ''Content-Encoding'' ''gzip''] else [])
              @ [WriteHeader code],
            c\<lparr>headerWritten := True, statusCode := code\<rparr>))"

definition cw_Write :: "bytes \<Rightarrow> compressWriter \<Rightarrow> wcall list \<times> compressWriter" where
  "cw_Write p c =
     (let (calls, c1) = (if \<not> headerWritten c then cw_WriteHeader StatusOK c else ([], c))
      in (calls, c1\<lparr>zw_data := zw_data c1 @ p\<rparr>))"

text \<open>A call on the compressing writer, as calls on the writer it wraps. Headers are shared.\<close>

fun cw_call :: "wcall \<Rightarrow> compressWriter \<Rightarrow> wcall list \<times> compressWriter" where
  "cw_call (SetHeader k v) c = ([SetHeader k v], c)"
| "cw_call (DelHeader k) c = ([DelHeader k], c)"
| "cw_call (WriteHeader code) c = cw_WriteHeader code c"
| "cw_call (Write p) c = cw_Write p c"

definition cw_Close :: "gzip_format \<Rightarrow> compressWriter \<Rightarrow> wcall list" where
  "cw_Close gz c = [Write (gz_pack gz (zw_data c))]"

fun cw_calls :: "gzip_format \<Rightarrow> wcall list \<Rightarrow> compressWriter \<Rightarrow> wcall list" where
  "cw_calls gz [] c = cw_Close gz c"
| "cw_calls gz (x # xs) c = (case cw_call x c of (calls, c1) \<Rightarrow> calls @ cw_calls gz xs c1)"

section \<open>The middleware\<close>

definition DecompressRequest :: "gzip_format \<Rightarrow> request \<Rightarrow> goerr + request" where
  "DecompressRequest gz r =
     (if \<not> isGzipEncoding (hget (req_header r) ''Content-Encoding'') then Inr r
      else (case gz_open gz (req_body r) of
              Inl err \<Rightarrow> Inl err
            | Inr b \<Rightarrow> Inr (r\<lparr>req_body := b\<rparr>)))"

text \<open>
  The body that \<open>DecompressRequest\<close> leaves in the request is a \<open>compressReader\<close>: the reader of the
  format and the body below it, each set to nil when it has been closed. What their \<open>Close\<close>
  returns is given. \<open>pooled\<close> counts the readers put back into the pool.
\<close>

record compressReader =
  cr_zr :: bool
  cr_r :: bool
  pooled :: nat

definition cr_Close :: "goerr option \<Rightarrow> goerr option \<Rightarrow> compressReader \<Rightarrow> goerr option \<times> compressReader" where
  "cr_Close zr_err r_err c =
     (let (err1, c1) = (if cr_zr c then (zr_err, c\<lparr>cr_zr := False, pooled := Suc (pooled c)\<rparr>) else (None, c));
          (err2, c2) = (if cr_r c1 then (r_err, c1\<lparr>cr_r := False\<rparr>) else (None, c1))
      in (if err1 \<noteq> None then err1 else err2, c2))"

definition cr_Read :: "(goerr + bytes) \<Rightarrow> compressReader \<Rightarrow> (goerr + bytes) outcome" where
  "cr_Read next_bytes c =
     (if cr_zr c then Return next_bytes else Panic ''invalid memory address or nil pointer dereference'')"

text \<open>Both are closed whatever the first returns, the first error wins, and a second \<open>Close\<close> does nothing, so a reader
  never gets into the pool twice.\<close>

lemma cr_Close_once:
  assumes "cr_Close e1 e2 \<lparr>cr_zr = True, cr_r = True, pooled = n\<rparr> = (res, c)"
  shows "res = (if e1 \<noteq> None then e1 else e2) \<and> \<not> cr_zr c \<and> \<not> cr_r c \<and> pooled c = Suc n \<and> cr_Close e3 e4 c = (None, c)"
  using assms by (auto simp: cr_Close_def)

text \<open>\<open>wh\<close> holds the headers that were set on the writer before.\<close>

definition CompressResponse :: "gzip_format \<Rightarrow> header \<Rightarrow> request \<Rightarrow> wcall list \<Rightarrow> wcall list" where
  "CompressResponse gz wh r calls =
     (if hget wh ''Content-Encoding'' \<noteq> [] then calls
      else if \<not> isGzipAccepted (hget (req_header r) ''Accept-Encoding'') then calls
      else cw_calls gz calls fresh_cw)"

definition Compress :: "gzip_format \<Rightarrow> header \<Rightarrow> 's handler \<Rightarrow> 's handler" where
  "Compress gz wh next ctx r s =
     (case DecompressRequest gz r of
        Inl err \<Rightarrow> (http_Error ''Bad Request: invalid compressed body'' StatusInternalServerError, s)
      | Inr r' \<Rightarrow> (case next ctx r' s of (calls, s') \<Rightarrow> (CompressResponse gz wh r' calls, s')))"

subsection \<open>What the client sees\<close>

text \<open>The handler has sent a header before it returned.\<close>

fun started :: "wcall list \<Rightarrow> bool" where
  "started [] = False"
| "started (WriteHeader code # cs) = True"
| "started (Write p # cs) = True"
| "started (SetHeader k v # cs) = started cs"
| "started (DelHeader k # cs) = started cs"

definition gzip_header :: "nat \<Rightarrow> header \<Rightarrow> header" where
  "gzip_header code h = (if 200 \<le> code \<and> code < 300 then hset ''Content-Encoding'' ''gzip'' h else h)"

text \<open>The wrapped writer \<open>v\<close> and the writer \<open>w\<close> that the handler's calls would have reached
  directly.\<close>

definition cw_sim :: "rwriter \<Rightarrow> rwriter \<Rightarrow> compressWriter \<Rightarrow> bool" where
  "cw_sim w v c \<longleftrightarrow>
     zw_data c = rw_body w \<and> rw_body v = [] \<and> headerWritten c = (rw_sent w \<noteq> None) \<and>
     (case rw_sent w of
        None \<Rightarrow> rw_sent v = None \<and> rw_header v = rw_header w \<and> rw_body w = []
      | Some (code, h) \<Rightarrow> rw_sent v = Some (code, gzip_header code h))"

lemma cw_sim_call:
  assumes "cw_sim w v c" "cw_call x c = (calls, c')"
  shows "cw_sim (rw_call x w) (rw_calls calls v) c'"
  using assms
  by (cases x; cases "rw_sent w")
    (auto simp: cw_sim_def cw_WriteHeader_def cw_Write_def rw_WriteHeader_def gzip_header_def Let_def
      status_defs split: if_splits)

lemma cw_calls_sim:
  "cw_sim w v c \<Longrightarrow> \<exists>v' c'. rw_calls (cw_calls gz cs c) v = rw_call (Write (gz_pack gz (zw_data c'))) v'
     \<and> cw_sim (rw_calls cs w) v' c'"
proof (induction cs arbitrary: w v c)
  case Nil
  then show ?case by (auto simp: cw_Close_def)
next
  case (Cons x xs)
  obtain calls c1 where x: "cw_call x c = (calls, c1)" by (cases "cw_call x c")
  from Cons.IH [OF cw_sim_call [OF Cons.prems x]] x show ?case by (simp add: rw_calls_append)
qed

lemma rw_sent_started: "rw_sent w = None \<Longrightarrow> (rw_sent (rw_calls cs w) \<noteq> None) = started cs"
proof (induction cs arbitrary: w)
  case (Cons c cs)
  show ?case
  proof (cases c)
    case (WriteHeader code)
    then show ?thesis
      using Cons.prems rw_sent_calls [of "rw_WriteHeader code w" "(code, rw_header w)" cs]
      by (simp add: rw_WriteHeader_def)
  next
    case (Write p)
    have "rw_sent (rw_call (Write p) w) = Some (StatusOK, rw_header w)"
      using Cons.prems by (simp add: rw_WriteHeader_def Let_def)
    from rw_sent_calls [OF this, of cs] Write show ?thesis by simp
  qed (use Cons in simp_all)
qed simp

lemma serve_compressed:
  "serve (cw_calls gz cs fresh_cw) =
     \<lparr>status = status (serve cs),
      resp_header = (if started cs then gzip_header (status (serve cs)) (resp_header (serve cs)) else resp_header (serve cs)),
      body = gz_pack gz (body (serve cs))\<rparr>"
proof -
  have "cw_sim fresh_writer fresh_writer fresh_cw"
    by (simp add: cw_sim_def fresh_writer_def fresh_cw_def)
  from cw_calls_sim [OF this, of gz cs] obtain v c where
    v: "rw_calls (cw_calls gz cs fresh_cw) fresh_writer = rw_call (Write (gz_pack gz (zw_data c))) v"
    and sim: "cw_sim (rw_calls cs fresh_writer) v c" by blast
  have st: "(rw_sent (rw_calls cs fresh_writer) \<noteq> None) = started cs"
    by (rule rw_sent_started) (simp add: fresh_writer_def)
  show ?thesis
    using sim st unfolding serve_def v
    by (cases "rw_sent (rw_calls cs fresh_writer)")
      (auto simp: cw_sim_def rw_WriteHeader_def Let_def split: option.splits)
qed

text \<open>
  C33. Compression changes only the body and one header of a response. For a client that accepts
  gzip, the status is that of the handler and the body is the gzip stream of the handler's body,
  for every status; the header \<open>Content-Encoding: gzip\<close> is added exactly when the handler sent a
  header or wrote something and the status is 2xx. So the body of an error answer is compressed
  but not labelled. A client that does not accept gzip gets the handler's response.
\<close>

theorem Compress_response:
  assumes "Compress gz Map.empty next ctx r s = (cs', s')" "DecompressRequest gz r = Inr r'"
    and "next ctx r' s = (cs, t)"
  shows "s' = t \<and> serve cs' =
    (if isGzipAccepted (hget (req_header r) ''Accept-Encoding'')
     then \<lparr>status = status (serve cs),
           resp_header = (if started cs \<and> 200 \<le> status (serve cs) \<and> status (serve cs) < 300
                          then hset ''Content-Encoding'' ''gzip'' (resp_header (serve cs)) else resp_header (serve cs)),
           body = gz_pack gz (body (serve cs))\<rparr>
     else serve cs)"
proof -
  have "req_header r' = req_header r"
    using assms(2) by (auto simp: DecompressRequest_def split: if_splits sum.splits)
  with assms show ?thesis
    by (auto simp: Compress_def CompressResponse_def serve_compressed gzip_header_def hget_def)
qed

text \<open>
  A request whose body was packed by a client and labelled \<open>gzip\<close> reaches the handler with
  the plain body, as if it had been sent uncompressed; a body that is not a gzip stream is answered
  with 500 and the handler is not run.
\<close>

theorem Compress_unpacks_request:
  assumes "isGzipEncoding (hget (req_header r) ''Content-Encoding'')"
  shows "(gz_open gz (req_body r) = Inr (Inr plain) \<longrightarrow>
       Compress gz wh next ctx r s =
         (case next ctx (r\<lparr>req_body := Inr plain\<rparr>) s of (cs, s') \<Rightarrow> (CompressResponse gz wh r cs, s')))
    \<and> (gz_open gz (req_body r) = Inl err \<longrightarrow>
       snd (Compress gz wh next ctx r s) = s
       \<and> status (serve (fst (Compress gz wh next ctx r s))) = StatusInternalServerError)"
  using assms
  by (simp add: Compress_def DecompressRequest_def CompressResponse_def status_serve split: prod.splits)

text \<open>A format for the examples: the stream is the text between two marks.\<close>

definition marked :: gzip_format where
  "marked = \<lparr>gz_pack = (\<lambda>b. ''[gz:'' @ b @ '']''),
     gz_open = (\<lambda>b. case b of Inl e \<Rightarrow> Inl e
        | Inr t \<Rightarrow> if take 4 t = ''[gz:'' \<and> t \<noteq> [] then Inr (Inr (butlast (drop 4 t)))
                  else Inl (ErrorString ''gzip: invalid header''))\<rparr>"

definition gzip_request :: "bytes \<Rightarrow> request" where
  "gzip_request b =
     \<lparr>req_method = ''POST'', req_path = ''/updates'',
      req_header = [''content-encoding'' \<mapsto> ''gzip'', ''accept-encoding'' \<mapsto> ''deflate, gzip''],
      req_body = Inr b, ContentLength = 3, RemoteAddr = ''10.0.0.1:4000'', url_param = (\<lambda>p. [])\<rparr>"

text \<open>A handler that answers the body it was sent, with status 400.\<close>

definition echo_error :: "unit handler" where
  "echo_error ctx r s =
     (http_Error (case req_body r of Inl e \<Rightarrow> [] | Inr b \<Rightarrow> b) StatusBadRequest, s)"

lemma gzip_headers [simp]:
  "isGzipEncoding (hget (req_header (gzip_request b)) ''Content-Encoding'')"
  "isGzipAccepted (hget (req_header (gzip_request b)) ''Accept-Encoding'')"
proof -
  have "isGzipEncoding ''gzip''" "isGzipEncoding ''deflate, gzip''"
    unfolding isGzipEncoding_def gzip_scan_list scan_list_any by code_simp+
  moreover have "to_lower ''Content-Encoding'' = ''content-encoding''" "to_lower ''Accept-Encoding'' = ''accept-encoding''"
    by code_simp+
  ultimately show "isGzipEncoding (hget (req_header (gzip_request b)) ''Content-Encoding'')"
    "isGzipAccepted (hget (req_header (gzip_request b)) ''Accept-Encoding'')"
    by (simp_all add: isGzipAccepted_def gzip_request_def hget_def)
qed

lemma gzip_request_opens: "gz_open marked (req_body (gzip_request (gz_pack marked b))) = Inr (Inr b)"
  by (simp add: marked_def gzip_request_def)

theorem Compress_response_witness:
  "\<exists>h. serve (fst (Compress marked Map.empty echo_error background (gzip_request (gz_pack marked ''no'')) ())) =
     \<lparr>status = StatusBadRequest, resp_header = h, body = gz_pack marked (''no'' @ nl)\<rparr>"
proof -
  let ?r = "gzip_request (gz_pack marked ''no'')"
  have d: "DecompressRequest marked ?r = Inr (?r\<lparr>req_body := Inr ''no''\<rparr>)"
    by (simp add: DecompressRequest_def gzip_request_opens)
  from Compress_response [OF surjective_pairing d surjective_pairing, of echo_error background "()"]
  show ?thesis
    by (simp add: echo_error_def status_serve body_serve status_defs)
qed

theorem Compress_unpacks_request_witness:
  "Compress marked Map.empty echo_error background (gzip_request (gz_pack marked ''no'')) () =
     (CompressResponse marked Map.empty (gzip_request (gz_pack marked ''no'')) (http_Error ''no'' StatusBadRequest), ())"
  using Compress_unpacks_request [of "gzip_request (gz_pack marked ''no'')" marked "''no''" Map.empty echo_error background "()"]
  by (simp add: gzip_request_opens echo_error_def)

end
