(* ===== verification/Signer.thy ===== *)
theory Signer
  imports Http Handlers Gzip
begin

text \<open>
  Request signatures: \<open>signerservice\<close> (SHA-256 of the key followed by the data, in lower-case
  hexadecimal digits) and the middleware \<open>HashValidationMiddleware\<close>. The digest (\<open>crypto/sha256\<close>)
  is a parameter. The interface \<open>signer.Signer\<close> is a record of two methods, nil is \<open>None\<close>, and the
  locale \<open>signer_contract\<close> says that a signer verifies exactly its own signatures.
\<close>

record Signer_iface =
  Sign :: "bytes \<Rightarrow> bytes"
  Verify :: "bytes \<Rightarrow> bytes \<Rightarrow> bool"

section \<open>signerservice\<close>

definition hex_digit :: "nat \<Rightarrow> char" where
  "hex_digit n = (if n < 10 then char_of (48 + n) else char_of (87 + n))"

definition hex_byte :: "char \<Rightarrow> bytes" where
  "hex_byte c = [hex_digit ((of_char c :: nat) div 16), hex_digit ((of_char c :: nat) mod 16)]"

definition hex :: "bytes \<Rightarrow> bytes" where
  "hex b = concat (map hex_byte b)"

definition sha_Sign :: "(bytes \<Rightarrow> bytes) \<Rightarrow> bytes \<Rightarrow> bytes \<Rightarrow> bytes" where
  "sha_Sign sha256 key data = hex (sha256 (key @ data))"

definition sha_Verify :: "(bytes \<Rightarrow> bytes) \<Rightarrow> bytes \<Rightarrow> bytes \<Rightarrow> bytes \<Rightarrow> bool" where
  "sha_Verify sha256 key data expectedHash =
     (let currentHash = sha_Sign sha256 key data in currentHash = expectedHash)"

definition NewSHA256Signer :: "(bytes \<Rightarrow> bytes) \<Rightarrow> bytes \<Rightarrow> Signer_iface" where
  "NewSHA256Signer sha256 key = \<lparr>Sign = sha_Sign sha256 key, Verify = sha_Verify sha256 key\<rparr>"

section \<open>The middleware\<close>

definition given_hash :: "request \<Rightarrow> bytes" where
  "given_hash r =
     (let h = hget (req_header r) ''HashSHA256'' in
      if h = [] then hget (req_header r) ''Hash'' else h)"

definition json_status :: "nat \<Rightarrow> wcall list" where
  "json_status code = [SetHeader ''Content-Type'' ''application/json'', WriteHeader code]"

definition HashValidationMiddleware :: "Signer_iface option \<Rightarrow> 's handler \<Rightarrow> 's handler" where
  "HashValidationMiddleware signer next ctx r s =
     (case signer of
        None \<Rightarrow> next ctx r s
      | Some sg \<Rightarrow>
          (let givenHash = given_hash r in
           if givenHash = [] \<or> givenHash = ''none'' then next ctx r s
           else
             (case req_body r of
                Inl err \<Rightarrow> (json_status StatusBadRequest, s)
              | Inr b \<Rightarrow>
                  (let r' = r\<lparr>req_body := Inr b\<rparr> in
                   if givenHash = [] then (json_status StatusBadRequest, s)
                   else if \<not> Verify sg b givenHash then (json_status StatusBadRequest, s)
                   else next ctx r' s))))"

section \<open>The contract\<close>

locale signer_contract =
  fixes sg :: Signer_iface
  assumes Verify_iff: "Verify sg data h \<longleftrightarrow> h = Sign sg data"
begin

text \<open>A request whose signature header holds the signature of its body reaches the handler.\<close>

lemma signed_passes:
  assumes "req_body r = Inr b" "given_hash r = Sign sg b"
  shows "HashValidationMiddleware (Some sg) next ctx r s = next ctx r s"
proof -
  have r: "r\<lparr>req_body := Inr b\<rparr> = r" using assms(1) by (cases r) simp
  have n: "next ctx (r\<lparr>req_body := Inr b\<rparr>) s = next ctx r s" by (simp only: r)
  show ?thesis
    using assms by (simp add: HashValidationMiddleware_def Let_def Verify_iff n)
qed

text \<open>The middleware lets a request through or answers 400 without running the handler.\<close>

lemma middleware_cases:
  "HashValidationMiddleware (Some sg) next ctx r s =
     (if given_hash r = [] \<or> given_hash r = ''none'' \<or> (\<exists>b. req_body r = Inr b \<and> given_hash r = Sign sg b)
      then next ctx r s else (json_status StatusBadRequest, s))"
proof (cases "req_body r")
  case (Inr b)
  then have r: "r\<lparr>req_body := Inr b\<rparr> = r" by (cases r) simp
  have n: "next ctx (r\<lparr>req_body := Inr b\<rparr>) s = next ctx r s" by (simp only: r)
  from Inr show ?thesis by (auto simp: HashValidationMiddleware_def Let_def Verify_iff n)
qed (simp add: HashValidationMiddleware_def Let_def)

end

interpretation sha: signer_contract "NewSHA256Signer sha256 key"
  by unfold_locales (auto simp: NewSHA256Signer_def sha_Verify_def Let_def)

text \<open>
  What the hash check guards: with a key configured, the handler runs for a request exactly
  when it carries no hash at all, or the hash \<open>none\<close>, or a hash that is the lower-case hexadecimal
  SHA-256 digest of the key followed by the body; every other request is answered 400 and changes
  nothing. So the check is optional for the client: leaving the header out bypasses it.
\<close>

theorem hash_check_guards:
  "HashValidationMiddleware (Some (NewSHA256Signer sha256 key)) next ctx r s =
    (if given_hash r = [] \<or> given_hash r = ''none''
        \<or> (\<exists>b. req_body r = Inr b \<and> given_hash r = hex (sha256 (key @ b)))
     then next ctx r s else (json_status StatusBadRequest, s))"
  using sha.middleware_cases [of sha256 key "next" ctx r s]
  by (simp add: NewSHA256Signer_def sha_Sign_def)

definition toy_digest :: "bytes \<Rightarrow> bytes" where
  "toy_digest b = [CHR 0xA7, char_of (length b)]"

definition signed_request :: "bytes \<Rightarrow> bytes \<Rightarrow> request" where
  "signed_request h b =
     \<lparr>req_method = ''POST'', req_path = ''/updates'', req_header = [''hash'' \<mapsto> h],
      req_body = Inr b, ContentLength = 3, RemoteAddr = ''10.0.0.1:4000'', url_param = (\<lambda>p. [])\<rparr>"

theorem hash_check_guards_witness:
  "HashValidationMiddleware (Some (NewSHA256Signer toy_digest ''key'')) echo_error background
      (signed_request ''a705'' ''ab'') () = echo_error background (signed_request ''a705'' ''ab'') ()
   \<and> HashValidationMiddleware (Some (NewSHA256Signer toy_digest ''key'')) echo_error background
      (signed_request ''A705'' ''ab'') () = (json_status StatusBadRequest, ())"
proof -
  have lower: "to_lower ''HashSHA256'' = ''hashsha256''" "to_lower ''Hash'' = ''hash''"
    by code_simp+
  have gh: "given_hash (signed_request h b) = h" for h b
    by (simp add: given_hash_def signed_request_def hget_def lower Let_def)
  have b: "req_body (signed_request h b) = Inr b" for h b by (simp add: signed_request_def)
  have hx: "hex (toy_digest ''keyab'') = ''a705''"
    by code_simp
  show ?thesis
    unfolding hash_check_guards by (simp add: gh b hx)
qed

end
