(* ===== verification/AgentClient.thy ===== *)
theory AgentClient
  imports Gzip Signer Config Retry
begin

text \<open>
  Package \<open>internal/agent/client\<close> and \<open>compressor_service\<close>: how the agent turns a batch into an
  HTTP request (JSON, signature of the plain JSON, gzip for bodies of at least 32 bytes), what it
  makes of the response, and when it tries again. The HTTP transport is a parameter \<open>wire\<close> over a
  state \<open>'n\<close>; \<open>pack\<close> is the gzip stream at a compression level.
\<close>

section \<open>compressor_service\<close>

text \<open>\<open>gzip.NewWriterLevel\<close> refuses a level outside \<open>HuffmanOnly\<close> (-2) to \<open>BestCompression\<close> (9).\<close>

definition svc_Compress :: "(int \<Rightarrow> bytes \<Rightarrow> bytes) \<Rightarrow> bytes \<Rightarrow> int \<Rightarrow> goerr + bytes" where
  "svc_Compress pack data level =
     (if data = [] then Inr data
      else if level < -2 \<or> 9 < level then Inl (ErrorString (''gzip: invalid compression level: '' @ FormatInt (word_of_int level)))
      else Inr (pack level data))"

definition svc_Decompress :: "gzip_format \<Rightarrow> bytes \<Rightarrow> goerr + bytes" where
  "svc_Decompress gz data =
     (if data = [] then Inr data
      else case gz_open gz (Inr data) of Inl err \<Rightarrow> Inl err | Inr b \<Rightarrow> b)"

section \<open>Requests\<close>

record RequestProcessor =
  rp_signer :: "Signer_iface option"
  useGzip :: bool
  compressionLevel :: int
  minSizeToCompress :: nat

definition NewRequestProcessor :: "Signer_iface option \<Rightarrow> bool \<Rightarrow> int \<Rightarrow> goerr + RequestProcessor" where
  "NewRequestProcessor signer gzip level =
     (if level < -1 \<or> level > 9 then Inl (ErrorString (''compression level '' @ FormatInt (word_of_int level) @ '' is out of valid range [-1, 9]''))
      else Inr \<lparr>rp_signer = signer, useGzip = gzip, compressionLevel = level, minSizeToCompress = 32\<rparr>)"

definition shouldCompress :: "RequestProcessor \<Rightarrow> bytes \<Rightarrow> bool" where
  "shouldCompress rp b \<longleftrightarrow> useGzip rp \<and> length b \<ge> minSizeToCompress rp"

text \<open>The reader with the bytes to send, the plain JSON and the signature; a nil body has neither.\<close>

definition ProcessRequest :: "go_std \<Rightarrow> (int \<Rightarrow> bytes \<Rightarrow> bytes) \<Rightarrow> RequestProcessor \<Rightarrow> Metrics list option
    \<Rightarrow> goerr + bytes option \<times> bytes option \<times> bytes" where
  "ProcessRequest std pack rp payload =
     (case payload of
        None \<Rightarrow> Inr (None, None, [])
      | Some ms \<Rightarrow>
          (case marshal_metrics std ms of
             Inl err \<Rightarrow> Inl (WrapError ''marshaling payload failed: '' err)
           | Inr doc \<Rightarrow>
               (let jsonData = json_write std doc;
                    hashValue = (case rp_signer rp of None \<Rightarrow> [] | Some sg \<Rightarrow> Sign sg jsonData)
                in if shouldCompress rp jsonData then
                     (case svc_Compress pack jsonData (compressionLevel rp) of
                        Inl err \<Rightarrow> Inl (WrapError ''compressing request body failed: '' err)
                      | Inr compressed \<Rightarrow> Inr (Some compressed, Some jsonData, hashValue))
                   else Inr (Some jsonData, Some jsonData, hashValue))))"

record client_request =
  cr_method :: bytes
  cr_url :: bytes
  cr_header :: header
  cr_body :: "bytes option"

record client_response =
  rs_status :: nat
  rs_header :: header
  rs_body :: "goerr + bytes"

record 'n wire =
  new_request_error :: "bytes \<Rightarrow> goerr option"
  http_Do :: "client_request \<Rightarrow> 'n \<Rightarrow> (goerr + client_response) \<times> 'n"

record Client =
  baseURL :: bytes
  cl_headers :: "(bytes \<times> bytes) list"
  requestProcessor :: RequestProcessor
  cl_cfg :: AgentFlags

definition normalizeURL :: "bytes \<Rightarrow> bytes" where
  "normalizeURL url =
     (let url1 = (if prefix '':'' url then ''localhost'' @ url else url) in
      if \<not> prefix ''http://'' url1 \<and> \<not> prefix ''https://'' url1 then ''http://'' @ url1 else url1)"

definition NewClient :: "bytes \<Rightarrow> Signer_iface option \<Rightarrow> AgentFlags \<Rightarrow> goerr + Client" where
  "NewClient url signer cfg =
     (case NewRequestProcessor signer True (-1) of
        Inl err \<Rightarrow> Inl err
      | Inr rp \<Rightarrow> Inr \<lparr>baseURL = normalizeURL url, cl_headers = [], requestProcessor = rp, cl_cfg = cfg\<rparr>)"

text \<open>The extra headers are a map; the list holds them in the order of its iteration.\<close>

definition client_SetHeader :: "bytes \<Rightarrow> bytes \<Rightarrow> Client \<Rightarrow> Client" where
  "client_SetHeader key v c = c\<lparr>cl_headers := filter (\<lambda>kv. fst kv \<noteq> key) (cl_headers c) @ [(key, v)]\<rparr>"

definition setRequestHeaders :: "Client \<Rightarrow> bytes option \<Rightarrow> bytes \<Rightarrow> header \<Rightarrow> header" where
  "setRequestHeaders c bodyData hashValue h =
     (let h1 = fold (\<lambda>kv. hset (fst kv) (snd kv)) (cl_headers c) h;
          h2 = hset ''Accept-Encoding'' ''gzip'' (hset ''Content-Type'' ''application/json'' h1);
          h3 = (case bodyData of
                  Some b \<Rightarrow> if shouldCompress (requestProcessor c) b then hset ''Content-Encoding'' ''gzip'' h2 else h2
                | None \<Rightarrow> h2)
      in (case bodyData of
            Some b \<Rightarrow> if rp_signer (requestProcessor c) \<noteq> None then hset ''HashSHA256'' hashValue h3 else h3
          | None \<Rightarrow> h3))"

section \<open>Responses\<close>

fun trim_left :: "bytes \<Rightarrow> bytes" where
  "trim_left [] = []"
| "trim_left (c # cs) = (if c \<in> {CHR '' '', CHR 0x09, CHR 0x0A, CHR 0x0B, CHR 0x0C, CHR 0x0D} then trim_left cs else c # cs)"

text \<open>\<open>strings.TrimSpace\<close>, on the blanks of ASCII.\<close>

definition trim_space :: "bytes \<Rightarrow> bytes" where
  "trim_space s = rev (trim_left (rev (trim_left s)))"

definition client_isGzipEncoding :: "bytes \<Rightarrow> bool" where
  "client_isGzipEncoding enc \<longleftrightarrow> list_ex (\<lambda>part. trim_space (to_lower part) = ''gzip'') (split_comma enc)"

definition ProcessResponse :: "gzip_format \<Rightarrow> client_response \<Rightarrow> goerr + bytes" where
  "ProcessResponse gz resp =
     (case rs_body resp of
        Inl err \<Rightarrow> Inl (WrapError ''reading response body failed: '' err)
      | Inr rawBody \<Rightarrow>
          if client_isGzipEncoding (hget (rs_header resp) ''Content-Encoding'') then
            (case svc_Decompress gz rawBody of
               Inl err \<Rightarrow> Inl (WrapError ''decompressing response body failed: '' err)
             | Inr b \<Rightarrow> Inr b)
          else Inr rawBody)"

section \<open>The exchange\<close>

definition status_error :: "nat \<Rightarrow> bytes \<Rightarrow> goerr" where
  "status_error code b = ErrorString (''request failed with status '' @ dec_nat code @ '': '' @ b)"

definition doRequest :: "go_std \<Rightarrow> gzip_format \<Rightarrow> (int \<Rightarrow> bytes \<Rightarrow> bytes) \<Rightarrow> 'n wire \<Rightarrow> Client
    \<Rightarrow> bytes \<Rightarrow> bytes \<Rightarrow> Metrics list option \<Rightarrow> 'n \<Rightarrow> (goerr + bytes) \<times> 'n" where
  "doRequest std gz pack W c method endpoint payload n =
     (case ProcessRequest std pack (requestProcessor c) payload of
        Inl err \<Rightarrow> (Inl err, n)
      | Inr (reader, bodyData, hashValue) \<Rightarrow>
          (case new_request_error W (baseURL c @ endpoint) of
             Some err \<Rightarrow> (Inl (WrapError ''creating request failed: '' err), n)
           | None \<Rightarrow>
               (let req = \<lparr>cr_method = method, cr_url = baseURL c @ endpoint,
                           cr_header = setRequestHeaders c bodyData hashValue Map.empty, cr_body = reader\<rparr>
                in case http_Do W req n of
                     (Inl err, n') \<Rightarrow> (Inl (WrapError ''executing request failed: '' err), n')
                   | (Inr resp, n') \<Rightarrow>
                       (case ProcessResponse gz resp of
                          Inl err \<Rightarrow> (Inl err, n')
                        | Inr responseBody \<Rightarrow>
                            if rs_status resp \<ge> StatusBadRequest
                            then (Inl (status_error (rs_status resp) responseBody), n')
                            else (Inr responseBody, n')))))"

definition request_attempt :: "go_std \<Rightarrow> gzip_format \<Rightarrow> (int \<Rightarrow> bytes \<Rightarrow> bytes) \<Rightarrow> 'n wire \<Rightarrow> Client
    \<Rightarrow> bytes \<Rightarrow> bytes \<Rightarrow> Metrics list option \<Rightarrow> (bytes \<times> 'n) operation" where
  "request_attempt std gz pack W c method endpoint payload s =
     (case doRequest std gz pack W c method endpoint payload (snd s) of
        (Inl err, n') \<Rightarrow> (Some err, (fst s, n'))
      | (Inr resp, n') \<Rightarrow> (None, (resp, n')))"

definition doRequestWithRetry :: "go_std \<Rightarrow> gzip_format \<Rightarrow> (int \<Rightarrow> bytes \<Rightarrow> bytes) \<Rightarrow> 'n wire \<Rightarrow> Client
    \<Rightarrow> context_t \<Rightarrow> bytes \<Rightarrow> bytes \<Rightarrow> Metrics list option \<Rightarrow> 'n \<Rightarrow> (goerr + bytes) \<times> 'n" where
  "doRequestWithRetry std gz pack W c ctx method endpoint payload n =
     (case agent_GetRetryDelaysAsDuration std (cl_cfg c) of
        Inl err \<Rightarrow> (Inl err, n)
      | Inr retryDelays \<Rightarrow>
          (case retry_do ctx
                  \<lparr>MaxRetries = ag_MaxRetries (cl_cfg c), Delays = Some retryDelays,
                   IsRetryableFn = Some (\<lambda>err. isNetworkError (Some err))\<rparr>
                  (request_attempt std gz pack W c method endpoint payload) ([], n) of
             (Some err, (response, n')) \<Rightarrow> (Inl err, n')
           | (None, (response, n')) \<Rightarrow> (Inr response, n')))"

definition client_Post :: "go_std \<Rightarrow> gzip_format \<Rightarrow> (int \<Rightarrow> bytes \<Rightarrow> bytes) \<Rightarrow> 'n wire \<Rightarrow> Client
    \<Rightarrow> context_t \<Rightarrow> bytes \<Rightarrow> Metrics list \<Rightarrow> 'n \<Rightarrow> (goerr + bytes) \<times> 'n" where
  "client_Post std gz pack W c ctx endpoint payload n =
     doRequestWithRetry std gz pack W c ctx ''POST'' endpoint (Some payload) n"

definition client_Get :: "go_std \<Rightarrow> gzip_format \<Rightarrow> (int \<Rightarrow> bytes \<Rightarrow> bytes) \<Rightarrow> 'n wire \<Rightarrow> Client
    \<Rightarrow> context_t \<Rightarrow> bytes \<Rightarrow> 'n \<Rightarrow> (goerr + bytes) \<times> 'n" where
  "client_Get std gz pack W c ctx endpoint n =
     doRequestWithRetry std gz pack W c ctx ''GET'' endpoint None n"

section \<open>Lemmas\<close>

lemma normalizeURL_scheme: "prefix ''http://'' (normalizeURL u) \<or> prefix ''https://'' (normalizeURL u)"
  by (simp add: normalizeURL_def Let_def)

lemma normalizeURL_idem: "normalizeURL (normalizeURL u) = normalizeURL u"
proof -
  have "\<not> prefix '':'' (normalizeURL u)"
    using normalizeURL_scheme [of u] by (auto simp: prefix_def)
  with normalizeURL_scheme [of u] show ?thesis by (auto simp: normalizeURL_def [of "normalizeURL u"] Let_def)
qed

text \<open>What the client puts into the headers that the server looks at.\<close>

lemma header_names:
  "to_lower ''Content-Type'' = ''content-type''" "to_lower ''Accept-Encoding'' = ''accept-encoding''"
  "to_lower ''Content-Encoding'' = ''content-encoding''" "to_lower ''HashSHA256'' = ''hashsha256''"
  "to_lower ''Hash'' = ''hash''"
  by code_simp+

lemma sent_headers:
  assumes "cl_headers c = []"
  shows "hget (setRequestHeaders c (Some b) hv Map.empty) ''Content-Type'' = ''application/json''"
    and "hget (setRequestHeaders c (Some b) hv Map.empty) ''Accept-Encoding'' = ''gzip''"
    and "hget (setRequestHeaders c (Some b) hv Map.empty) ''Content-Encoding'' =
       (if shouldCompress (requestProcessor c) b then ''gzip'' else [])"
    and "hget (setRequestHeaders c (Some b) hv Map.empty) ''HashSHA256'' =
       (if rp_signer (requestProcessor c) = None then [] else hv)"
    and "hget (setRequestHeaders c (Some b) hv Map.empty) ''Hash'' = []"
  by (simp_all add: setRequestHeaders_def hget_def hset_def header_names assms Let_def)

end
