(* ===== verification/AgentCollect.thy ===== *)
theory AgentCollect
  imports Model Retry
begin

text \<open>
  The collecting half of the agent: the two providers of metrics (\<open>provider\<close>), the collector that
  merges what they return (\<open>collector\<close>) and the reporter that hands a snapshot with the count of
  polls to a sender (\<open>reporter\<close>). What the runtime and the operating system report is a
  parameter, as is the conversion of an integer to a float.

  The collector and the reporter run in two goroutines that share the collector's lock; the
  second part of the theory is their interleaving, as far as the poll count is concerned.
\<close>

section \<open>Providers\<close>

text \<open>The fields of \<open>runtime.MemStats\<close> by name, and the two that are floats already.\<close>

record mem_stats =
  ms_field :: "bytes \<Rightarrow> 64 word"
  ms_GCCPUFraction :: float64
  ms_random :: float64

definition runtime_Collect :: "(64 word \<Rightarrow> float64) \<Rightarrow> goerr option \<Rightarrow> mem_stats \<Rightarrow> goerr + MemoryMetrics" where
  "runtime_Collect float_of done_err m =
     (case done_err of
        Some err \<Rightarrow> Inl err
      | None \<Rightarrow>
          Inr (zero_MemoryMetrics\<lparr>
                Alloc := float_of (ms_field m ''Alloc''),
                BuckHashSys := float_of (ms_field m ''BuckHashSys''),
                Frees := float_of (ms_field m ''Frees''),
                GCSys := float_of (ms_field m ''GCSys''),
                HeapAlloc := float_of (ms_field m ''HeapAlloc''),
                HeapIdle := float_of (ms_field m ''HeapIdle''),
                HeapInuse := float_of (ms_field m ''HeapInuse''),
                HeapObjects := float_of (ms_field m ''HeapObjects''),
                HeapReleased := float_of (ms_field m ''HeapReleased''),
                HeapSys := float_of (ms_field m ''HeapSys''),
                LastGC := float_of (ms_field m ''LastGC''),
                Lookups := float_of (ms_field m ''Lookups''),
                MCacheInuse := float_of (ms_field m ''MCacheInuse''),
                MCacheSys := float_of (ms_field m ''MCacheSys''),
                MSpanInuse := float_of (ms_field m ''MSpanInuse''),
                MSpanSys := float_of (ms_field m ''MSpanSys''),
                Mallocs := float_of (ms_field m ''Mallocs''),
                NextGC := float_of (ms_field m ''NextGC''),
                NumForcedGC := float_of (ms_field m ''NumForcedGC''),
                NumGC := float_of (ms_field m ''NumGC''),
                OtherSys := float_of (ms_field m ''OtherSys''),
                PauseTotalNs := float_of (ms_field m ''PauseTotalNs''),
                StackInuse := float_of (ms_field m ''StackInuse''),
                StackSys := float_of (ms_field m ''StackSys''),
                Sys := float_of (ms_field m ''Sys''),
                TotalAlloc := float_of (ms_field m ''TotalAlloc''),
                GCCPUFraction := ms_GCCPUFraction m,
                RandomValue := ms_random m\<rparr>))"

definition gopsutil_Collect :: "(64 word \<Rightarrow> float64) \<Rightarrow> goerr option \<Rightarrow> goerr + 64 word \<times> 64 word
    \<Rightarrow> goerr + float64 list \<Rightarrow> goerr + MemoryMetrics" where
  "gopsutil_Collect float_of done_err virtual_memory cpu_percent =
     (case done_err of
        Some err \<Rightarrow> Inl err
      | None \<Rightarrow>
          (case virtual_memory of
             Inl err \<Rightarrow> Inl err
           | Inr (mem_total, mem_free) \<Rightarrow>
               (case cpu_percent of
                  Inl err \<Rightarrow> Inl err
                | Inr cpu \<Rightarrow>
                    Inr (zero_MemoryMetrics\<lparr>TotalMemory := float_of mem_total, FreeMemory := float_of mem_free,
                           CPUutilization := Some cpu\<rparr>))))"

section \<open>The collector\<close>

record metricsCollector =
  mc_metrics :: MemoryMetrics
  pollCount :: int64

definition fresh_collector :: metricsCollector where
  "fresh_collector = \<lparr>mc_metrics = zero_MemoryMetrics, pollCount = 0\<rparr>"

text \<open>The collector starts a ticker, which panics for an interval that is not positive.\<close>

definition NewMetricsCollector :: "duration \<Rightarrow> metricsCollector outcome" where
  "NewMetricsCollector pollingInterval =
     (case NewTicker pollingInterval of Panic msg \<Rightarrow> Panic msg | Return t \<Rightarrow> Return fresh_collector)"

definition newer :: "float64 \<Rightarrow> float64 \<Rightarrow> float64" where
  "newer old new = (if \<not> f64_is_zero new then new else old)"

definition merge_fields :: "MemoryMetrics \<Rightarrow> MemoryMetrics \<Rightarrow> MemoryMetrics" where
  "merge_fields old new =
     old\<lparr>Alloc := newer (Alloc old) (Alloc new),
              BuckHashSys := newer (BuckHashSys old) (BuckHashSys new),
              Frees := newer (Frees old) (Frees new),
              GCCPUFraction := newer (GCCPUFraction old) (GCCPUFraction new),
              GCSys := newer (GCSys old) (GCSys new),
              HeapAlloc := newer (HeapAlloc old) (HeapAlloc new),
              HeapIdle := newer (HeapIdle old) (HeapIdle new),
              HeapInuse := newer (HeapInuse old) (HeapInuse new),
              HeapObjects := newer (HeapObjects old) (HeapObjects new),
              HeapReleased := newer (HeapReleased old) (HeapReleased new),
              HeapSys := newer (HeapSys old) (HeapSys new),
              LastGC := newer (LastGC old) (LastGC new),
              Lookups := newer (Lookups old) (Lookups new),
              MCacheInuse := newer (MCacheInuse old) (MCacheInuse new),
              MCacheSys := newer (MCacheSys old) (MCacheSys new),
              MSpanInuse := newer (MSpanInuse old) (MSpanInuse new),
              MSpanSys := newer (MSpanSys old) (MSpanSys new),
              Mallocs := newer (Mallocs old) (Mallocs new),
              NextGC := newer (NextGC old) (NextGC new),
              NumForcedGC := newer (NumForcedGC old) (NumForcedGC new),
              NumGC := newer (NumGC old) (NumGC new),
              OtherSys := newer (OtherSys old) (OtherSys new),
              PauseTotalNs := newer (PauseTotalNs old) (PauseTotalNs new),
              StackInuse := newer (StackInuse old) (StackInuse new),
              StackSys := newer (StackSys old) (StackSys new),
              Sys := newer (Sys old) (Sys new),
              TotalAlloc := newer (TotalAlloc old) (TotalAlloc new),
              RandomValue := newer (RandomValue old) (RandomValue new),
              TotalMemory := newer (TotalMemory old) (TotalMemory new),
              FreeMemory := newer (FreeMemory old) (FreeMemory new),
              CPUutilization := (if slice_elems (CPUutilization new) \<noteq> [] then CPUutilization new else CPUutilization old)\<rparr>"

definition mergeMetrics :: "MemoryMetrics \<Rightarrow> metricsCollector \<Rightarrow> metricsCollector" where
  "mergeMetrics newMetrics mc =
     (if IsZero (mc_metrics mc) then mc\<lparr>mc_metrics := newMetrics\<rparr>
      else mc\<lparr>mc_metrics := merge_fields (mc_metrics mc) newMetrics\<rparr>)"

fun collect_all :: "(goerr + MemoryMetrics) list \<Rightarrow> metricsCollector \<Rightarrow> metricsCollector" where
  "collect_all [] mc = mc"
| "collect_all (Inl err # results) mc = collect_all results mc"
| "collect_all (Inr newMetrics # results) mc = collect_all results (mergeMetrics newMetrics mc)"

definition collectFromAllProviders :: "(goerr + MemoryMetrics) list \<Rightarrow> metricsCollector \<Rightarrow> metricsCollector" where
  "collectFromAllProviders results mc =
     (let mc1 = collect_all results mc in mc1\<lparr>pollCount := pollCount mc1 + 1\<rparr>)"

text \<open>\<open>Clone\<close> copies the slice of processors, so later merges do not show in a snapshot; in a
  model of values the copy is the value.\<close>

definition Clone :: "MemoryMetrics \<Rightarrow> MemoryMetrics" where
  "Clone m = m\<lparr>CPUutilization := (case CPUutilization m of None \<Rightarrow> None | Some us \<Rightarrow> Some us)\<rparr>"

definition mc_GetMetrics :: "metricsCollector \<Rightarrow> MemoryMetrics \<times> int64" where
  "mc_GetMetrics mc = (Clone (mc_metrics mc), pollCount mc)"

definition ResetCount :: "metricsCollector \<Rightarrow> metricsCollector" where
  "ResetCount mc = mc\<lparr>pollCount := 0\<rparr>"

lemma Clone_id [simp]: "Clone m = m"
  by (cases "CPUutilization m"; cases m) (simp_all add: Clone_def)

subsection \<open>What a merge keeps\<close>

text \<open>The value of a merged snapshot under each name of its map form.\<close>

lemma merge_metric_fields:
  "metric_fields (merge_fields old new) =
     map2 (\<lambda>(k, a) (k', b). (k, newer a b)) (metric_fields old) (metric_fields new)"
  by (simp add: metric_fields_def merge_fields_def)

lemma metric_fields_keys: "map fst (metric_fields a) = map fst (metric_fields b)"
  by (simp add: metric_fields_def)

lemma map_of_map2_newer:
  "map fst xs = map fst ys \<Longrightarrow>
     map_of (map2 (\<lambda>(k, a) (k', b). (k, newer a b)) xs ys) n =
       (case (map_of xs n, map_of ys n) of (Some a, Some b) \<Rightarrow> Some (newer a b) | _ \<Rightarrow> None)"
proof (induction xs arbitrary: ys)
  case Nil
  then show ?case by simp
next
  case (Cons x xs)
  then obtain y ys' where "ys = y # ys'" "fst x = fst y" "map fst xs = map fst ys'"
    by (cases ys) auto
  with Cons.IH [of ys'] show ?case by (cases x; cases y) auto
qed

lemma merge_CPU:
  "CPUutilization (merge_fields old new) =
     (if slice_elems (CPUutilization new) \<noteq> [] then CPUutilization new else CPUutilization old)"
  by (simp add: merge_fields_def)

lemma mc_update:
  "mc_metrics (mc\<lparr>mc_metrics := x\<rparr>) = x" "pollCount (mc\<lparr>mc_metrics := x\<rparr>) = pollCount mc"
  by (cases mc, simp)+

text \<open>
  What a poll keeps: once the collector holds a snapshot that is not zero, merging another
  changes each of the thirty scalar metrics to the new value if that is not zero, and keeps the
  old value otherwise, so a metric that has become zero goes on being reported with its last
  value; the processor loads are replaced by a list that is not empty. While the held snapshot
  still counts as zero (no runtime metrics yet), a merge replaces it as a whole.
\<close>

theorem merge_keeps_nonzero:
  "(\<not> IsZero (mc_metrics mc) \<longrightarrow>
      map_of (metric_fields (mc_metrics (mergeMetrics new mc))) n =
        (case (map_of (metric_fields (mc_metrics mc)) n, map_of (metric_fields new) n) of
           (Some a, Some b) \<Rightarrow> Some (if f64_is_zero b then a else b) | _ \<Rightarrow> None)
      \<and> CPUutilization (mc_metrics (mergeMetrics new mc)) =
          (if slice_elems (CPUutilization new) = [] then CPUutilization (mc_metrics mc) else CPUutilization new))
   \<and> (IsZero (mc_metrics mc) \<longrightarrow> mc_metrics (mergeMetrics new mc) = new)
   \<and> pollCount (mergeMetrics new mc) = pollCount mc"
proof (cases "IsZero (mc_metrics mc)")
  case True
  then show ?thesis by (simp only: mergeMetrics_def if_True metricsCollector.select_convs metricsCollector.update_convs simp_thms)
    (cases mc, simp)
next
  case False
  then have m: "mergeMetrics new mc = mc\<lparr>mc_metrics := merge_fields (mc_metrics mc) new\<rparr>"
    by (simp only: mergeMetrics_def if_False)
  have k: "map_of (metric_fields (merge_fields (mc_metrics mc) new)) n =
      (case (map_of (metric_fields (mc_metrics mc)) n, map_of (metric_fields new) n) of
         (Some a, Some b) \<Rightarrow> Some (newer a b) | _ \<Rightarrow> None)"
    unfolding merge_metric_fields by (rule map_of_map2_newer [OF metric_fields_keys])
  have nw: "newer a b = (if f64_is_zero b then a else b)" for a b by (simp add: newer_def)
  have cpu: "(if xs \<noteq> [] then a else b) = (if xs = [] then b else a)" for xs :: "float64 list" and a b :: "float64 list option"
    by simp
  from False show ?thesis
    by (simp only: m mc_update k merge_CPU nw cpu simp_thms)
qed

definition busy_collector :: metricsCollector where
  "busy_collector = \<lparr>mc_metrics = zero_MemoryMetrics\<lparr>Alloc := f64_one, FreeMemory := f64_one\<rparr>, pollCount = 3\<rparr>"

theorem merge_keeps_nonzero_witness:
  "map_of (metric_fields (mc_metrics (mergeMetrics zero_MemoryMetrics busy_collector))) ''Alloc'' = Some f64_one"
  using merge_keeps_nonzero [of busy_collector zero_MemoryMetrics "''Alloc''"]
  by (simp add: busy_collector_def IsZero_def metric_fields_def zero_MemoryMetrics_def)

section \<open>Polls and reports\<close>

text \<open>
  The reporter takes the count (\<open>GetMetrics\<close>), hands it to the sender, and resets it, in three
  steps; the collector may poll in between. Three ghost counters observe a run: \<open>polls\<close> counts all
  polls, \<open>reported\<close> adds up what was handed to a sender, and \<open>lost\<close> the polls that a reset wiped
  out although they had come after the count was taken (\<open>late\<close> counts those since the last take).
\<close>

datatype reporter_pc = Waiting | Taken int64 | Handed int64 | Refused int64

record agent_state =
  coll :: metricsCollector
  pc :: reporter_pc
  polls :: int64
  reported :: int64
  late :: int64
  lost :: int64

definition agent_start :: agent_state where
  "agent_start = \<lparr>coll = fresh_collector, pc = Waiting, polls = 0, reported = 0, late = 0, lost = 0\<rparr>"

inductive agent_step :: "agent_state \<Rightarrow> agent_state \<Rightarrow> bool" where
  poll: "agent_step s (s\<lparr>coll := collectFromAllProviders results (coll s), polls := polls s + 1,
           late := late s + 1\<rparr>)"
| take_count: "pc s = Waiting \<Longrightarrow> mc_GetMetrics (coll s) = (m, cnt) \<Longrightarrow>
     agent_step s (s\<lparr>pc := Taken cnt, late := 0\<rparr>)"
| send_ok: "pc s = Taken cnt \<Longrightarrow> agent_step s (s\<lparr>pc := Handed cnt, reported := reported s + cnt\<rparr>)"
| send_failed: "pc s = Taken cnt \<Longrightarrow> agent_step s (s\<lparr>pc := Refused cnt\<rparr>)"
| reset: "pc s = Handed cnt \<Longrightarrow>
     agent_step s (s\<lparr>pc := Waiting, coll := ResetCount (coll s), lost := lost s + late s\<rparr>)"
| no_reset: "pc s = Refused cnt \<Longrightarrow> agent_step s (s\<lparr>pc := Waiting\<rparr>)"

inductive_cases agent_stepE: "agent_step s s'"

lemma collect_all_count [simp]: "pollCount (collect_all results mc) = pollCount mc"
proof (induction results arbitrary: mc)
  case (Cons r results)
  then show ?case by (cases r) (simp_all add: mergeMetrics_def)
qed simp

lemma collect_count [simp]: "pollCount (collectFromAllProviders results mc) = pollCount mc + 1"
  by (simp add: collectFromAllProviders_def Let_def)

definition agent_inv :: "agent_state \<Rightarrow> bool" where
  "agent_inv s \<longleftrightarrow>
     (case pc s of
        Waiting \<Rightarrow> reported s + pollCount (coll s) + lost s = polls s
      | Taken c \<Rightarrow> pollCount (coll s) = c + late s \<and> reported s + (c + late s) + lost s = polls s
      | Refused c \<Rightarrow> pollCount (coll s) = c + late s \<and> reported s + (c + late s) + lost s = polls s
      | Handed c \<Rightarrow> pollCount (coll s) = c + late s \<and> reported s + late s + lost s = polls s)"

lemma agent_inv_step: "agent_step s s' \<Longrightarrow> agent_inv s \<Longrightarrow> agent_inv s'"
proof (induction rule: agent_step.induct)
  case (poll s results)
  then show ?case by (cases "pc s") (simp_all add: agent_inv_def algebra_simps)
next
  case (take_count s m cnt)
  then show ?case by (auto simp: agent_inv_def mc_GetMetrics_def algebra_simps)
next
  case (send_ok s cnt)
  then show ?case by (simp add: agent_inv_def algebra_simps)
next
  case (send_failed s cnt)
  then show ?case by (simp add: agent_inv_def)
next
  case (reset s cnt)
  then show ?case by (simp add: agent_inv_def ResetCount_def algebra_simps)
next
  case (no_reset s cnt)
  then show ?case by (simp add: agent_inv_def)
qed

lemma agent_inv_reachable: "agent_step\<^sup>*\<^sup>* agent_start s \<Longrightarrow> agent_inv s"
proof (induction rule: rtranclp_induct)
  case base
  then show ?case by (simp add: agent_inv_def agent_start_def fresh_collector_def)
next
  case (step s s')
  then show ?case by (blast intro: agent_inv_step)
qed

text \<open>
  Every poll is accounted for: whenever the reporter waits for its ticker, what has been
  handed to the sender, what the collector still holds, and what was lost add up to the number of
  polls (as \<open>int64\<close>), in every interleaving of the two goroutines. The only polls that are lost are
  those between the reading of the count and its reset, and there is a run that loses one. No poll
  is ever reported twice.
\<close>

theorem polls_accounted_for:
  "(agent_step\<^sup>*\<^sup>* agent_start s \<longrightarrow> pc s = Waiting \<longrightarrow>
      reported s + pollCount (coll s) + lost s = polls s)
   \<and> (\<exists>s. agent_step\<^sup>*\<^sup>* agent_start s \<and> pc s = Waiting \<and> polls s = 1 \<and> reported s = 0
        \<and> pollCount (coll s) = 0)"
proof
  show "agent_step\<^sup>*\<^sup>* agent_start s \<longrightarrow> pc s = Waiting \<longrightarrow> reported s + pollCount (coll s) + lost s = polls s"
    using agent_inv_reachable [of s] by (auto simp: agent_inv_def)
  let ?s1 = "agent_start\<lparr>pc := Taken 0, late := 0\<rparr>"
  let ?s2 = "?s1\<lparr>pc := Handed 0, reported := reported ?s1 + 0\<rparr>"
  let ?s3 = "?s2\<lparr>coll := collectFromAllProviders [] (coll ?s2), polls := polls ?s2 + 1, late := late ?s2 + 1\<rparr>"
  let ?s4 = "?s3\<lparr>pc := Waiting, coll := ResetCount (coll ?s3), lost := lost ?s3 + late ?s3\<rparr>"
  have "agent_step agent_start ?s1"
    by (rule take_count) (simp_all add: agent_start_def mc_GetMetrics_def fresh_collector_def)
  moreover have "agent_step ?s1 ?s2" by (rule send_ok) simp
  moreover have "agent_step ?s2 ?s3" by (rule poll)
  moreover have "agent_step ?s3 ?s4" by (rule reset) simp
  ultimately have "agent_step\<^sup>*\<^sup>* agent_start ?s4"
    by (meson rtranclp.rtrancl_into_rtrancl rtranclp.rtrancl_refl)
  moreover have "pc ?s4 = Waiting \<and> polls ?s4 = 1 \<and> reported ?s4 = 0 \<and> pollCount (coll ?s4) = 0"
    by (simp add: agent_start_def ResetCount_def)
  ultimately show "\<exists>s. agent_step\<^sup>*\<^sup>* agent_start s \<and> pc s = Waiting \<and> polls s = 1 \<and> reported s = 0
        \<and> pollCount (coll s) = 0" by blast
qed

lemma agent_start_reachable: "agent_step\<^sup>*\<^sup>* agent_start agent_start"
  by simp

theorem polls_accounted_for_witness:
  "reported agent_start + pollCount (coll agent_start) + lost agent_start = polls agent_start"
  using polls_accounted_for [of agent_start] agent_start_reachable by (simp add: agent_start_def)

end
