(* ===== verification/AgentSend.thy ===== *)
theory AgentSend
  imports AgentClient AgentCollect
begin

text \<open>
  The sending half of the agent: the object pool (\<open>pkg/objpool\<close>) with the batch pool over it, the
  sending of a snapshot (\<open>metric_service\<close>), and the worker pool with its queue (\<open>worker_pool\<close>,
  \<open>metrics_sender\<close>). The worker pool is a step relation: workers, the goroutine that submits and
  the one that stops the pool interleave at the operations of the channel.
\<close>

section \<open>objpool\<close>

text \<open>\<open>sync.Pool\<close> may hand out any object that was put back, or drop it; \<open>choice\<close> says which.\<close>

record 'a Pool =
  pool_free :: "'a list"
  pool_new :: 'a

definition objpool_New :: "'a \<Rightarrow> 'a Pool" where
  "objpool_New x = \<lparr>pool_free = [], pool_new = x\<rparr>"

definition objpool_Get :: "nat \<Rightarrow> 'a Pool \<Rightarrow> 'a \<times> 'a Pool" where
  "objpool_Get choice p =
     (if choice < length (pool_free p)
      then (pool_free p ! choice, p\<lparr>pool_free := take choice (pool_free p) @ drop (Suc choice) (pool_free p)\<rparr>)
      else (pool_new p, p))"

definition objpool_Put :: "('a \<Rightarrow> 'a) \<Rightarrow> 'a \<Rightarrow> 'a Pool \<Rightarrow> 'a Pool" where
  "objpool_Put Reset obj p = p\<lparr>pool_free := Reset obj # pool_free p\<rparr>"

lemma list_all_take_drop: "list_all P xs \<Longrightarrow> list_all P (take k xs @ drop j xs)"
  by (auto simp: list_all_iff dest: in_set_takeD in_set_dropD)

text \<open>A \<open>Resettable\<close>: \<open>Reset\<close> makes any object as good as new.\<close>

locale resettable =
  fixes Reset :: "'a \<Rightarrow> 'a" and fresh :: "'a \<Rightarrow> bool"
  assumes Reset_fresh: "fresh (Reset x)"
begin

definition clean_pool :: "'a Pool \<Rightarrow> bool" where
  "clean_pool p \<longleftrightarrow> fresh (pool_new p) \<and> list_all fresh (pool_free p)"

lemma New_clean: "fresh x \<Longrightarrow> clean_pool (objpool_New x)"
  by (simp add: clean_pool_def objpool_New_def)

lemma Put_clean: "clean_pool p \<Longrightarrow> clean_pool (objpool_Put Reset x p)"
  by (simp add: clean_pool_def objpool_Put_def Reset_fresh)

lemma Get_fresh:
  assumes "clean_pool p" "objpool_Get k p = (x, p')"
  shows "fresh x \<and> clean_pool p'"
  using assms list_all_take_drop [of fresh "pool_free p" k "Suc k"]
  by (auto simp: clean_pool_def objpool_Get_def list_all_length split: if_splits)

end

text \<open>The batches: a slice and \<open>Reset\<close>, which empties it.\<close>

record MetricsSlice =
  Slice :: "Metrics list"

definition MetricsSlice_Reset :: "MetricsSlice \<Rightarrow> MetricsSlice" where
  "MetricsSlice_Reset m = m\<lparr>Slice := []\<rparr>"

definition NewMetricsBatchPool :: "MetricsSlice Pool" where
  "NewMetricsBatchPool = objpool_New \<lparr>Slice = []\<rparr>"

definition GetBatch :: "nat \<Rightarrow> MetricsSlice Pool \<Rightarrow> MetricsSlice \<times> MetricsSlice Pool" where
  "GetBatch choice p = objpool_Get choice p"

definition PutBatch :: "MetricsSlice \<Rightarrow> MetricsSlice Pool \<Rightarrow> MetricsSlice Pool" where
  "PutBatch batch p = objpool_Put MetricsSlice_Reset batch p"

interpretation slices: resettable MetricsSlice_Reset "\<lambda>m. Slice m = []"
  by unfold_locales (simp add: MetricsSlice_Reset_def)

section \<open>Sending a snapshot\<close>

text \<open>The batch: a gauge for every entry of the map, in the order of its iteration, and the count
  of polls unless it is zero. \<open>append\<close> starts from the slice of the pool.\<close>

definition PollCount :: bytes where
  "PollCount = ''PollCount''"

definition snapshot_batch :: "bytes list \<Rightarrow> Metrics list \<Rightarrow> MemoryMetrics \<Rightarrow> int64 \<Rightarrow> Metrics list" where
  "snapshot_batch ord start metrics deltaCounter =
     start @ map (\<lambda>(name, value). gauge_metric name value) (map_range (ToMap metrics) ord)
     @ (if deltaCounter \<noteq> 0 then [counter_metric PollCount deltaCounter] else [])"

definition send :: "go_std \<Rightarrow> gzip_format \<Rightarrow> (int \<Rightarrow> bytes \<Rightarrow> bytes) \<Rightarrow> 'n wire \<Rightarrow> Client \<Rightarrow> nat \<Rightarrow> bytes list
    \<Rightarrow> context_t \<Rightarrow> MemoryMetrics \<Rightarrow> int64 \<Rightarrow> (MetricsSlice Pool \<times> 'n) operation" where
  "send std gz pack W c choice ord ctx metrics deltaCounter pn =
     (let (p, n) = pn; metricsMap = ToMap metrics in
      if metricsMap = Map.empty \<and> deltaCounter = 0 then (None, pn)
      else
        (let (batchWrapper, p1) = GetBatch choice p;
             batch = snapshot_batch ord (Slice batchWrapper) metrics deltaCounter
         in if batch = [] then (None, (PutBatch batchWrapper p1, n))
            else (case client_Post std gz pack W c ctx ''/updates/'' batch n of
                    (Inl err, n') \<Rightarrow> (Some err, (PutBatch batchWrapper p1, n'))
                  | (Inr resp, n') \<Rightarrow> (None, (PutBatch batchWrapper p1, n')))))"

subsection \<open>The map form of a snapshot\<close>

lemma dom_add_cpu: "dom (add_cpu m i us) = dom m \<union> cpu_key ` {i ..< i + length us}"
proof (induction us arbitrary: m i)
  case (Cons u us)
  have "{i ..< i + length (u # us)} = insert i {Suc i ..< Suc i + length us}" by auto
  with Cons show ?case by auto
qed simp

lemma ToMap_finite: "finite (dom (ToMap m))"
  by (simp add: ToMap_def dom_add_cpu finite_dom_map_of)

lemma ToMap_not_empty: "ToMap m \<noteq> Map.empty"
proof -
  have "''Alloc'' \<in> dom (map_of (metric_fields m))" by (simp add: metric_fields_def)
  then have "''Alloc'' \<in> dom (ToMap m)" by (simp add: ToMap_def dom_add_cpu)
  then show ?thesis by auto
qed

lemma snapshot_batch_nonempty:
  assumes "map_order (ToMap m) ord"
  shows "snapshot_batch ord start m d \<noteq> []"
  using map_range_nonempty [OF assms] ToMap_not_empty [of m] by (simp add: snapshot_batch_def)

text \<open>So every send makes a request, also when nothing was collected yet.\<close>

lemma send_posts:
  assumes "slices.clean_pool p" "map_order (ToMap metrics) ord"
    and "client_Post std gz pack W c ctx ''/updates/'' (snapshot_batch ord [] metrics d) n = (res, n')"
  shows "\<exists>p'. slices.clean_pool p' \<and>
    send std gz pack W c choice ord ctx metrics d (p, n) =
      (case res of Inl err \<Rightarrow> Some err | Inr b \<Rightarrow> None, (p', n'))"
proof -
  obtain w p1 where g: "GetBatch choice p = (w, p1)" by fastforce
  with slices.Get_fresh [OF assms(1), of choice w p1] have w: "Slice w = []" "slices.clean_pool p1"
    by (simp_all add: GetBatch_def)
  have "slices.clean_pool (PutBatch w p1)"
    unfolding PutBatch_def by (rule slices.Put_clean [OF w(2)])
  with g w(1) assms(2,3) show ?thesis
    by (intro exI [of _ "PutBatch w p1"])
      (auto simp: send_def Let_def ToMap_not_empty snapshot_batch_nonempty split: sum.splits)
qed

section \<open>The worker pool\<close>

text \<open>A task is a number. \<open>dropped\<close> and \<open>processed\<close> are the counters; \<open>has_run\<close> and \<open>queued\<close> observe
  which tasks have been run, and which were accepted by \<open>Submit\<close>.\<close>

datatype worker = Idle | Busy nat | Stopped

record WorkerPool =
  tasks :: "nat list"
  queueSize :: nat
  wp_closed :: bool
  wp_cancelled :: bool
  worker_count :: nat
  workers :: "worker list"
  droppedTasks :: "64 word"
  processedTasks :: "64 word"
  queued :: "nat list"
  has_run :: "nat list"
  panicked :: bool

definition NewWorkerPool :: "nat \<Rightarrow> nat \<Rightarrow> WorkerPool" where
  "NewWorkerPool n cap =
     \<lparr>tasks = [], queueSize = cap, wp_closed = False, wp_cancelled = False, worker_count = n, workers = [],
      droppedTasks = 0, processedTasks = 0, queued = [], has_run = [], panicked = False\<rparr>"

text \<open>\<open>workers\<close> are the goroutines that \<open>Start\<close> launches.\<close>

definition Start :: "WorkerPool \<Rightarrow> WorkerPool" where
  "Start wp = wp\<lparr>workers := workers wp @ replicate (worker_count wp) Idle\<rparr>"

definition started_pool :: "nat \<Rightarrow> nat \<Rightarrow> WorkerPool" where
  "started_pool n cap = Start (NewWorkerPool n cap)"

lemmas started_pool_simps = started_pool_def Start_def NewWorkerPool_def

text \<open>The outcomes of \<open>Submit\<close>: of the ready cases of the \<open>select\<close> any may be chosen, and sending
  on a closed channel is ready but panics; the default is chosen only when none is ready.\<close>

datatype submit_case = Enqueue | SendOnClosed | ContextDone | QueueFull

definition submit_ready :: "WorkerPool \<Rightarrow> submit_case \<Rightarrow> bool" where
  "submit_ready wp k =
     (case k of
        Enqueue \<Rightarrow> \<not> wp_closed wp \<and> length (tasks wp) < queueSize wp
      | SendOnClosed \<Rightarrow> wp_closed wp
      | ContextDone \<Rightarrow> wp_cancelled wp
      | QueueFull \<Rightarrow> \<not> wp_closed wp \<and> \<not> length (tasks wp) < queueSize wp \<and> \<not> wp_cancelled wp)"

definition Submit :: "submit_case \<Rightarrow> nat \<Rightarrow> WorkerPool \<Rightarrow> bool \<times> WorkerPool" where
  "Submit k task wp =
     (case k of
        Enqueue \<Rightarrow> (True, wp\<lparr>tasks := tasks wp @ [task], queued := queued wp @ [task]\<rparr>)
      | SendOnClosed \<Rightarrow> (False, wp\<lparr>panicked := True\<rparr>)
      | ContextDone \<Rightarrow> (False, wp\<lparr>droppedTasks := droppedTasks wp + 1\<rparr>)
      | QueueFull \<Rightarrow> (False, wp\<lparr>droppedTasks := droppedTasks wp + 1\<rparr>))"

definition active :: "WorkerPool \<Rightarrow> nat" where
  "active wp = length (filter (\<lambda>w. case w of Busy t \<Rightarrow> True | _ \<Rightarrow> False) (workers wp))"

definition GetStats :: "WorkerPool \<Rightarrow> nat \<times> nat \<times> 64 word \<times> 64 word" where
  "GetStats wp = (active wp, length (tasks wp), droppedTasks wp, processedTasks wp)"

text \<open>One round of the loop of a worker: it takes a task, runs it to its end, or leaves the loop, because
  the channel is closed and drained or because the context is cancelled.\<close>

inductive worker_step :: "WorkerPool \<Rightarrow> WorkerPool \<Rightarrow> bool" where
  take: "i < length (workers wp) \<Longrightarrow> workers wp ! i = Idle \<Longrightarrow> tasks wp = t # ts \<Longrightarrow>
     worker_step wp (wp\<lparr>tasks := ts, workers := (workers wp)[i := Busy t]\<rparr>)"
| finish: "i < length (workers wp) \<Longrightarrow> workers wp ! i = Busy t \<Longrightarrow>
     worker_step wp (wp\<lparr>workers := (workers wp)[i := Idle], processedTasks := processedTasks wp + 1,
                     has_run := has_run wp @ [t]\<rparr>)"
| stop_drained: "i < length (workers wp) \<Longrightarrow> workers wp ! i = Idle \<Longrightarrow> tasks wp = [] \<Longrightarrow> wp_closed wp \<Longrightarrow>
     worker_step wp (wp\<lparr>workers := (workers wp)[i := Stopped]\<rparr>)"
| stop_cancelled: "i < length (workers wp) \<Longrightarrow> workers wp ! i = Idle \<Longrightarrow> wp_cancelled wp \<Longrightarrow>
     worker_step wp (wp\<lparr>workers := (workers wp)[i := Stopped]\<rparr>)"

text \<open>\<open>Stop\<close> cancels the context, closes the channel and waits: it has returned from \<open>wg.Wait\<close> when
  every worker has stopped.\<close>

definition Stop_cancel :: "WorkerPool \<Rightarrow> WorkerPool" where
  "Stop_cancel wp = wp\<lparr>wp_cancelled := True\<rparr>"

definition Stop_close :: "WorkerPool \<Rightarrow> WorkerPool" where
  "Stop_close wp = wp\<lparr>wp_closed := True\<rparr>"

definition all_stopped :: "WorkerPool \<Rightarrow> bool" where
  "all_stopped wp \<longleftrightarrow> wp_closed wp \<and> list_all (\<lambda>w. w = Stopped) (workers wp)"

inductive pool_step :: "WorkerPool \<Rightarrow> WorkerPool \<Rightarrow> bool" where
  submit: "submit_ready wp k \<Longrightarrow> pool_step wp (snd (Submit k task wp))"
| work: "worker_step wp wp' \<Longrightarrow> pool_step wp wp'"
| cancel: "pool_step wp (Stop_cancel wp)"
| close: "wp_cancelled wp \<Longrightarrow> \<not> wp_closed wp \<Longrightarrow> pool_step wp (Stop_close wp)"

inductive_cases worker_stepE: "worker_step wp wp'"

definition running_task :: "worker \<Rightarrow> nat list" where
  "running_task w = (case w of Busy t \<Rightarrow> [t] | Idle \<Rightarrow> [] | Stopped \<Rightarrow> [])"

definition in_progress :: "WorkerPool \<Rightarrow> nat list" where
  "in_progress wp = concat (map running_task (workers wp))"

definition pool_inv :: "nat \<Rightarrow> nat \<Rightarrow> WorkerPool \<Rightarrow> bool" where
  "pool_inv n cap wp \<longleftrightarrow>
     mset (queued wp) = mset (tasks wp) + mset (in_progress wp) + mset (has_run wp)
     \<and> length (tasks wp) \<le> cap \<and> queueSize wp = cap \<and> length (workers wp) = n
     \<and> (wp_closed wp \<longrightarrow> wp_cancelled wp)
     \<and> processedTasks wp = of_nat (length (has_run wp))"

lemma in_progress_upd:
  assumes "i < length ws"
  shows "mset (concat (map running_task (ws[i := w]))) + mset (running_task (ws ! i)) =
    mset (concat (map running_task ws)) + mset (running_task w)"
  using assms
proof (induction ws arbitrary: i)
  case (Cons x ws)
  then show ?case by (cases i) (auto simp: algebra_simps)
qed simp

lemma pool_inv_worker: "worker_step wp wp' \<Longrightarrow> pool_inv n cap wp \<Longrightarrow> pool_inv n cap wp'"
proof (induction rule: worker_step.induct)
  case (take i wp t ts)
  then show ?case
    using in_progress_upd [of i "workers wp" "Busy t"]
    by (simp add: pool_inv_def in_progress_def running_task_def)
next
  case (finish i wp t)
  then show ?case
    using in_progress_upd [of i "workers wp" Idle]
    by (simp add: pool_inv_def in_progress_def running_task_def add.assoc)
next
  case (stop_drained i wp)
  then show ?case
    using in_progress_upd [of i "workers wp" Stopped]
    by (simp add: pool_inv_def in_progress_def running_task_def)
next
  case (stop_cancelled i wp)
  then show ?case
    using in_progress_upd [of i "workers wp" Stopped]
    by (simp add: pool_inv_def in_progress_def running_task_def)
qed

lemma pool_inv_step: "pool_step wp wp' \<Longrightarrow> pool_inv n cap wp \<Longrightarrow> pool_inv n cap wp'"
proof (induction rule: pool_step.induct)
  case (submit wp k task)
  then show ?case
    by (cases k) (auto simp: pool_inv_def Submit_def submit_ready_def in_progress_def)
next
  case (work wp wp')
  then show ?case by (rule pool_inv_worker)
qed (auto simp: pool_inv_def in_progress_def Stop_cancel_def Stop_close_def)

lemma pool_inv_reachable: "pool_step\<^sup>*\<^sup>* (started_pool n cap) wp \<Longrightarrow> pool_inv n cap wp"
proof (induction rule: rtranclp_induct)
  case base
  have "concat (map running_task (replicate n Idle)) = []" by (induction n) (simp_all add: running_task_def)
  then show ?case by (simp add: pool_inv_def started_pool_simps in_progress_def)
next
  case (step wp wp')
  then show ?case by (blast intro: pool_inv_step)
qed

lemma all_stopped_idle: "all_stopped wp \<Longrightarrow> in_progress wp = []"
  by (auto simp: all_stopped_def in_progress_def list_all_iff running_task_def)

text \<open>
  C9. The worker pool neither loses nor repeats work: in every interleaving, the tasks that
  \<open>Submit\<close> accepted are exactly those in the queue, in the hands of a worker, or run, each once;
  the queue never exceeds its size and at most \<open>workers\<close> tasks run at a time. When \<open>Stop\<close> has
  returned, every accepted task has been run or is still in the queue.
\<close>

theorem worker_pool_conserves_tasks:
  assumes "pool_step\<^sup>*\<^sup>* (started_pool n cap) wp"
  shows "mset (queued wp) = mset (tasks wp) + mset (in_progress wp) + mset (has_run wp)
    \<and> length (tasks wp) \<le> cap \<and> active wp \<le> n
    \<and> processedTasks wp = of_nat (length (has_run wp))
    \<and> (all_stopped wp \<longrightarrow> mset (queued wp) = mset (tasks wp) + mset (has_run wp))"
  using pool_inv_reachable [OF assms] all_stopped_idle [of wp]
  by (auto simp: pool_inv_def active_def)

definition after_submit :: WorkerPool where
  "after_submit = snd (Submit Enqueue 7 (started_pool 1 2))"

lemma after_submit_reachable: "pool_step\<^sup>*\<^sup>* (started_pool 1 2) after_submit"
  unfolding after_submit_def
  by (rule r_into_rtranclp, rule submit) (simp add: submit_ready_def started_pool_simps)

theorem worker_pool_conserves_tasks_witness:
  "mset (queued after_submit) = mset (tasks after_submit) + mset (in_progress after_submit) + mset (has_run after_submit)
    \<and> tasks after_submit = [7]"
  using worker_pool_conserves_tasks [OF after_submit_reachable]
  by (simp add: after_submit_def Submit_def started_pool_simps)

text \<open>
  Two ways in which stopping the pool goes wrong: there is a run after which \<open>Stop\<close> has
  returned and an accepted task was never run, without being counted as dropped, because a worker
  may choose the cancelled context although tasks are queued; and there is a run in which \<open>Submit\<close>
  panics, because the reporter may still submit after the channel was closed.
\<close>

theorem stopping_the_pool_loses_work:
  "(\<exists>wp. pool_step\<^sup>*\<^sup>* (started_pool 1 2) wp \<and> all_stopped wp \<and> queued wp = [7] \<and> has_run wp = [] \<and> droppedTasks wp = 0)
   \<and> (\<exists>wp. pool_step\<^sup>*\<^sup>* (started_pool 1 2) wp \<and> panicked wp)"
proof
  let ?a = "Stop_cancel after_submit"
  let ?b = "?a\<lparr>workers := (workers ?a)[0 := Stopped]\<rparr>"
  let ?c = "Stop_close ?b"
  note defs = after_submit_def Submit_def started_pool_simps Stop_cancel_def Stop_close_def
  have a: "pool_step after_submit ?a" by (rule cancel)
  moreover have "pool_step ?a ?b"
    by (rule work, rule stop_cancelled) (simp_all add: defs)
  moreover have "pool_step ?b ?c"
    by (rule close) (simp_all add: defs)
  ultimately have "pool_step\<^sup>*\<^sup>* (started_pool 1 2) ?c"
    using after_submit_reachable by (meson rtranclp.rtrancl_into_rtrancl)
  moreover have "all_stopped ?c \<and> queued ?c = [7] \<and> has_run ?c = [] \<and> droppedTasks ?c = 0"
    by (simp add: all_stopped_def defs)
  ultimately show "\<exists>wp. pool_step\<^sup>*\<^sup>* (started_pool 1 2) wp \<and> all_stopped wp \<and> queued wp = [7]
      \<and> has_run wp = [] \<and> droppedTasks wp = 0" by blast
  let ?d = "Stop_close ?a"
  have "pool_step ?a ?d" by (rule close) (simp_all add: defs)
  moreover have "pool_step ?d (snd (Submit SendOnClosed 8 ?d))"
    by (rule submit) (simp add: submit_ready_def defs)
  ultimately have "pool_step\<^sup>*\<^sup>* (started_pool 1 2) (snd (Submit SendOnClosed 8 ?d))"
    using after_submit_reachable a by (meson rtranclp.rtrancl_into_rtrancl)
  moreover have "panicked (snd (Submit SendOnClosed 8 ?d))" by (simp add: Submit_def)
  ultimately show "\<exists>wp. pool_step\<^sup>*\<^sup>* (started_pool 1 2) wp \<and> panicked wp" by blast
qed

section \<open>The pool comes to rest\<close>

text \<open>A bound on the rounds the workers still have: three for a queued task (taken, run, and the
  worker free again), two for one in progress, one for an idle worker that may stop.\<close>

definition rounds_left :: "worker \<Rightarrow> nat" where
  "rounds_left w = (case w of Idle \<Rightarrow> 1 | Busy t \<Rightarrow> 2 | Stopped \<Rightarrow> 0)"

definition work_left :: "WorkerPool \<Rightarrow> nat" where
  "work_left wp = 3 * length (tasks wp) + sum_list (map rounds_left (workers wp))"

lemma sum_list_upd:
  "i < length ws \<Longrightarrow> sum_list (map f (ws[i := w])) + f (ws ! i) = sum_list (map f ws) + (f w :: nat)"
proof (induction ws arbitrary: i)
  case (Cons x ws)
  then show ?case by (cases i) auto
qed simp

lemma worker_step_work_left: "worker_step wp wp' \<Longrightarrow> work_left wp' < work_left wp"
proof (induction rule: worker_step.induct)
  case (take i wp t ts)
  then show ?case using sum_list_upd [of i "workers wp" rounds_left "Busy t"] by (simp add: work_left_def rounds_left_def)
next
  case (finish i wp t)
  then show ?case using sum_list_upd [of i "workers wp" rounds_left Idle] by (simp add: work_left_def rounds_left_def)
next
  case (stop_drained i wp)
  then show ?case using sum_list_upd [of i "workers wp" rounds_left Stopped] by (simp add: work_left_def rounds_left_def)
next
  case (stop_cancelled i wp)
  then show ?case using sum_list_upd [of i "workers wp" rounds_left Stopped] by (simp add: work_left_def rounds_left_def)
qed

lemma worker_steps_bounded: "(worker_step ^^ k) wp wp' \<Longrightarrow> k + work_left wp' \<le> work_left wp"
proof (induction k arbitrary: wp')
  case (Suc k)
  then obtain w where "(worker_step ^^ k) wp w" "worker_step w wp'" by auto
  with Suc.IH [of w] worker_step_work_left [of w wp'] show ?case by simp
qed simp

text \<open>What the workers leave alone.\<close>

lemma worker_step_keeps:
  "worker_step wp wp' \<Longrightarrow> wp_closed wp' = wp_closed wp \<and> wp_cancelled wp' = wp_cancelled wp \<and> queued wp' = queued wp
     \<and> length (workers wp') = length (workers wp)"
  by (induction rule: worker_step.induct) auto

lemma worker_steps_keep:
  "(worker_step ^^ k) wp wp' \<Longrightarrow> wp_closed wp' = wp_closed wp \<and> wp_cancelled wp' = wp_cancelled wp \<and> queued wp' = queued wp
     \<and> length (workers wp') = length (workers wp)"
proof (induction k arbitrary: wp')
  case (Suc k)
  then obtain w where "(worker_step ^^ k) wp w" "worker_step w wp'" by auto
  with Suc.IH [of w] worker_step_keeps [of w wp'] show ?case by simp
qed simp

definition at_rest :: "WorkerPool \<Rightarrow> bool" where
  "at_rest wp \<longleftrightarrow> (\<forall>wp'. \<not> worker_step wp wp')"

lemma at_rest_worker:
  assumes "at_rest wp" "i < length (workers wp)"
  shows "workers wp ! i = Stopped \<or> workers wp ! i = Idle \<and> tasks wp = [] \<and> \<not> wp_closed wp \<and> \<not> wp_cancelled wp"
proof (cases "workers wp ! i")
  case Idle
  then show ?thesis
    using assms take [of i wp] stop_drained [of i wp] stop_cancelled [of i wp]
    by (cases "tasks wp") (auto simp: at_rest_def)
next
  case (Busy t)
  then show ?thesis using assms finish [of i wp t] by (auto simp: at_rest_def)
qed simp

lemma no_stopped_worker_step:
  "worker_step wp wp' \<Longrightarrow> \<not> wp_closed wp \<Longrightarrow> \<not> wp_cancelled wp \<Longrightarrow> Stopped \<notin> set (workers wp) \<Longrightarrow> Stopped \<notin> set (workers wp')"
  by (induction rule: worker_step.induct) (auto dest: set_update_subset_insert [THEN subsetD])

lemma pool_no_stopped:
  "pool_step\<^sup>*\<^sup>* (started_pool n cap) wp \<Longrightarrow> \<not> wp_cancelled wp \<Longrightarrow> Stopped \<notin> set (workers wp)"
proof (induction rule: rtranclp_induct)
  case base
  then show ?case by (auto simp: started_pool_simps)
next
  case (step w wp)
  from step.hyps(2) show ?case
  proof cases
    case (submit k task)
    with step.IH step.prems show ?thesis by (cases k) (simp_all add: Submit_def)
  next
    case work
    then have "\<not> wp_cancelled w" using step.prems worker_step_keeps by blast
    moreover have "\<not> wp_closed w"
      using pool_inv_reachable [OF step.hyps(1)] \<open>\<not> wp_cancelled w\<close> by (auto simp: pool_inv_def)
    ultimately show ?thesis using no_stopped_worker_step work step.IH by blast
  qed (use step.IH step.prems in \<open>simp_all add: Stop_cancel_def Stop_close_def\<close>)
qed

lemma no_stopped_worker_steps:
  "(worker_step ^^ k) wp wp' \<Longrightarrow> \<not> wp_closed wp \<Longrightarrow> \<not> wp_cancelled wp \<Longrightarrow> Stopped \<notin> set (workers wp) \<Longrightarrow>
     Stopped \<notin> set (workers wp')"
proof (induction k arbitrary: wp')
  case (Suc k)
  then obtain w where w: "(worker_step ^^ k) wp w" "worker_step w wp'" by auto
  show ?case
    by (rule no_stopped_worker_step [OF w(2)]) (use Suc.IH [OF w(1)] Suc.prems worker_steps_keep [OF w(1)] in simp_all)
qed simp

lemma worker_steps_reachable: "(worker_step ^^ k) wp wp' \<Longrightarrow> pool_step\<^sup>*\<^sup>* wp wp'"
proof (induction k arbitrary: wp')
  case (Suc k)
  then obtain w where "(worker_step ^^ k) wp w" "worker_step w wp'" by auto
  with Suc.IH [of w] show ?case by (blast intro: rtranclp.rtrancl_into_rtrancl work)
qed simp

lemma rest_reached: "\<exists>k wp'. (worker_step ^^ k) wp wp' \<and> at_rest wp'"
proof (induction "work_left wp" arbitrary: wp rule: less_induct)
  case less
  show ?case
  proof (cases "at_rest wp")
    case True
    then show ?thesis by (intro exI [of _ 0] exI [of _ wp]) simp
  next
    case False
    then obtain w where w: "worker_step wp w" by (auto simp: at_rest_def)
    from less [OF worker_step_work_left [OF w]] obtain k wp' where "(worker_step ^^ k) w wp'" "at_rest wp'" by blast
    with w have "(worker_step ^^ Suc k) wp wp'" by (blast intro: relpowp_Suc_I2)
    with \<open>at_rest wp'\<close> show ?thesis by blast
  qed
qed

text \<open>
  C34. The pool comes to rest: from every reachable state the workers can make at most
  \<open>work_left\<close> further rounds, and some run of theirs ends. Where it ends, a pool whose channel was
  closed has only stopped workers, so \<open>Stop\<close> returns whatever they choose (provided every task
  does); and a pool that was not stopped, with at least one worker, has run every task that
  \<open>Submit\<close> accepted exactly once.
\<close>

theorem pool_drains:
  assumes reach: "pool_step\<^sup>*\<^sup>* (started_pool n cap) wp"
  shows "(\<exists>k wp'. (worker_step ^^ k) wp wp' \<and> at_rest wp')
    \<and> (\<forall>k wp'. (worker_step ^^ k) wp wp' \<longrightarrow> k \<le> work_left wp
         \<and> (at_rest wp' \<longrightarrow> wp_closed wp \<longrightarrow> all_stopped wp')
         \<and> (at_rest wp' \<longrightarrow> \<not> wp_cancelled wp \<longrightarrow> 0 < n \<longrightarrow> mset (has_run wp') = mset (queued wp)))"
proof (intro conjI allI impI)
  show "\<exists>k wp'. (worker_step ^^ k) wp wp' \<and> at_rest wp'" by (rule rest_reached)
  fix k wp' assume run: "(worker_step ^^ k) wp wp'"
  note keeps = worker_steps_keep [OF run]
  show "k \<le> work_left wp" using worker_steps_bounded [OF run] by simp
  assume rest: "at_rest wp'"
  show "all_stopped wp'" if "wp_closed wp"
    using that keeps at_rest_worker [OF rest] by (auto simp: all_stopped_def list_all_length)
  assume live: "\<not> wp_cancelled wp" "0 < n"
  have inv: "pool_inv n cap wp'"
    using reach worker_steps_reachable [OF run] by (meson pool_inv_reachable rtranclp_trans)
  have "\<not> wp_closed wp" using pool_inv_reachable [OF reach] live by (auto simp: pool_inv_def)
  then have "Stopped \<notin> set (workers wp')"
    using no_stopped_worker_steps [OF run] pool_no_stopped [OF reach] live by blast
  have len: "length (workers wp') = n" using inv by (simp add: pool_inv_def)
  have idle: "workers wp' ! i = Idle \<and> tasks wp' = []" if "i < n" for i
  proof -
    have "workers wp' ! i \<noteq> Stopped"
      using \<open>Stopped \<notin> set (workers wp')\<close> nth_mem [of i "workers wp'"] that len by metis
    with at_rest_worker [OF rest, of i] that len show ?thesis by simp
  qed
  then have "set (workers wp') \<subseteq> {Idle}" using inv by (auto simp: pool_inv_def in_set_conv_nth)
  then have "in_progress wp' = []" by (auto simp: in_progress_def running_task_def)
  with idle [OF live(2)] inv keeps show "mset (has_run wp') = mset (queued wp)" by (simp add: pool_inv_def)
qed

definition after_run :: WorkerPool where
  "after_run = after_submit\<lparr>tasks := [], processedTasks := 1, has_run := [7]\<rparr>"

theorem pool_drains_witness:
  "(worker_step ^^ 2) after_submit after_run \<and> at_rest after_run \<and> mset (has_run after_run) = mset (queued after_submit)"
proof -
  let ?m = "after_submit\<lparr>tasks := [], workers := [Busy 7]\<rparr>"
  have "worker_step after_submit ?m"
    using take [of 0 after_submit 7 "[]"] by (simp add: after_submit_def Submit_def started_pool_simps)
  moreover have "worker_step ?m after_run"
    using finish [of 0 ?m 7] by (simp add: after_run_def after_submit_def Submit_def started_pool_simps)
  ultimately have run: "(worker_step ^^ 2) after_submit after_run" by (auto simp: numeral_2_eq_2)
  moreover have rest: "at_rest after_run"
    by (auto simp: at_rest_def after_run_def after_submit_def Submit_def started_pool_simps elim!: worker_stepE)
  moreover have "\<not> wp_cancelled after_submit" by (simp add: after_submit_def Submit_def started_pool_simps)
  ultimately show ?thesis using pool_drains [OF after_submit_reachable] by auto
qed

section \<open>The sender\<close>

text \<open>\<open>Send\<close> of the limited sender returns nil whether or not the pool took the task, and the
  reporter resets its count on nil.\<close>

definition metricsSender_Send :: "submit_case \<Rightarrow> nat \<Rightarrow> WorkerPool \<Rightarrow> goerr option \<times> WorkerPool" where
  "metricsSender_Send k task wp = (case Submit k task wp of (submitted, wp') \<Rightarrow> (None, wp'))"

text \<open>\<open>report\<close> with that sender, without a poll in between.\<close>

definition report :: "submit_case \<Rightarrow> nat \<Rightarrow> metricsCollector \<times> WorkerPool \<Rightarrow> metricsCollector \<times> WorkerPool" where
  "report k task s =
     (case s of (mc, wp) \<Rightarrow>
        (case mc_GetMetrics mc of (metrics, cnt) \<Rightarrow>
           (case metricsSender_Send k task wp of
              (Some err, wp') \<Rightarrow> (mc, wp')
            | (None, wp') \<Rightarrow> (ResetCount mc, wp'))))"

text \<open>
  A full queue costs polls: when \<open>Submit\<close> refuses the task because the queue is full, the
  snapshot is not sent, yet the sender reports success and the reporter sets the poll count to
  zero.
\<close>

theorem full_queue_loses_polls:
  assumes "length (tasks wp) = queueSize wp" "\<not> wp_closed wp" "\<not> wp_cancelled wp" "submit_ready wp k"
  shows "case report k task (mc, wp) of (mc', wp') \<Rightarrow>
    pollCount mc' = 0 \<and> queued wp' = queued wp \<and> droppedTasks wp' = droppedTasks wp + 1"
  using assms
  by (cases k) (simp_all add: report_def metricsSender_Send_def Submit_def mc_GetMetrics_def ResetCount_def submit_ready_def)

theorem full_queue_loses_polls_witness:
  "case report QueueFull 9 (busy_collector, started_pool 1 0) of (mc', wp') \<Rightarrow>
    pollCount mc' = 0 \<and> queued wp' = queued (started_pool 1 0) \<and> droppedTasks wp' = droppedTasks (started_pool 1 0) + 1"
  by (rule full_queue_loses_polls) (simp_all add: submit_ready_def started_pool_simps)

end
