(* ===== verification/AgentApp.thy ===== *)
theory AgentApp
  imports AgentSend
begin

text \<open>
  The agent as a whole (\<open>internal/agent/app.go\<close>): the two senders behind one interface
  (\<open>metrics_sender\<close>, \<open>unlimited_sender\<close>), the wiring of \<open>Initialize\<close> with the panics of
  \<open>time.NewTicker\<close> and \<open>make\<close>, and the shutdown of \<open>Wait\<close> as a step relation in which the main
  goroutine, the loop of the reporter, its ticker and the senders interleave.
\<close>

section \<open>The two senders\<close>

text \<open>A send of the unlimited sender is a goroutine of its own; \<open>landed\<close> are those that ended.\<close>

record unlimitedSender =
  in_flight :: "nat list"
  landed :: "nat list"

definition newUnlimitedSender :: unlimitedSender where
  "newUnlimitedSender = \<lparr>in_flight = [], landed = []\<rparr>"

definition unlimited_Send :: "nat \<Rightarrow> unlimitedSender \<Rightarrow> goerr option \<times> unlimitedSender" where
  "unlimited_Send task us = (None, us\<lparr>in_flight := in_flight us @ [task]\<rparr>)"

definition unlimited_done :: "nat \<Rightarrow> unlimitedSender \<Rightarrow> unlimitedSender" where
  "unlimited_done task us = us\<lparr>in_flight := remove1 task (in_flight us), landed := landed us @ [task]\<rparr>"

definition unlimited_Stop_returns :: "unlimitedSender \<Rightarrow> bool" where
  "unlimited_Stop_returns us \<longleftrightarrow> in_flight us = []"

datatype sender = Limited WorkerPool | Unlimited unlimitedSender

text \<open>\<open>chan_limit\<close> is the largest channel the platform can allocate.\<close>

definition NewMetricsSender :: "nat \<Rightarrow> int64 \<Rightarrow> int64 \<Rightarrow> sender outcome" where
  "NewMetricsSender chan_limit n cap =
     (if sint n \<le> 0 then Return (Unlimited newUnlimitedSender)
      else if sint cap < 0 \<or> int chan_limit < sint cap then Panic ''makechan: size out of range''
      else Return (Limited (Start (NewWorkerPool (nat (sint n)) (nat (sint cap))))))"

definition sender_Send :: "submit_case \<Rightarrow> nat \<Rightarrow> sender \<Rightarrow> goerr option \<times> sender" where
  "sender_Send k task s =
     (case s of
        Limited wp \<Rightarrow> (case metricsSender_Send k task wp of (res, wp') \<Rightarrow> (res, Limited wp'))
      | Unlimited us \<Rightarrow> (case unlimited_Send task us of (res, us') \<Rightarrow> (res, Unlimited us')))"

text \<open>Neither sender tells the reporter about a failure.\<close>

lemma sender_Send_nil [simp]: "fst (sender_Send k task s) = None"
  by (simp add: sender_Send_def metricsSender_Send_def unlimited_Send_def split: sender.split prod.split)

section \<open>Initialize\<close>

record agent_app =
  app_client :: Client
  app_collector :: metricsCollector
  app_sender :: sender
  app_poll :: duration
  app_report :: duration

definition agent_signer :: "(bytes \<Rightarrow> bytes) \<Rightarrow> AgentFlags \<Rightarrow> Signer_iface option" where
  "agent_signer sha256 cfg =
     (if SecretKey cfg \<noteq> [] then Some (NewSHA256Signer sha256 (SecretKey cfg)) else None)"

definition agent_sender :: "nat \<Rightarrow> AgentFlags \<Rightarrow> sender outcome" where
  "agent_sender chan_limit cfg =
     (if 0 < sint (ag_RateLimit cfg) then NewMetricsSender chan_limit (ag_RateLimit cfg) (ag_RateLimit cfg * 2)
      else NewMetricsSender chan_limit 0 0)"

definition NewMetricsReporter :: "duration \<Rightarrow> duration outcome" where
  "NewMetricsReporter reportInterval = NewTicker reportInterval"

definition Initialize :: "nat \<Rightarrow> (bytes \<Rightarrow> bytes) \<Rightarrow> AgentFlags \<Rightarrow> (goerr + agent_app) outcome" where
  "Initialize chan_limit sha256 cfg =
     (case NewClient (ag_ServerAddr cfg) (agent_signer sha256 cfg) cfg of
        Inl err \<Rightarrow> Return (Inl err)
      | Inr httpClient \<Rightarrow>
          (let pollingInterval = PollingInterval cfg * Second; reportInterval = ReportInterval cfg * Second in
           case NewMetricsCollector pollingInterval of
             Panic msg \<Rightarrow> Panic msg
           | Return mc \<Rightarrow>
               (case agent_sender chan_limit cfg of
                  Panic msg \<Rightarrow> Panic msg
                | Return metricsSender \<Rightarrow>
                    (case NewMetricsReporter reportInterval of
                       Panic msg \<Rightarrow> Panic msg
                     | Return every \<Rightarrow>
                         Return (Inr \<lparr>app_client = httpClient, app_collector = mc, app_sender = metricsSender,
                                      app_poll = pollingInterval, app_report = every\<rparr>)))))"

definition NewAppWithConfig :: "nat \<Rightarrow> (bytes \<Rightarrow> bytes) \<Rightarrow> AgentFlags \<Rightarrow> (goerr + agent_app) outcome" where
  "NewAppWithConfig chan_limit sha256 cfg =
     (case Initialize chan_limit sha256 cfg of
        Panic msg \<Rightarrow> Panic msg
      | Return (Inl err) \<Rightarrow> Return (Inl (WrapError ''failed to initialize app: '' err))
      | Return (Inr app) \<Rightarrow> Return (Inr app))"

lemma sint_mult_int64:
  assumes "- (2 ^ 63) \<le> sint a * sint b" "sint a * sint b < 2 ^ 63"
  shows "sint (a * b :: int64) = sint a * sint b"
proof -
  have "sint (a * b) = signed_take_bit (LENGTH(64) - 1) (sint a * sint b)"
    by (simp only: sint_word_ariths)
  then show ?thesis using assms by (simp add: signed_take_bit_int_eq_self)
qed

text \<open>Seconds that fit into a \<open>time.Duration\<close>, about 292 years.\<close>

lemma seconds_fit:
  assumes "0 \<le> sint (s :: int64)" "sint s \<le> 9223372036"
  shows "sint (s * Second) = sint s * 1000000000"
  using sint_mult_int64 [of s Second] assms by (simp add: Second_def)

lemma NewTicker_seconds:
  assumes "0 \<le> sint (s :: int64)" "sint s \<le> 9223372036"
  shows "NewTicker (s * Second) =
    (if sint s = 0 then Panic ''non-positive interval for NewTicker'' else Return (s * Second))"
  using assms by (auto simp: NewTicker_def seconds_fit)

lemma agent_sender_cases:
  assumes "int chan_limit < 2 ^ 62" "2 * sint (ag_RateLimit cfg) \<le> int chan_limit"
  shows "agent_sender chan_limit cfg =
    Return (if 0 < sint (ag_RateLimit cfg)
            then Limited (started_pool (nat (sint (ag_RateLimit cfg))) (nat (2 * sint (ag_RateLimit cfg))))
            else Unlimited newUnlimitedSender)"
proof -
  have "sint (ag_RateLimit cfg * 2) = sint (ag_RateLimit cfg) * 2" if "0 < sint (ag_RateLimit cfg)"
    using sint_mult_int64 [of "ag_RateLimit cfg" 2] assms that by simp
  with assms show ?thesis
    by (auto simp: agent_sender_def NewMetricsSender_def started_pool_def mult.commute)
qed

text \<open>
  C35. Which configurations start an agent. With intervals of up to 292 years and a rate limit that
  fits the platform, \<open>Initialize\<close> succeeds exactly when both intervals are positive; an interval of
  zero, which a flag or the environment may well give, is a panic and not an error. Then the
  intervals are the configured seconds, and the sender is a pool of \<open>RateLimit\<close> idle workers with
  a queue of twice as many tasks, or the unlimited sender when there is no limit.
\<close>

theorem agent_starts_iff:
  assumes poll: "0 \<le> sint (PollingInterval cfg)" "sint (PollingInterval cfg) \<le> 9223372036"
    and report: "0 \<le> sint (ReportInterval cfg)" "sint (ReportInterval cfg) \<le> 9223372036"
    and limit: "int chan_limit < 2 ^ 62" "2 * sint (ag_RateLimit cfg) \<le> int chan_limit"
  shows "case NewAppWithConfig chan_limit sha256 cfg of
      Panic msg \<Rightarrow> sint (PollingInterval cfg) = 0 \<or> sint (ReportInterval cfg) = 0
    | Return (Inl err) \<Rightarrow> False
    | Return (Inr app) \<Rightarrow>
        0 < sint (PollingInterval cfg) \<and> 0 < sint (ReportInterval cfg)
        \<and> sint (app_poll app) = sint (PollingInterval cfg) * 1000000000
        \<and> sint (app_report app) = sint (ReportInterval cfg) * 1000000000
        \<and> baseURL (app_client app) = normalizeURL (ag_ServerAddr cfg)
        \<and> app_sender app =
            (if 0 < sint (ag_RateLimit cfg)
             then Limited (started_pool (nat (sint (ag_RateLimit cfg))) (nat (2 * sint (ag_RateLimit cfg))))
             else Unlimited newUnlimitedSender)"
proof -
  note tickers = NewTicker_seconds [OF poll] NewTicker_seconds [OF report]
  show ?thesis
    unfolding NewAppWithConfig_def Initialize_def NewMetricsReporter_def NewMetricsCollector_def tickers Let_def
      agent_sender_cases [OF limit]
    using poll report seconds_fit [OF poll] seconds_fit [OF report]
    by (simp add: NewClient_def NewRequestProcessor_def)
qed

definition eager_agent :: AgentFlags where
  "eager_agent = (setDefaultAgentFlag zero_AgentFlags)\<lparr>ag_RateLimit := 2\<rparr>"

theorem agent_starts_iff_witness:
  "\<exists>app. NewAppWithConfig 1024 rev eager_agent = Return (Inr app) \<and> app_sender app = Limited (started_pool 2 4)
     \<and> sint (app_report app) = 10000000000"
  using agent_starts_iff [of eager_agent 1024 rev]
  by (simp add: eager_agent_def setDefaultAgentFlag_def zero_AgentFlags_def split: outcome.splits sum.splits)

section \<open>Run and Wait\<close>

text \<open>
  The main goroutine waits for the context, then \<open>Wait\<close> stops the ticker of the reporter, stops the
  sender and waits for the loop of the reporter. A stopped ticker delivers nothing more (Go 1.23 and
  later). \<open>handed\<close> observes the snapshots given to \<open>Send\<close>. A panic ends the process; the relation goes
  on after it, which only adds runs.
\<close>

datatype loop_pc = Looping | Reporting | Exited

datatype main_pc = Running | StoppingSender | Closing | WaitingWorkers | WaitingLoop | Done

record agent_run =
  ctx_done :: bool
  ticking :: bool
  tick :: bool
  loop :: loop_pc
  main :: main_pc
  snd_of :: sender
  handed :: "nat list"

definition Run :: "sender \<Rightarrow> agent_run" where
  "Run s = \<lparr>ctx_done = False, ticking = True, tick = False, loop = Looping, main = Running, snd_of = s, handed = []\<rparr>"

definition send_ready :: "submit_case \<Rightarrow> sender \<Rightarrow> bool" where
  "send_ready k s = (case s of Limited wp \<Rightarrow> submit_ready wp k | Unlimited us \<Rightarrow> True)"

inductive agent_run_step :: "agent_run \<Rightarrow> agent_run \<Rightarrow> bool" where
  tick: "ticking r \<Longrightarrow> agent_run_step r (r\<lparr>tick := True\<rparr>)"
| take_tick: "loop r = Looping \<Longrightarrow> tick r \<Longrightarrow> agent_run_step r (r\<lparr>tick := False, loop := Reporting\<rparr>)"
| hand: "loop r = Reporting \<Longrightarrow> send_ready k (snd_of r) \<Longrightarrow>
     agent_run_step r (r\<lparr>loop := Looping, snd_of := snd (sender_Send k (length (handed r)) (snd_of r)),
                        handed := handed r @ [length (handed r)]\<rparr>)"
| leave: "loop r = Looping \<Longrightarrow> ctx_done r \<Longrightarrow> agent_run_step r (r\<lparr>loop := Exited\<rparr>)"
| signal: "\<not> ctx_done r \<Longrightarrow> agent_run_step r (r\<lparr>ctx_done := True\<rparr>)"
| stop_ticker: "main r = Running \<Longrightarrow> ctx_done r \<Longrightarrow>
     agent_run_step r (r\<lparr>ticking := False, tick := False, main := StoppingSender\<rparr>)"
| unlimited_stopped: "main r = StoppingSender \<Longrightarrow> snd_of r = Unlimited us \<Longrightarrow> unlimited_Stop_returns us \<Longrightarrow>
     agent_run_step r (r\<lparr>main := WaitingLoop\<rparr>)"
| pool_cancelled: "main r = StoppingSender \<Longrightarrow> snd_of r = Limited wp \<Longrightarrow>
     agent_run_step r (r\<lparr>snd_of := Limited (Stop_cancel wp), main := Closing\<rparr>)"
| pool_closed: "main r = Closing \<Longrightarrow> snd_of r = Limited wp \<Longrightarrow>
     agent_run_step r (r\<lparr>snd_of := Limited (Stop_close wp), main := WaitingWorkers\<rparr>)"
| pool_stopped: "main r = WaitingWorkers \<Longrightarrow> snd_of r = Limited wp \<Longrightarrow> all_stopped wp \<Longrightarrow>
     agent_run_step r (r\<lparr>main := WaitingLoop\<rparr>)"
| waited: "main r = WaitingLoop \<Longrightarrow> loop r = Exited \<Longrightarrow> agent_run_step r (r\<lparr>main := Done\<rparr>)"
| worker: "snd_of r = Limited wp \<Longrightarrow> worker_step wp wp' \<Longrightarrow> agent_run_step r (r\<lparr>snd_of := Limited wp'\<rparr>)"
| landed: "snd_of r = Unlimited us \<Longrightarrow> t \<in> set (in_flight us) \<Longrightarrow>
     agent_run_step r (r\<lparr>snd_of := Unlimited (unlimited_done t us)\<rparr>)"

inductive_cases agent_run_stepE: "agent_run_step r r'"

subsection \<open>Invariants\<close>

text \<open>What a phase of the main goroutine knows about the ticker and the pool.\<close>

definition run_inv :: "agent_run \<Rightarrow> bool" where
  "run_inv r \<longleftrightarrow>
     (main r \<noteq> Running \<longrightarrow> ctx_done r \<and> \<not> ticking r \<and> \<not> tick r)
     \<and> (loop r = Exited \<longrightarrow> ctx_done r) \<and> (main r = Done \<longrightarrow> loop r = Exited)
     \<and> (case snd_of r of
          Unlimited us \<Rightarrow> main r \<notin> {Closing, WaitingWorkers}
            \<and> mset (handed r) = mset (in_flight us) + mset (landed us)
            \<and> (main r \<in> {WaitingLoop, Done} \<longrightarrow> length (in_flight us) + (if loop r = Reporting then 1 else 0) \<le> 1)
        | Limited wp \<Rightarrow> (wp_closed wp \<longleftrightarrow> main r \<in> {WaitingWorkers, WaitingLoop, Done})
            \<and> (main r \<in> {WaitingLoop, Done} \<longrightarrow> all_stopped wp))"

lemma run_inv_step: "agent_run_step r r' \<Longrightarrow> run_inv r \<Longrightarrow> run_inv r'"
proof (induction rule: agent_run_step.induct)
  case (hand r k)
  show ?case
  proof (cases "snd_of r")
    case (Limited wp)
    with hand show ?thesis
      by (cases k) (auto simp: run_inv_def send_ready_def submit_ready_def sender_Send_def metricsSender_Send_def
          Submit_def all_stopped_def)
  next
    case (Unlimited us)
    with hand show ?thesis by (auto simp: run_inv_def sender_Send_def unlimited_Send_def)
  qed
next
  case (worker r wp wp')
  have "all_stopped wp'" if "all_stopped wp"
    using worker(2) that by cases (auto simp: all_stopped_def list_all_length)
  with worker worker_step_keeps [OF worker(2)] show ?case by (auto simp: run_inv_def)
next
  case (landed r us t)
  then have "mset (remove1 t (in_flight us)) + {#t#} = mset (in_flight us)" by simp
  with landed show ?case by (auto simp: run_inv_def unlimited_done_def length_remove1)
qed (auto simp: run_inv_def unlimited_Stop_returns_def Stop_cancel_def Stop_close_def split: sender.splits)

definition fresh_sender :: "sender \<Rightarrow> bool" where
  "fresh_sender s \<longleftrightarrow> s = Unlimited newUnlimitedSender \<or> (\<exists>n cap. s = Limited (started_pool n cap))"

lemma run_inv_reachable:
  "agent_run_step\<^sup>*\<^sup>* (Run s) r \<Longrightarrow> fresh_sender s \<Longrightarrow> run_inv r"
proof (induction rule: rtranclp_induct)
  case base
  then show ?case
    by (auto simp: run_inv_def Run_def fresh_sender_def newUnlimitedSender_def started_pool_simps)
next
  case (step r r')
  then show ?case by (blast intro: run_inv_step)
qed

subsection \<open>Wait returns\<close>

text \<open>A bound on the steps that are left once the ticker is stopped: the phases of the main goroutine
  and of the loop, and what the sender still has to do. A loop that is reporting may hand over one more
  snapshot, which costs a queue at most three rounds.\<close>

definition main_left :: "main_pc \<Rightarrow> nat" where
  "main_left p = (case p of Running \<Rightarrow> 5 | StoppingSender \<Rightarrow> 4 | Closing \<Rightarrow> 3 | WaitingWorkers \<Rightarrow> 2 | WaitingLoop \<Rightarrow> 1 | Done \<Rightarrow> 0)"

definition loop_left :: "loop_pc \<Rightarrow> nat" where
  "loop_left p = (case p of Reporting \<Rightarrow> 5 | Looping \<Rightarrow> 1 | Exited \<Rightarrow> 0)"

definition sender_left :: "sender \<Rightarrow> nat" where
  "sender_left s = (case s of Limited wp \<Rightarrow> work_left wp | Unlimited us \<Rightarrow> length (in_flight us))"

definition steps_left :: "agent_run \<Rightarrow> nat" where
  "steps_left r = main_left (main r) + loop_left (loop r) + sender_left (snd_of r)"

lemma Submit_work_left: "work_left (snd (Submit k task wp)) \<le> work_left wp + 3"
  by (cases k) (simp_all add: Submit_def work_left_def)

lemma sender_Send_left: "sender_left (snd (sender_Send k task s)) \<le> sender_left s + 3"
  by (cases s) (simp_all add: sender_Send_def sender_left_def metricsSender_Send_def unlimited_Send_def case_prod_beta
      Submit_work_left)

lemma agent_run_step_left:
  "agent_run_step r r' \<Longrightarrow> main r \<noteq> Running \<Longrightarrow> run_inv r \<Longrightarrow> steps_left r' < steps_left r \<and> main r' \<noteq> Running"
proof (induction rule: agent_run_step.induct)
  case (hand r k)
  then show ?case
    using sender_Send_left [of k "length (handed r)" "snd_of r"] by (simp add: steps_left_def loop_left_def)
next
  case (worker r wp wp')
  then show ?case using worker_step_work_left [of wp wp'] by (simp add: steps_left_def sender_left_def)
next
  case (landed r us t)
  then have "length (remove1 t (in_flight us)) < length (in_flight us)"
    using length_pos_if_in_set [of t "in_flight us"] by (simp add: length_remove1)
  with landed show ?case by (simp add: steps_left_def sender_left_def unlimited_done_def)
qed (auto simp: run_inv_def steps_left_def main_left_def loop_left_def sender_left_def Stop_cancel_def Stop_close_def
    work_left_def)

lemma agent_run_steps_left:
  "(agent_run_step ^^ k) r r' \<Longrightarrow> main r \<noteq> Running \<Longrightarrow> run_inv r \<Longrightarrow>
     k + steps_left r' \<le> steps_left r \<and> main r' \<noteq> Running \<and> run_inv r'"
proof (induction k arbitrary: r')
  case (Suc k)
  then obtain u where u: "(agent_run_step ^^ k) r u" "agent_run_step u r'" by auto
  with Suc have ih: "k + steps_left u \<le> steps_left r" "main u \<noteq> Running" "run_inv u" by blast+
  with agent_run_step_left [OF u(2)] run_inv_step [OF u(2)] show ?case by simp
qed simp

lemma some_submit_ready: "\<exists>k. submit_ready wp k"
proof (cases "wp_closed wp")
  case True
  then have "submit_ready wp SendOnClosed" by (simp add: submit_ready_def)
  then show ?thesis ..
next
  case open_chan: False
  then show ?thesis
  proof (cases "length (tasks wp) < queueSize wp")
    case True
    with open_chan have "submit_ready wp Enqueue" by (simp add: submit_ready_def)
    then show ?thesis ..
  next
    case False
    with open_chan have "submit_ready wp (if wp_cancelled wp then ContextDone else QueueFull)"
      by (simp add: submit_ready_def)
    then show ?thesis ..
  qed
qed

lemma stuck_is_done:
  assumes "run_inv r" "main r \<noteq> Running" "\<And>r'. \<not> agent_run_step r r'"
  shows "main r = Done"
proof -
  have ready: "\<exists>k. send_ready k (snd_of r)"
    using some_submit_ready by (cases "snd_of r") (auto simp: send_ready_def)
  have "ctx_done r" using assms(1,2) by (simp add: run_inv_def)
  then have loop: "loop r = Exited"
    using ready assms(3) hand [of r] leave [of r] by (cases "loop r") auto
  show ?thesis
  proof (cases "snd_of r")
    case (Unlimited us)
    then have "in_flight us = []" using assms(3) landed [of r us "hd (in_flight us)"] by (cases "in_flight us") auto
    with Unlimited loop assms show ?thesis
      using unlimited_stopped [of r us] waited [of r]
      by (cases "main r") (auto simp: unlimited_Stop_returns_def run_inv_def)
  next
    case (Limited wp)
    have "all_stopped wp" if "main r = WaitingWorkers"
    proof -
      have "at_rest wp" using assms(3) worker [of r wp] Limited by (auto simp: at_rest_def)
      then show ?thesis
        using assms(1) that Limited at_rest_worker [of wp] by (auto simp: run_inv_def all_stopped_def list_all_length)
    qed
    then show ?thesis
      using Limited loop assms(2,3) pool_cancelled [of r wp] pool_closed [of r wp] pool_stopped [of r wp] waited [of r]
      by (cases "main r") auto
  qed
qed


definition run_state :: "bool \<Rightarrow> bool \<Rightarrow> bool \<Rightarrow> loop_pc \<Rightarrow> main_pc \<Rightarrow> sender \<Rightarrow> nat list \<Rightarrow> agent_run" where
  "run_state c ti tk l m s h =
     \<lparr>ctx_done = c, ticking = ti, tick = tk, loop = l, main = m, snd_of = s, handed = h\<rparr>"

lemma interrupted:
  "agent_run_step\<^sup>*\<^sup>* (Run s) (run_state True False False Reporting StoppingSender s [])"
proof -
  have "agent_run_step (Run s) (run_state False True True Looping Running s [])"
    using agent_run_step.tick [of "Run s"] by (simp add: Run_def run_state_def)
  moreover have "agent_run_step (run_state False True True Looping Running s []) (run_state False True False Reporting Running s [])"
    using take_tick [of "run_state False True True Looping Running s []"] by (simp add: run_state_def)
  moreover have "agent_run_step (run_state False True False Reporting Running s []) (run_state True True False Reporting Running s [])"
    using signal [of "run_state False True False Reporting Running s []"] by (simp add: run_state_def)
  moreover have "agent_run_step (run_state True True False Reporting Running s []) (run_state True False False Reporting StoppingSender s [])"
    using stop_ticker [of "run_state True True False Reporting Running s []"] by (simp add: run_state_def)
  ultimately show ?thesis by (meson rtranclp.rtrancl_into_rtrancl rtranclp.rtrancl_refl)
qed




text \<open>The limited sender: a snapshot handed over after the channel was closed, and one that stays in the
  queue.\<close>

lemma late_submit_panics:
  "\<exists>r wp. agent_run_step\<^sup>*\<^sup>* (Run (Limited (started_pool 1 2))) r \<and> snd_of r = Limited wp \<and> panicked wp"
proof -
  let ?P = "started_pool 1 2"
  let ?a = "run_state True False False Reporting StoppingSender (Limited ?P) []"
  let ?c = "Stop_close (Stop_cancel ?P)"
  have a1: "agent_run_step ?a (run_state True False False Reporting Closing (Limited (Stop_cancel ?P)) [])"
    using pool_cancelled [of ?a ?P] by (simp add: run_state_def)
  moreover have "agent_run_step (run_state True False False Reporting Closing (Limited (Stop_cancel ?P)) [])
      (run_state True False False Reporting WaitingWorkers (Limited ?c) [])"
    using pool_closed [of "run_state True False False Reporting Closing (Limited (Stop_cancel ?P)) []" "Stop_cancel ?P"]
    by (simp add: run_state_def)
  moreover have "agent_run_step (run_state True False False Reporting WaitingWorkers (Limited ?c) [])
      (run_state True False False Looping WaitingWorkers (Limited (?c\<lparr>panicked := True\<rparr>)) [0])"
    using hand [of "run_state True False False Reporting WaitingWorkers (Limited ?c) []" SendOnClosed]
    by (simp add: run_state_def send_ready_def submit_ready_def sender_Send_def metricsSender_Send_def Submit_def Stop_close_def)
  ultimately have reach: "agent_run_step\<^sup>*\<^sup>* (Run (Limited ?P))
      (run_state True False False Looping WaitingWorkers (Limited (?c\<lparr>panicked := True\<rparr>)) [0])"
    using interrupted [of "Limited ?P"] by (meson rtranclp.rtrancl_into_rtrancl)
  moreover have "panicked (?c\<lparr>panicked := True\<rparr>)" by simp
  ultimately show ?thesis
    unfolding run_state_def by (metis agent_run.select_convs(6))
qed

lemma stop_leaves_a_task:
  "\<exists>r wp. agent_run_step\<^sup>*\<^sup>* (Run (Limited (started_pool 1 2))) r \<and> main r = Done \<and> snd_of r = Limited wp
        \<and> tasks wp = [0] \<and> queued wp = [0] \<and> has_run wp = [] \<and> droppedTasks wp = 0"
proof -
  let ?P = "started_pool 1 2"
  let ?w1 = "?P\<lparr>tasks := [0], queued := [0]\<rparr>"
  let ?w2 = "Stop_cancel ?w1"
  let ?w3 = "?w2\<lparr>workers := [Stopped]\<rparr>"
  let ?w4 = "Stop_close ?w3"
  let ?a = "run_state True False False Reporting StoppingSender (Limited ?P) []"
  let ?st = "\<lambda>l m wp. run_state True False False l m (Limited wp) [0]"
  have "agent_run_step ?a (?st Looping StoppingSender ?w1)"
    using hand [of ?a Enqueue]
    by (simp add: run_state_def send_ready_def submit_ready_def sender_Send_def metricsSender_Send_def Submit_def
        started_pool_simps)
  moreover have "agent_run_step (?st Looping StoppingSender ?w1) (?st Looping Closing ?w2)"
    using pool_cancelled [of "?st Looping StoppingSender ?w1" ?w1] by (simp add: run_state_def)
  moreover have "worker_step ?w2 ?w3"
    using stop_cancelled [of 0 ?w2] by (simp add: started_pool_simps Stop_cancel_def)
  then have "agent_run_step (?st Looping Closing ?w2) (?st Looping Closing ?w3)"
    using worker [of "?st Looping Closing ?w2" ?w2 ?w3] by (simp add: run_state_def)
  moreover have "agent_run_step (?st Looping Closing ?w3) (?st Looping WaitingWorkers ?w4)"
    using pool_closed [of "?st Looping Closing ?w3" ?w3] by (simp add: run_state_def)
  moreover have "all_stopped ?w4" by (simp add: all_stopped_def Stop_close_def)
  then have "agent_run_step (?st Looping WaitingWorkers ?w4) (?st Looping WaitingLoop ?w4)"
    using pool_stopped [of "?st Looping WaitingWorkers ?w4" ?w4] by (simp add: run_state_def)
  moreover have "agent_run_step (?st Looping WaitingLoop ?w4) (?st Exited WaitingLoop ?w4)"
    using leave [of "?st Looping WaitingLoop ?w4"] by (simp add: run_state_def)
  moreover have "agent_run_step (?st Exited WaitingLoop ?w4) (?st Exited Done ?w4)"
    using waited [of "?st Exited WaitingLoop ?w4"] by (simp add: run_state_def)
  ultimately have "agent_run_step\<^sup>*\<^sup>* (Run (Limited ?P)) (?st Exited Done ?w4)"
    using interrupted [of "Limited ?P"] by (meson rtranclp.rtrancl_into_rtrancl)
  moreover have "tasks ?w4 = [0] \<and> queued ?w4 = [0] \<and> has_run ?w4 = [] \<and> droppedTasks ?w4 = 0"
    by (simp add: Stop_close_def Stop_cancel_def started_pool_simps)
  ultimately show ?thesis
    by (intro exI [of _ "?st Exited Done ?w4"] exI [of _ ?w4]) (simp add: run_state_def)
qed

text \<open>
  C32. Two hazards of the limited sender, in the order in which the agent really stops. The reporter
  may be handing over a snapshot while \<open>Stop\<close> closes the channel, and then \<open>Submit\<close> panics; and
  \<open>Wait\<close> may return with an accepted snapshot still in the queue, neither sent nor counted as
  dropped.
\<close>

theorem limited_shutdown_hazards:
  "(\<exists>r wp. agent_run_step\<^sup>*\<^sup>* (Run (Limited (started_pool 1 2))) r \<and> snd_of r = Limited wp \<and> panicked wp)
   \<and> (\<exists>r wp. agent_run_step\<^sup>*\<^sup>* (Run (Limited (started_pool 1 2))) r \<and> main r = Done \<and> snd_of r = Limited wp
        \<and> tasks wp = [0] \<and> queued wp = [0] \<and> has_run wp = [] \<and> droppedTasks wp = 0)"
  using late_submit_panics stop_leaves_a_task by blast

end
