(* ===== verification/ConfigParse.thy ===== *)
theory ConfigParse
  imports Config
begin

text \<open>
  Where the configuration comes from (\<open>ParseServerConfig\<close>, \<open>ParseAgentConfig\<close>): defaults, then
  flags, then the environment. The flag library (\<open>pflag\<close>) and the environment library (\<open>env\<close>) are
  parameters: what a flag variable holds after \<open>Parse\<close>, and what \<open>env.Parse\<close> makes of a field
  with a tag. What they document is stated by \<open>flags_documented\<close> and \<open>env_documented\<close>.
\<close>

section \<open>The libraries\<close>

text \<open>The variable of a flag after \<open>Parse\<close>, from the name and the default of its declaration;
  \<open>exit_code\<close>: a flag set made with \<open>ExitOnError\<close> ends the process when parsing fails.\<close>

record pflag =
  StringVarP :: "bytes \<Rightarrow> bytes \<Rightarrow> bytes"
  IntVarP :: "bytes \<Rightarrow> int64 \<Rightarrow> int64"
  BoolVarP :: "bytes \<Rightarrow> bool \<Rightarrow> bool"
  StringArrayVarP :: "bytes \<Rightarrow> bytes list \<Rightarrow> bytes list"
  exit_code :: "nat option"

text \<open>The value of a field after \<open>env.Parse\<close>, from its tag, its \<open>envDefault\<close> and its old value.\<close>

record env_lib =
  env_string :: "bytes \<Rightarrow> bytes option \<Rightarrow> bytes \<Rightarrow> bytes"
  env_int :: "bytes \<Rightarrow> int64 option \<Rightarrow> int64 \<Rightarrow> int64"
  env_bool :: "bytes \<Rightarrow> bool option \<Rightarrow> bool \<Rightarrow> bool"
  env_strings :: "bytes \<Rightarrow> bytes list option \<Rightarrow> bytes list \<Rightarrow> bytes list"

text \<open>The process ends while it parses its flags, or goes on with a result.\<close>

datatype 'a parsed = Exits nat | Parsed 'a

section \<open>The server\<close>

definition parseServerFlag :: "pflag \<Rightarrow> ServerFlags \<Rightarrow> ServerFlags parsed" where
  "parseServerFlag F cfg =
     (case exit_code F of
        Some code \<Rightarrow> Exits code
      | None \<Rightarrow> Parsed (cfg\<lparr>
          ServerAddr := StringVarP F ''address'' '':8080'',
          LogLevel := StringVarP F ''loglevel'' ''info'',
          StoreInterval := IntVarP F ''strIntrvl'' 300,
          FileStoragePath := StringVarP F ''filePath'' ''metrics.json'',
          Restore := BoolVarP F ''restore'' False,
          DatabaseDSN := StringVarP F ''database_dsn'' [],
          SecretKet := StringVarP F [] [],
          RateLimit := IntVarP F ''ratelimit'' 0,
          srv_MaxRetries := IntVarP F ''max-retries'' 3,
          RetryDelays := StringArrayVarP F ''retry-delays'' [''1s'', ''3s'', ''5s''],
          AuditFile := StringVarP F ''audit-file'' [],
          AuditURL := StringVarP F ''audit-url'' []\<rparr>))"

text \<open>The tags of the record; only \<open>LogLevel\<close> has an \<open>envDefault\<close>.\<close>

definition parseServerEnv :: "env_lib \<Rightarrow> ServerFlags \<Rightarrow> ServerFlags" where
  "parseServerEnv E cfg =
     cfg\<lparr>ServerAddr := env_string E ''ADDRESS'' None (ServerAddr cfg),
         LogLevel := env_string E ''LOGLEVEL'' (Some ''info'') (LogLevel cfg),
         StoreInterval := env_int E ''STORE_INTERVAL'' None (StoreInterval cfg),
         FileStoragePath := env_string E ''FILE_STORAGE_PATH'' None (FileStoragePath cfg),
         Restore := env_bool E ''RESTORE'' None (Restore cfg),
         DatabaseDSN := env_string E ''DATABASE_DSN'' None (DatabaseDSN cfg),
         SecretKet := env_string E ''KEY'' None (SecretKet cfg),
         RateLimit := env_int E ''RATE_LIMIT'' None (RateLimit cfg),
         srv_MaxRetries := env_int E ''MAX_RETRIES'' None (srv_MaxRetries cfg),
         RetryDelays := env_strings E ''RETRY_DELAYS'' None (RetryDelays cfg),
         AuditFile := env_string E ''AUDIT_FILE'' None (AuditFile cfg),
         AuditURL := env_string E ''AUDIT_URL'' None (AuditURL cfg)\<rparr>"

definition ParseServerConfig :: "pflag \<Rightarrow> env_lib \<Rightarrow> ServerFlags parsed" where
  "ParseServerConfig F E =
     (case parseServerFlag F (setDefaultServerFlag zero_ServerFlags) of
        Exits code \<Rightarrow> Exits code
      | Parsed cfg \<Rightarrow> Parsed (parseServerEnv E cfg))"

section \<open>The agent\<close>

definition parseFlagsAgent :: "pflag \<Rightarrow> AgentFlags \<Rightarrow> AgentFlags parsed" where
  "parseFlagsAgent F cfg =
     (case exit_code F of
        Some code \<Rightarrow> Exits code
      | None \<Rightarrow> Parsed (cfg\<lparr>
          ag_ServerAddr := StringVarP F ''address'' ''http://localhost:8080'',
          ReportInterval := IntVarP F ''report'' 10,
          PollingInterval := IntVarP F ''poll'' 2,
          SecretKey := StringVarP F [] [],
          ag_RateLimit := IntVarP F ''ratelimit'' 0,
          ag_MaxRetries := IntVarP F ''max-retries'' 3,
          ag_RetryDelays := StringArrayVarP F ''retry-delays'' [''1s'', ''3s'', ''5s'']\<rparr>))"

definition parseEnvAgent :: "env_lib \<Rightarrow> AgentFlags \<Rightarrow> AgentFlags" where
  "parseEnvAgent E cfg =
     cfg\<lparr>ag_ServerAddr := env_string E ''ADDRESS'' None (ag_ServerAddr cfg),
         ReportInterval := env_int E ''REPORT_INTERVAL'' None (ReportInterval cfg),
         PollingInterval := env_int E ''POLL_INTERVAL'' None (PollingInterval cfg),
         ag_LogLevel := env_string E ''LOGLEVEL'' (Some ''info'') (ag_LogLevel cfg),
         SecretKey := env_string E ''KEY'' None (SecretKey cfg),
         ag_RateLimit := env_int E ''RATE_LIMIT'' None (ag_RateLimit cfg),
         ag_MaxRetries := env_int E ''MAX_RETRIES'' None (ag_MaxRetries cfg),
         ag_RetryDelays := env_strings E ''RETRY_DELAYS'' None (ag_RetryDelays cfg)\<rparr>"

definition ParseAgentConfig :: "pflag \<Rightarrow> env_lib \<Rightarrow> AgentFlags parsed" where
  "ParseAgentConfig F E =
     (case parseFlagsAgent F (setDefaultAgentFlag zero_AgentFlags) of
        Exits code \<Rightarrow> Exits code
      | Parsed cfg \<Rightarrow> Parsed (parseEnvAgent E cfg))"

section \<open>Precedence\<close>

text \<open>What is given on the command line and in the environment, by name.\<close>

record given =
  g_string :: "bytes \<rightharpoonup> bytes"
  g_int :: "bytes \<rightharpoonup> int64"
  g_bool :: "bytes \<rightharpoonup> bool"
  g_strings :: "bytes \<rightharpoonup> bytes list"

fun first_of :: "'a option list \<Rightarrow> 'a \<Rightarrow> 'a" where
  "first_of [] d = d"
| "first_of (None # vs) d = first_of vs d"
| "first_of (Some v # vs) d = v"

lemma first_of_more:
  "first_of [v, None] d = first_of [v] d" "first_of [v, Some x] d = first_of [v] x"
  "first_of [v] (first_of [u] d) = first_of [v, u] d"
  by (cases v; simp)+

definition flags_documented :: "pflag \<Rightarrow> given \<Rightarrow> bool" where
  "flags_documented F args \<longleftrightarrow> exit_code F = None
     \<and> (\<forall>name d. StringVarP F name d = first_of [g_string args name] d)
     \<and> (\<forall>name d. IntVarP F name d = first_of [g_int args name] d)
     \<and> (\<forall>name d. BoolVarP F name d = first_of [g_bool args name] d)
     \<and> (\<forall>name d. StringArrayVarP F name d = first_of [g_strings args name] d)"

definition env_documented :: "env_lib \<Rightarrow> given \<Rightarrow> bool" where
  "env_documented E vars \<longleftrightarrow>
     (\<forall>tg d old. env_string E tg d old = first_of [g_string vars tg, d] old)
     \<and> (\<forall>tg d old. env_int E tg d old = first_of [g_int vars tg, d] old)
     \<and> (\<forall>tg d old. env_bool E tg d old = first_of [g_bool vars tg, d] old)
     \<and> (\<forall>tg d old. env_strings E tg d old = first_of [g_strings vars tg, d] old)"


lemma agent_config_precedence:
  assumes "flags_documented F args" "env_documented E vars"
  shows "ParseAgentConfig F E = Parsed
    \<lparr>ag_ServerAddr = first_of [g_string vars ''ADDRESS'', g_string args ''address''] ''http://localhost:8080'',
     ReportInterval = first_of [g_int vars ''REPORT_INTERVAL'', g_int args ''report''] 10,
     PollingInterval = first_of [g_int vars ''POLL_INTERVAL'', g_int args ''poll''] 2,
     ag_LogLevel = first_of [g_string vars ''LOGLEVEL''] ''info'',
     SecretKey = first_of [g_string vars ''KEY'', g_string args []] [],
     ag_RateLimit = first_of [g_int vars ''RATE_LIMIT'', g_int args ''ratelimit''] 0,
     ag_MaxRetries = first_of [g_int vars ''MAX_RETRIES'', g_int args ''max-retries''] 3,
     ag_RetryDelays = first_of [g_strings vars ''RETRY_DELAYS'', g_strings args ''retry-delays''] [''1s'', ''3s'', ''5s'']\<rparr>"
proof -
  have F: "exit_code F = None" "StringVarP F n d = first_of [g_string args n] d" "IntVarP F n i = first_of [g_int args n] i"
    "StringArrayVarP F n l = first_of [g_strings args n] l" for n d i b l
    using assms(1) unfolding flags_documented_def by blast+
  have E: "env_string E n None old = first_of [g_string vars n] old" "env_string E n (Some d) old = first_of [g_string vars n] d"
    "env_int E n None i = first_of [g_int vars n] i" "env_strings E n None l = first_of [g_strings vars n] l" for n old d i l
    using assms(2) by (simp_all add: env_documented_def first_of_more)
  show ?thesis
    by (simp add: ParseAgentConfig_def parseFlagsAgent_def parseEnvAgent_def setDefaultAgentFlag_def zero_AgentFlags_def
        F E first_of_more)
qed

definition nothing_given :: given where
  "nothing_given = \<lparr>g_string = Map.empty, g_int = Map.empty, g_bool = Map.empty, g_strings = Map.empty\<rparr>"

definition demo_args :: given where
  "demo_args = nothing_given\<lparr>g_string := [''loglevel'' \<mapsto> ''debug'', ''address'' \<mapsto> '':9090'']\<rparr>"

definition given_flags :: "given \<Rightarrow> pflag" where
  "given_flags args =
     \<lparr>StringVarP = (\<lambda>n d. first_of [g_string args n] d), IntVarP = (\<lambda>n d. first_of [g_int args n] d),
      BoolVarP = (\<lambda>n d. first_of [g_bool args n] d), StringArrayVarP = (\<lambda>n d. first_of [g_strings args n] d),
      exit_code = None\<rparr>"

definition given_env :: "given \<Rightarrow> env_lib" where
  "given_env vars =
     \<lparr>env_string = (\<lambda>n d old. first_of [g_string vars n, d] old), env_int = (\<lambda>n d old. first_of [g_int vars n, d] old),
      env_bool = (\<lambda>n d old. first_of [g_bool vars n, d] old), env_strings = (\<lambda>n d old. first_of [g_strings vars n, d] old)\<rparr>"


end
