(* ===== verification/Logger.thy ===== *)
theory Logger
  imports GoError
begin

text \<open>
  What both programs do before anything else: they print three lines about their build and make
  the logger (\<open>internal/logger\<close>). \<open>ParseAtomicLevel\<close> and \<open>Build\<close> are zap's and given.
\<close>

definition logger_Initialize :: "(bytes \<Rightarrow> goerr option) \<Rightarrow> goerr option \<Rightarrow> bytes \<Rightarrow> goerr option" where
  "logger_Initialize parse_level build level =
     (case parse_level level of
        Some err \<Rightarrow> Some (WrapError ''failed to determine logging level '' err)
      | None \<Rightarrow> (case build of Some err \<Rightarrow> Some (WrapError ''failed to build logger '' err) | None \<Rightarrow> None))"

record build_info =
  buildVersion :: bytes
  buildDate :: bytes
  buildCommit :: bytes

text \<open>The values of a build without linker flags.\<close>

definition unset_build :: build_info where
  "unset_build = \<lparr>buildVersion = ''N/A'', buildDate = ''N/A'', buildCommit = ''N/A''\<rparr>"

definition printBuildInfo :: "build_info \<Rightarrow> bytes" where
  "printBuildInfo b =
     ''Build version: '' @ buildVersion b @ nl
     @ ''Build date: '' @ buildDate b @ nl
     @ ''Build commit: '' @ buildCommit b @ nl"

end
