(* ===== verification/AgentMain.thy ===== *)
theory AgentMain
  imports AgentApp ConfigParse Logger
begin

text \<open>
  The process of the agent (\<open>cmd/agent\<close>): the configuration, the logger, the wiring and the run, in
  the order in which each can end the process. The run itself is the step relation of the theory
  \<open>AgentApp\<close>; \<open>agent_main\<close> leads to its first state.
\<close>

datatype agent_process = AgentExited bytes nat | AgentDied bytes bytes | AgentRuns bytes agent_app agent_run

text \<open>The first component is what was printed. \<open>log.Fatal\<close> exits with code 1; a flag set made with
  \<open>ExitOnError\<close> exits inside \<open>ParseAgentConfig\<close>.\<close>

definition agent_main :: "build_info \<Rightarrow> (bytes \<Rightarrow> goerr option) \<Rightarrow> goerr option \<Rightarrow> pflag \<Rightarrow> env_lib \<Rightarrow> nat
    \<Rightarrow> (bytes \<Rightarrow> bytes) \<Rightarrow> agent_process" where
  "agent_main b parse_level build F E chan_limit sha256 =
     (let out = printBuildInfo b in
      case ParseAgentConfig F E of
        Exits code \<Rightarrow> AgentExited out code
      | Parsed cfg \<Rightarrow>
          (case logger_Initialize parse_level build (ag_LogLevel cfg) of
             Some err \<Rightarrow> AgentExited out 1
           | None \<Rightarrow>
               (case NewAppWithConfig chan_limit sha256 cfg of
                  Panic msg \<Rightarrow> AgentDied out msg
                | Return (Inl err) \<Rightarrow> AgentExited out 1
                | Return (Inr app) \<Rightarrow> AgentRuns out app (Run (app_sender app)))))"

text \<open>Whatever the configuration, an agent that runs starts with a fresh sender.\<close>

lemma NewMetricsSender_fresh: "NewMetricsSender chan_limit n cap = Return s \<Longrightarrow> fresh_sender s"
  by (auto simp: NewMetricsSender_def fresh_sender_def started_pool_def split: if_splits)

lemma NewAppWithConfig_fresh: "NewAppWithConfig chan_limit sha256 cfg = Return (Inr app) \<Longrightarrow> fresh_sender (app_sender app)"
  by (auto simp: NewAppWithConfig_def Initialize_def agent_sender_def Let_def
      split: outcome.splits sum.splits if_splits dest: NewMetricsSender_fresh)

text \<open>So the invariant of the run and the bound on the shutdown hold for every process that got that
  far.\<close>

lemma agent_main_run_inv:
  assumes "agent_main b parse_level build F E chan_limit sha256 = AgentRuns out app r0" "agent_run_step\<^sup>*\<^sup>* r0 r"
  shows "run_inv r"
proof -
  from assms(1) obtain cfg where app: "NewAppWithConfig chan_limit sha256 cfg = Return (Inr app)"
    and r0: "r0 = Run (app_sender app)"
    by (auto simp: agent_main_def Let_def split: parsed.splits option.splits outcome.splits sum.splits)
  show ?thesis
    using run_inv_reachable [OF assms(2) [unfolded r0] NewAppWithConfig_fresh [OF app]] .
qed

lemma agent_main_shutdown_ends:
  assumes "agent_main b parse_level build F E chan_limit sha256 = AgentRuns out app r0" "agent_run_step\<^sup>*\<^sup>* r0 r"
    and "main r \<noteq> Running" "(agent_run_step ^^ k) r r'" "\<And>r''. \<not> agent_run_step r' r''"
  shows "k \<le> steps_left r \<and> main r' = Done"
  using agent_run_steps_left [OF assms(4,3) agent_main_run_inv [OF assms(1,2)]] stuck_is_done [of r'] assms(5) by auto

text \<open>The interval 0, from a flag or from the environment, ends the process with a panic after the
  build lines.\<close>

lemma zero_interval_dies:
  assumes "flags_documented F args" "env_documented E vars"
    and "first_of [g_int vars ''POLL_INTERVAL'', g_int args ''poll''] 2 = 0"
    and "logger_Initialize parse_level build (first_of [g_string vars ''LOGLEVEL''] ''info'') = None"
  shows "agent_main b parse_level build F E chan_limit sha256 =
    AgentDied (printBuildInfo b) ''non-positive interval for NewTicker''"
  by (simp add: agent_main_def Let_def agent_config_precedence [OF assms(1,2)] assms(3,4) NewAppWithConfig_def Initialize_def
      NewClient_def NewRequestProcessor_def NewMetricsCollector_def NewTicker_def)

end
