(* ===== verification/ServerApi.thy ===== *)
theory ServerApi
  imports Handlers
begin

text \<open>
  The HTTP API over the in-memory storage: what a client observes when the handlers, the
  service and the storage work together. The facts about handlers come from the contract of the
  service, which the interpretation of the storage contract on the in-memory storage provides.
\<close>

type_synonym iter_order = "((bytes \<rightharpoonup> int64) \<Rightarrow> bytes list) \<times> ((bytes \<rightharpoonup> float64) \<Rightarrow> bytes list)"

definition mem_service :: "go_std \<Rightarrow> iter_order \<Rightarrow> mem_world app MetricsService" where
  "mem_service std it = NewMetricService (mem_storage std (fst it) (snd it))"

definition table_of :: "mem_world app \<Rightarrow> metric_table" where
  "table_of a = mem_view (store a)"

definition app_ok :: "mem_world app \<Rightarrow> bool" where
  "app_ok a \<longleftrightarrow> mem_ok (store a)"

interpretation api: exact_service "mem_service std it" memory_step "\<lambda>ctx. True" app_ok table_of published
  unfolding mem_service_def app_ok_def [abs_def] table_of_def [abs_def]
  by (rule mem.svc.exact_service_axioms)

text \<open>The in-memory storage accepts every update.\<close>

lemma mem_service_never_fails:
  "\<exists>a'. sv_UpdateGauge (mem_service std it) ctx n v a = (None, a')"
  "\<exists>a'. sv_UpdateCounter (mem_service std it) ctx n d a = (None, a')"
  "\<exists>a'. sv_UpdateMetrics (mem_service std it) ctx ms ip a = (None, a')"
  by (simp_all add: mem_service_def NewMetricService_def svc_defs mem_storage_sel
      mem_UpdateGauge_def mem_UpdateCounter_def mem_UpdateMetrics_def)

section \<open>Single updates\<close>

lemma UpdateMetric_mem_status:
  assumes "UpdateMetric std (mem_service std it) ctx r a = (cs, a')"
  shows "first_status cs = (if url_metric std r = None then StatusBadRequest else StatusOK)"
proof -
  obtain a1 where "sv_UpdateGauge (mem_service std it) ctx (url_param r ''metricName'')
       (the (ParseFloat std (url_param r ''value''))) a = (None, a1)"
    using mem_service_never_fails(1) by blast
  moreover obtain a2 where "sv_UpdateCounter (mem_service std it) ctx (url_param r ''metricName'')
       (projr (ParseInt (url_param r ''value''))) a = (None, a2)"
    using mem_service_never_fails(2) by blast
  ultimately show ?thesis
    using assms by (auto simp: UpdateMetric_def updateMetricByType_def url_metric_def Let_def
        split: if_splits option.splits sum.splits)
qed

lemma UpdatePost_mem_status:
  assumes "UpdatePost std (mem_service std it) ctx r a = (cs, a')"
  shows "first_status cs = StatusOK \<longleftrightarrow> posted_metric std r \<noteq> None"
proof (cases "json_content r \<and> ContentLength r \<noteq> 0 \<and> (\<exists>data. body_metric std r = Inr data)")
  case False
  with assms show ?thesis
    by (auto simp: UpdatePost_def posted_metric_def body_metric_def logAndWriteError_def status_defs
        split: sum.splits if_splits)
next
  case True
  then obtain data where data: "json_content r" "ContentLength r \<noteq> 0" "body_metric std r = Inr data"
    by blast
  obtain a1 where "sv_UpdateGauge (mem_service std it) ctx (ID data) (the (Value data)) a = (None, a1)"
    using mem_service_never_fails(1) by blast
  moreover obtain a2 where
    "sv_UpdateCounter (mem_service std it) ctx (ID data) (the (Delta data)) a = (None, a2)"
    using mem_service_never_fails(2) by blast
  ultimately show ?thesis
    using data assms
    by (auto simp: UpdatePost_def posted_metric_def body_metric_def updateMetricFromJSON_def Let_def
        isValidMetricType_def status_defs split: if_splits option.splits)
qed

text \<open>
  An update by URL tells the truth: \<open>POST /update/{type}/{name}/{value}\<close> answers 200 exactly
  when the type is \<open>gauge\<close> or \<open>counter\<close> and the value parses as a \<open>float64\<close> or an \<open>int64\<close>, and
  then exactly that metric was applied to the table; otherwise it answers 400 and the table, and
  the published events, are unchanged.
\<close>

theorem url_update_tells_the_truth:
  assumes "app_ok a" "UpdateMetric std (mem_service std it) ctx r a = (cs, a')"
  shows "published a' = published a \<and>
    (case url_metric std r of
       Some m \<Rightarrow> status (serve cs) = StatusOK \<and> table_of a' = apply_metric m (table_of a)
     | None \<Rightarrow> status (serve cs) = StatusBadRequest \<and> table_of a' = table_of a)"
  using api.UpdateMetric_outcome [OF assms] UpdateMetric_mem_status [OF assms(2)]
  by (auto simp: status_serve status_defs memory_step_def split: option.splits)

definition sample_app :: "mem_world app" where
  "sample_app = \<lparr>store = \<lparr>mem = sample_mem, files = no_files\<rparr>, clock_ms = 1000, published = []\<rparr>"

definition no_order :: iter_order where
  "no_order = (\<lambda>m. [], \<lambda>m. [])"

definition sample_request :: "bytes \<Rightarrow> bytes \<Rightarrow> bytes \<Rightarrow> request" where
  "sample_request t n v =
     \<lparr>req_method = ''POST'', req_path = ''/update'',
      req_header = [''content-type'' \<mapsto> ''application/json''], req_body = Inr ''doc'',
      ContentLength = 3, RemoteAddr = ''10.0.0.1:4000'',
      url_param = (\<lambda>p. if p = ''metricType'' then t else if p = ''metricName'' then n
                       else if p = ''value'' then v else [])\<rparr>"

lemma sample_app_ok: "app_ok sample_app"
  by (simp add: app_ok_def sample_app_def mem_ok_def sample_mem_def)

lemma sample_table: "table_of sample_app = \<lparr>tab_gauges = [''g'' \<mapsto> f64_one], tab_counters = [''c'' \<mapsto> 5]\<rparr>"
  by (simp add: table_of_def sample_app_def mem_view_def sample_mem_def)

lemma url_update_tells_the_truth_witness:
  "\<exists>cs a'. UpdateMetric (sample_std JNull) (mem_service (sample_std JNull) no_order) background
      (sample_request Counter ''c'' ''37'') sample_app = (cs, a')
    \<and> status (serve cs) = 200 \<and> tab_counters (table_of a') ''c'' = Some 42"
proof -
  let ?r = "sample_request Counter ''c'' ''37''"
  obtain cs a' where run: "UpdateMetric (sample_std JNull) (mem_service (sample_std JNull) no_order)
      background ?r sample_app = (cs, a')" by (metis surj_pair)
  have "ParseInt ''37'' = Inr 37"
    by (simp add: ParseInt_def ParseUint_def digit_value_def)
  then have "url_metric (sample_std JNull) ?r = Some (counter_metric ''c'' 37)"
    by (simp add: url_metric_def sample_request_def Let_def)
  then have "status (serve cs) = StatusOK" "table_of a' = add_counter ''c'' 37 (table_of sample_app)"
    using url_update_tells_the_truth [OF sample_app_ok run] by simp_all
  then have "status (serve cs) = 200" "tab_counters (table_of a') ''c'' = Some 42"
    by (simp_all add: sample_table StatusOK_def)
  with run show ?thesis by blast
qed

text \<open>
  An update by JSON tells the truth: \<open>POST /update/\<close> answers 200 exactly when the content
  type is JSON, the body is a metric whose type is \<open>gauge\<close> or \<open>counter\<close> in any case and whose
  value (or delta) is present, and then exactly that metric was applied; otherwise nothing was.
\<close>

theorem json_update_tells_the_truth:
  assumes "app_ok a" "UpdatePost std (mem_service std it) ctx r a = (cs, a')"
  shows "published a' = published a \<and>
    (case posted_metric std r of
       Some m \<Rightarrow> status (serve cs) = StatusOK \<and> table_of a' = apply_metric m (table_of a)
     | None \<Rightarrow> status (serve cs) \<noteq> StatusOK \<and> table_of a' = table_of a)"
  using api.UpdatePost_outcome [OF assms] UpdatePost_mem_status [OF assms(2)]
  by (auto simp: status_serve memory_step_def split: option.splits)

definition GAUGE_doc :: json where
  "GAUGE_doc = JObj [(''ID'', JStr ''g''), (''type'', JStr ''GAUGE''), (''value'', JNum ''1''), (''x'', JNull)]"

lemma body_GAUGE:
  "posted_metric (sample_std GAUGE_doc) (sample_request t n v) = Some (gauge_metric ''g'' f64_one)"
  by code_simp

lemma json_update_tells_the_truth_witness:
  "\<exists>cs a'. UpdatePost (sample_std GAUGE_doc) (mem_service (sample_std GAUGE_doc) no_order) background
      (sample_request [] [] []) sample_app = (cs, a')
    \<and> status (serve cs) = 200 \<and> tab_gauges (table_of a') ''g'' = Some f64_one"
proof -
  obtain cs a' where run: "UpdatePost (sample_std GAUGE_doc) (mem_service (sample_std GAUGE_doc) no_order)
      background (sample_request [] [] []) sample_app = (cs, a')" by (metis surj_pair)
  have "status (serve cs) = StatusOK" "table_of a' = set_gauge ''g'' f64_one (table_of sample_app)"
    using json_update_tells_the_truth [OF sample_app_ok run] by (simp_all add: body_GAUGE)
  then have "status (serve cs) = 200" "tab_gauges (table_of a') ''g'' = Some f64_one"
    by (simp_all add: StatusOK_def)
  with run show ?thesis by blast
qed

section \<open>Batches\<close>

lemma UpdateMetrics_mem_status:
  assumes "UpdateMetrics std (mem_service std it) ctx r a = (cs, a')"
  shows "first_status cs = StatusOK \<longleftrightarrow> posted_batch std r \<noteq> None"
proof (cases "posted_batch std r")
  case None
  with assms show ?thesis
    by (auto simp: UpdateMetrics_def posted_batch_def logAndWriteError_def status_defs
        split: sum.splits if_splits)
next
  case (Some ms)
  obtain a1 where "sv_UpdateMetrics (mem_service std it) ctx ms (RemoteAddr r) a = (None, a1)"
    using mem_service_never_fails(3) by blast
  with Some assms show ?thesis
    by (auto simp: UpdateMetrics_def posted_batch_def split: sum.splits if_splits)
qed

text \<open>
  A batch request is all or nothing: \<open>POST /updates/\<close> answers 200 exactly when the content
  type is JSON and the whole body decodes as a list of metrics; then the whole batch was applied
  in order and one audit event was published, with the sender's address and the names of the
  batch in order; otherwise neither the table nor the events changed.
\<close>

theorem batch_is_all_or_nothing:
  assumes "app_ok a" "UpdateMetrics std (mem_service std it) ctx r a = (cs, a')"
  shows "case posted_batch std r of
      Some ms \<Rightarrow> status (serve cs) = StatusOK \<and> table_of a' = apply_metrics ms (table_of a)
        \<and> (\<exists>ev. published a' = published a @ [ev] \<and> IPAddr ev = RemoteAddr r
             \<and> slice_elems (EvMetrics ev) = map ID ms)
    | None \<Rightarrow> status (serve cs) \<noteq> StatusOK \<and> table_of a' = table_of a \<and> published a' = published a"
  using api.UpdateMetrics_outcome [OF assms] UpdateMetrics_mem_status [OF assms(2)]
  by (auto simp: status_serve memory_step_def split: option.splits)

lemma content_type_lower: "to_lower ''Content-Type'' = ''content-type''"
  by code_simp

definition batch_doc :: json where
  "batch_doc = JArr
     [JObj [(''id'', JStr ''c''), (''type'', JStr ''counter''), (''delta'', JNum ''2'')],
      JObj [(''id'', JStr ''g''), (''type'', JStr ''GAUGE''), (''value'', JNum ''NaN'')]]"

lemma posted_batch_doc:
  "posted_batch (sample_std batch_doc) (sample_request [] [] []) =
     Some [counter_metric ''c'' 2, (gauge_metric ''g'' f64_NaN)\<lparr>MType := ''GAUGE''\<rparr>]"
proof -
  have "ParseInt ''2'' = Inr 2" by (simp add: ParseInt_def ParseUint_def digit_value_def)
  then show ?thesis
    by (simp add: posted_batch_def json_content_def decode_body_def sample_request_def hget_def
        content_type_lower batch_doc_def unmarshal_field_def zero_Metrics_def counter_metric_def
        gauge_metric_def Counter_def)
qed

lemma batch_is_all_or_nothing_witness:
  "\<exists>cs a' ev. UpdateMetrics (sample_std batch_doc) (mem_service (sample_std batch_doc) no_order) background
      (sample_request [] [] []) sample_app = (cs, a')
    \<and> status (serve cs) = 200 \<and> published a' = [ev] \<and> slice_elems (EvMetrics ev) = [''c'', ''g'']"
proof -
  obtain cs a' where run: "UpdateMetrics (sample_std batch_doc) (mem_service (sample_std batch_doc) no_order)
      background (sample_request [] [] []) sample_app = (cs, a')" by (metis surj_pair)
  have "status (serve cs) = StatusOK"
    and "\<exists>ev. published a' = published sample_app @ [ev] \<and> slice_elems (EvMetrics ev) = [''c'', ''g'']"
    using batch_is_all_or_nothing [OF sample_app_ok run] by (auto simp: posted_batch_doc)
  then have "status (serve cs) = 200" "\<exists>ev. published a' = [ev] \<and> slice_elems (EvMetrics ev) = [''c'', ''g'']"
    by (simp_all add: StatusOK_def sample_app_def)
  with run show ?thesis by blast
qed

text \<open>
  The two JSON endpoints disagree on the case of a type: for a metric whose type is
  \<open>gauge\<close> or \<open>counter\<close> in another case, with its value present, \<open>POST /update/\<close> applies it, but
  a batch \<open>POST /updates/\<close> that holds just this metric answers 200 and drops it.
\<close>

theorem batch_drops_uppercase_type:
  assumes "app_ok a"
    and "posted_metric std r = Some m" "body_metric std r = Inr b" "MType b \<noteq> Gauge" "MType b \<noteq> Counter"
    and "posted_batch std r2 = Some [b]"
    and "UpdatePost std (mem_service std it) ctx r a = (cs, a1)"
    and "UpdateMetrics std (mem_service std it) ctx r2 a = (cs2, a2)"
  shows "status (serve cs) = StatusOK \<and> table_of a1 = apply_metric m (table_of a)
    \<and> status (serve cs2) = StatusOK \<and> table_of a2 = table_of a"
proof -
  have "apply_metrics [b] (table_of a) = table_of a"
    using assms(4,5) by (simp add: apply_metric_def)
  then show ?thesis
    using api.UpdatePost_outcome [OF assms(1,7)] UpdatePost_mem_status [OF assms(7)]
      api.UpdateMetrics_outcome [OF assms(1,8)] UpdateMetrics_mem_status [OF assms(8)] assms(2,6)
    by (auto simp: status_serve memory_step_def split: if_splits)
qed

definition mixed_std :: go_std where
  "mixed_std = (sample_std GAUGE_doc)\<lparr>json_read_first := (\<lambda>b. if b = ''doc'' then Inr GAUGE_doc else Inr (JArr [GAUGE_doc]))\<rparr>"

lemma batch_drops_uppercase_type_witness:
  "\<exists>cs a1 cs2 a2.
     UpdatePost mixed_std (mem_service mixed_std no_order) background
       (sample_request [] [] []) (sample_app\<lparr>store := \<lparr>mem = fresh_memStorage sample_flags, files = no_files\<rparr>\<rparr>) = (cs, a1)
     \<and> UpdateMetrics mixed_std (mem_service mixed_std no_order) background
       ((sample_request [] [] [])\<lparr>req_body := Inr ''list''\<rparr>)
       (sample_app\<lparr>store := \<lparr>mem = fresh_memStorage sample_flags, files = no_files\<rparr>\<rparr>) = (cs2, a2)
     \<and> tab_gauges (table_of a1) ''g'' = Some f64_one \<and> tab_gauges (table_of a2) ''g'' = None"
proof -
  let ?a = "sample_app\<lparr>store := \<lparr>mem = fresh_memStorage sample_flags, files = no_files\<rparr>\<rparr>"
  let ?r = "sample_request [] [] []" and ?r2 = "(sample_request [] [] [])\<lparr>req_body := Inr ''list''\<rparr>"
  let ?b = "(gauge_metric ''g'' f64_one)\<lparr>MType := ''GAUGE''\<rparr>"
  obtain cs a1 where run1: "UpdatePost mixed_std (mem_service mixed_std no_order) background ?r ?a = (cs, a1)"
    by (metis surj_pair)
  obtain cs2 a2 where run2: "UpdateMetrics mixed_std (mem_service mixed_std no_order) background ?r2 ?a = (cs2, a2)"
    by (metis surj_pair)
  have ok: "app_ok ?a" and tab: "table_of ?a = empty_table"
    by (simp_all add: app_ok_def mem_ok_def table_of_def mem_view_def fresh_memStorage_def empty_table_def)
  have "posted_metric mixed_std ?r = Some (gauge_metric ''g'' f64_one)" by code_simp
  moreover have "body_metric mixed_std ?r = Inr ?b" by code_simp
  moreover have "MType ?b \<noteq> Gauge" "MType ?b \<noteq> Counter" by (simp_all add: Gauge_def Counter_def)
  moreover have "posted_batch mixed_std ?r2 = Some [?b]" by code_simp
  ultimately have "table_of a1 = apply_metric (gauge_metric ''g'' f64_one) (table_of ?a)"
    "table_of a2 = table_of ?a"
    using batch_drops_uppercase_type [OF ok _ _ _ _ _ run1 run2] by blast+
  then have "tab_gauges (table_of a1) ''g'' = Some f64_one" "tab_gauges (table_of a2) ''g'' = None"
    by (simp_all add: tab empty_table_def)
  with run1 run2 show ?thesis by blast
qed

section \<open>Reading back\<close>

text \<open>
  C17. Update, then read. After \<open>POST /update/counter/n/v\<close> answered 200, \<open>GET /value/counter/n\<close>
  answers 200 with the decimal text of the old value plus \<open>v\<close> in 64-bit arithmetic; after a
  successful gauge update, \<open>GET /value/gauge/n\<close> answers 200 with the shortest text of the value
  that was parsed.
\<close>

theorem update_then_read:
  assumes "app_ok a" "UpdateMetric std (mem_service std it) ctx r a = (cs, a1)" "status (serve cs) = StatusOK"
    and "GetMetric std (mem_service std it) ctx2 r2 a1 = (cs2, a2)"
    and "url_param r2 ''metricType'' = url_param r ''metricType''"
    and "url_param r2 ''metricName'' = url_param r ''metricName''"
  shows "status (serve cs2) = StatusOK \<and>
    (if url_param r ''metricType'' = Gauge
     then \<exists>v. ParseFloat std (url_param r ''value'') = Some v \<and> body (serve cs2) = FormatFloat std (-1) v
     else \<exists>d. ParseInt (url_param r ''value'') = Inr d \<and> body (serve cs2) =
        FormatInt (case_option 0 id (tab_counters (table_of a) (url_param r ''metricName'')) + d))"
proof -
  obtain m where m: "url_metric std r = Some m" "table_of a1 = apply_metric m (table_of a)" "app_ok a1"
    using api.UpdateMetric_outcome [OF assms(1,2)] assms(3) by (auto simp: status_serve memory_step_def)
  show ?thesis
  proof (cases "url_param r ''metricType'' = Gauge")
    case True
    with m api.GetMetric_gauge [OF m(3) assms(4)] assms(5,6) show ?thesis
      by (auto simp: url_metric_def Let_def)
  next
    case False
    with m(1) have t: "url_param r ''metricType'' = Counter"
      by (auto simp: url_metric_def Let_def split: if_splits)
    with m api.GetMetric_counter [OF m(3) assms(4)] assms(5,6) show ?thesis
      by (auto simp: url_metric_def Let_def split: sum.splits option.splits)
  qed
qed

lemma update_then_read_witness:
  "\<exists>cs a1 cs2 a2. UpdateMetric (sample_std JNull) (mem_service (sample_std JNull) no_order) background
      (sample_request Counter ''c'' ''-7'') sample_app = (cs, a1)
    \<and> GetMetric (sample_std JNull) (mem_service (sample_std JNull) no_order) background
      (sample_request Counter ''c'' []) a1 = (cs2, a2)
    \<and> status (serve cs2) = 200 \<and> body (serve cs2) = ''-2''"
proof -
  let ?r = "sample_request Counter ''c'' ''-7''" and ?r2 = "sample_request Counter ''c'' []"
  obtain cs a1 where run1: "UpdateMetric (sample_std JNull) (mem_service (sample_std JNull) no_order)
      background ?r sample_app = (cs, a1)" by (metis surj_pair)
  obtain cs2 a2 where run2: "GetMetric (sample_std JNull) (mem_service (sample_std JNull) no_order)
      background ?r2 a1 = (cs2, a2)" by (metis surj_pair)
  have p: "ParseInt ''-7'' = Inr (-7)" by (simp add: ParseInt_def ParseUint_def digit_value_def)
  have "first_status cs = StatusOK"
    using UpdateMetric_mem_status [OF run1] p by (simp add: url_metric_def sample_request_def Let_def)
  then have s: "status (serve cs) = StatusOK" by (simp add: status_serve)
  have "status (serve cs2) = StatusOK" "body (serve cs2) = FormatInt (5 + -7)"
    using update_then_read [OF sample_app_ok run1 s run2] p
    by (simp_all add: sample_request_def sample_table)
  moreover have "FormatInt (5 + -7) = ''-2''" by code_simp
  ultimately have "status (serve cs2) = 200" "body (serve cs2) = ''-2''" by (simp_all add: StatusOK_def)
  with run1 run2 show ?thesis by blast
qed

section \<open>A gauge without a JSON form\<close>

text \<open>
  Asking by JSON for a gauge that is \<open>NaN\<close> or infinite answers 200 with the text of an
  error: the status line is sent before the encoder is tried, so the 500 of the error path is
  ignored and only its message reaches the body.
\<close>

theorem nonfinite_gauge_json_answer:
  assumes "app_ok a" "json_content r" "body_metric std r = Inr data" "to_lower (MType data) = Gauge"
    and "tab_gauges (table_of a) (ID data) = Some v" "\<not> f64_is_finite v"
    and "SentMetricPost std (mem_service std it) ctx r a = (cs, a')"
  shows "status (serve cs) = StatusOK \<and> body (serve cs) = ''error encoding response'' @ nl"
proof -
  obtain g a1 where get: "sv_GetGauge (mem_service std it) ctx (ID data) a = (g, a1)" by (metis surj_pair)
  with api.svGetGauge_val [OF assms(1) get] assms(5) have "g = Inr v" by simp
  with get assms show ?thesis
    by (auto simp: SentMetricPost_def body_metric_def getMetricForJSONResponse_def isValidMetricType_def
        marshal_metric_def logAndWriteError_def status_serve body_serve status_defs split: sum.splits)
qed

lemma nonfinite_gauge_json_answer_witness:
  "\<exists>cs a'. SentMetricPost (sample_std GAUGE_doc) (mem_service (sample_std GAUGE_doc) no_order) background
      (sample_request [] [] [])
      (sample_app\<lparr>store := \<lparr>mem = sample_mem\<lparr>gauges := [''g'' \<mapsto> f64_NaN]\<rparr>, files = no_files\<rparr>\<rparr>) = (cs, a')
    \<and> status (serve cs) = 200 \<and> body (serve cs) = ''error encoding response'' @ nl"
proof -
  let ?a = "sample_app\<lparr>store := \<lparr>mem = sample_mem\<lparr>gauges := [''g'' \<mapsto> f64_NaN]\<rparr>, files = no_files\<rparr>\<rparr>"
  let ?b = "(gauge_metric ''g'' f64_one)\<lparr>MType := ''GAUGE''\<rparr>"
  obtain cs a' where run: "SentMetricPost (sample_std GAUGE_doc) (mem_service (sample_std GAUGE_doc) no_order)
      background (sample_request [] [] []) ?a = (cs, a')" by (metis surj_pair)
  have ok: "app_ok ?a" by (simp add: app_ok_def mem_ok_def sample_mem_def)
  have "json_content (sample_request [] [] [])" by code_simp
  moreover have "body_metric (sample_std GAUGE_doc) (sample_request [] [] []) = Inr ?b" by code_simp
  moreover have "to_lower (MType ?b) = Gauge" by code_simp
  moreover have "tab_gauges (table_of ?a) (ID ?b) = Some f64_NaN"
    by (simp add: table_of_def mem_view_def)
  ultimately have "status (serve cs) = StatusOK" "body (serve cs) = ''error encoding response'' @ nl"
    using nonfinite_gauge_json_answer [OF ok _ _ _ _ _ run] by simp_all
  with run show ?thesis by (simp add: StatusOK_def)
qed

section \<open>The main page\<close>

text \<open>
  C29. The main page shows the listing as text, not as a list: the template escapes the markup
  that \<open>GetAllMetrics\<close> produces, so between the paragraph tags of the page there is no angle
  bracket at all, while an empty storage gives 404 and \<open>Page not found\<close>.
\<close>

theorem main_page_escapes_listing:
  assumes "map_order (counters (mem w)) (iterc (counters (mem w)))"
    and "map_order (gauges (mem w)) (iterg (gauges (mem w)))"
    and "main_page_handler (mem_storage std iterc iterg) ctx r w = (cs, w')"
  shows "if mem_view w = empty_table
    then status (serve cs) = StatusNotFound \<and> body (serve cs) = ''Page not found''
    else status (serve cs) = StatusOK
      \<and> (\<exists>listing. body (serve cs) = page_before @ listing @ page_after
           \<and> CHR ''<'' \<notin> set listing \<and> CHR ''>'' \<notin> set listing
           \<and> listing = html_escape (mem_listing std (iterc (counters (mem w))) (iterg (gauges (mem w))) (mem w)))"
  using assms(3) mem_listing_empty_iff [OF assms(1,2), of std]
  by (auto simp: main_page_handler_def GetMainPage_def mem_storage_sel mem_GetAllMetrics_def Let_def
      mem_view_def empty_table_def status_serve body_serve html_escape_no_markup split: if_splits)

lemma main_page_escapes_listing_witness:
  "\<exists>cs w'. main_page_handler (mem_storage (sample_std JNull) (\<lambda>m. [''c'']) (\<lambda>m. [''g''])) background
      (sample_request [] [] []) \<lparr>mem = sample_mem, files = no_files\<rparr> = (cs, w')
    \<and> status (serve cs) = 200"
proof -
  let ?w = "\<lparr>mem = sample_mem, files = no_files\<rparr>"
  obtain cs w' where run: "main_page_handler (mem_storage (sample_std JNull) (\<lambda>m. [''c'']) (\<lambda>m. [''g'']))
      background (sample_request [] [] []) ?w = (cs, w')" by (metis surj_pair)
  have "map_order (counters (mem ?w)) [''c'']" "map_order (gauges (mem ?w)) [''g'']"
    by (simp_all add: map_order_def sample_mem_def)
  moreover have "mem_view ?w \<noteq> empty_table"
    by (simp add: mem_view_def empty_table_def sample_mem_def)
  ultimately have "status (serve cs) = StatusOK"
    using main_page_escapes_listing [OF _ _ run] by simp
  with run show ?thesis by (simp add: StatusOK_def)
qed

end
