(* ===== verification/DbStorage.thy ===== *)
theory DbStorage
  imports Storage Config
begin

text \<open>
  Package \<open>internal/repository/dbstorage\<close>: the storage in PostgreSQL. The connection pool of
  the driver is third-party code and a parameter: a record \<open>pgx\<close> of the calls the storage makes,
  over a state \<open>'d\<close> of the database and its connections. The SQL texts of the storage are the
  constructors of \<open>sql\<close>; what they do to a table is in the theory \<open>Postgres\<close>.

  Every method but \<open>Ping\<close> and \<open>Close\<close> runs its body in \<open>retry.Do\<close>. The variables that the
  closures share with the method (\<open>value\<close>, \<open>found\<close>, \<open>delta\<close>, \<open>builder\<close>) are threaded through
  the attempts, so what a failed attempt left in them is seen by the next one.
\<close>

section \<open>The driver\<close>

datatype sql =
    UpsertGauge bytes float64
  | UpsertCounter bytes int64
  | BatchGauge bytes float64
  | BatchCounter bytes int64

text \<open>A row of the listing query: \<open>id\<close>, \<open>mtype\<close>, \<open>delta\<close> and \<open>value\<close>. A row that cannot be
  scanned is an error; the error after the last row is that of \<open>rows.Err()\<close>.\<close>

type_synonym scanned_row = "bytes \<times> bytes \<times> int64 option \<times> float64 option"

record 'd pgx =
  pgx_Exec :: "context_t \<Rightarrow> sql \<Rightarrow> 'd operation"
  pgx_QueryGauge :: "context_t \<Rightarrow> bytes \<Rightarrow> 'd \<Rightarrow> (goerr + float64) \<times> 'd"
  pgx_QueryCounter :: "context_t \<Rightarrow> bytes \<Rightarrow> 'd \<Rightarrow> (goerr + int64) \<times> 'd"
  pgx_QueryAll :: "context_t \<Rightarrow> 'd \<Rightarrow> (goerr + (goerr + scanned_row) list \<times> goerr option) \<times> 'd"
  pgx_Begin :: "context_t \<Rightarrow> 'd operation"
  tx_Exec :: "context_t \<Rightarrow> sql \<Rightarrow> 'd operation"
  tx_Commit :: "context_t \<Rightarrow> 'd operation"
  tx_Rollback :: "context_t \<Rightarrow> 'd operation"
  pgx_Ping :: "context_t \<Rightarrow> 'd operation"
  pgx_Close :: "'d \<Rightarrow> 'd"

section \<open>The storage\<close>

text \<open>A nil pool is \<open>None\<close>. Only \<open>Ping\<close> checks for it; the server never builds a storage over a
  nil pool.\<close>

record 'd dbstorage =
  db_pool :: "'d pgx option"
  retryCfg :: retry_config

definition pool :: "'d dbstorage \<Rightarrow> 'd pgx" where
  "pool db = the (db_pool db)"

definition NewDBStorage :: "go_std \<Rightarrow> 'd pgx option \<Rightarrow> ServerFlags \<Rightarrow> goerr + 'd dbstorage" where
  "NewDBStorage std db cfg =
     (case server_GetRetryDelaysAsDuration std cfg of
        Inl err \<Rightarrow> Inl err
      | Inr retryDelays \<Rightarrow>
          Inr \<lparr>db_pool = db,
               retryCfg = \<lparr>MaxRetries = srv_MaxRetries cfg, Delays = Some retryDelays,
                           IsRetryableFn = Some isConnectionError\<rparr>\<rparr>)"

definition db_UpdateGauge :: "'d dbstorage \<Rightarrow> context_t \<Rightarrow> bytes \<Rightarrow> float64 \<Rightarrow> 'd operation" where
  "db_UpdateGauge db ctx name value =
     retry_do ctx (retryCfg db) (\<lambda>d. pgx_Exec (pool db) ctx (UpsertGauge name value) d)"

definition db_UpdateCounter :: "'d dbstorage \<Rightarrow> context_t \<Rightarrow> bytes \<Rightarrow> int64 \<Rightarrow> 'd operation" where
  "db_UpdateCounter db ctx name value =
     retry_do ctx (retryCfg db) (\<lambda>d. pgx_Exec (pool db) ctx (UpsertCounter name value) d)"

subsection \<open>The batch\<close>

fun batch_loop :: "'d pgx \<Rightarrow> context_t \<Rightarrow> Metrics list \<Rightarrow> 'd operation" where
  "batch_loop P ctx [] d = (None, d)"
| "batch_loop P ctx (metric # metrics) d =
     (if MType metric = Gauge then
        (case Value metric of
           None \<Rightarrow> batch_loop P ctx metrics d
         | Some v \<Rightarrow>
             (case tx_Exec P ctx (BatchGauge (ID metric) v) d of
                (Some err, d') \<Rightarrow>
                  (Some (WrapError (''failed to update gauge metric '' @ ID metric @ '': '') err), d')
              | (None, d') \<Rightarrow> batch_loop P ctx metrics d'))
      else if MType metric = Counter then
        (case Delta metric of
           None \<Rightarrow> batch_loop P ctx metrics d
         | Some v \<Rightarrow>
             (case tx_Exec P ctx (BatchCounter (ID metric) v) d of
                (Some err, d') \<Rightarrow>
                  (Some (WrapError (''failed to update counter metric '' @ ID metric @ '': '') err), d')
              | (None, d') \<Rightarrow> batch_loop P ctx metrics d'))
      else batch_loop P ctx metrics d)"

text \<open>One attempt: the deferred \<open>Rollback\<close> runs on every path after a successful \<open>Begin\<close>, and
  its result is dropped.\<close>

definition batch_attempt :: "'d pgx \<Rightarrow> context_t \<Rightarrow> Metrics list \<Rightarrow> 'd operation" where
  "batch_attempt P ctx metrics d =
     (case pgx_Begin P ctx d of
        (Some txErr, d1) \<Rightarrow> (Some txErr, d1)
      | (None, d1) \<Rightarrow>
          (let (result, d2) =
             (case batch_loop P ctx metrics d1 of
                (Some err, d2) \<Rightarrow> (Some err, d2)
              | (None, d2) \<Rightarrow> tx_Commit P ctx d2)
           in (result, snd (tx_Rollback P ctx d2))))"

definition db_UpdateMetrics :: "'d dbstorage \<Rightarrow> context_t \<Rightarrow> Metrics list \<Rightarrow> 'd operation" where
  "db_UpdateMetrics db ctx metrics =
     retry_do ctx (retryCfg db) (batch_attempt (pool db) ctx metrics)"

subsection \<open>Reads\<close>

definition gauge_attempt :: "'d pgx \<Rightarrow> context_t \<Rightarrow> bytes \<Rightarrow> (float64 \<times> bool \<times> 'd) operation" where
  "gauge_attempt P ctx name s =
     (case s of (value, found, d) \<Rightarrow>
        (case pgx_QueryGauge P ctx name d of
           (Inl err, d') \<Rightarrow> (if errors_Is_no_rows err then None else Some err, (value, found, d'))
         | (Inr v, d') \<Rightarrow> (None, (v, True, d'))))"

definition db_GetGauge :: "'d dbstorage \<Rightarrow> context_t \<Rightarrow> bytes \<Rightarrow> 'd \<Rightarrow> (float64 \<times> bool) \<times> 'd" where
  "db_GetGauge db ctx name d =
     (case retry_do ctx (retryCfg db) (gauge_attempt (pool db) ctx name) (0, False, d) of
        (Some err, (value, found, d')) \<Rightarrow> ((0, False), d')
      | (None, (value, found, d')) \<Rightarrow> (if \<not> found then (0, False) else (value, True), d'))"

definition counter_attempt :: "'d pgx \<Rightarrow> context_t \<Rightarrow> bytes \<Rightarrow> (int64 \<times> 'd) operation" where
  "counter_attempt P ctx name s =
     (case s of (delta, d) \<Rightarrow>
        (case pgx_QueryCounter P ctx name d of
           (Inl err, d') \<Rightarrow> (if errors_Is_no_rows err then None else Some err, (delta, d'))
         | (Inr v, d') \<Rightarrow> (None, (v, d'))))"

definition db_GetCounter :: "'d dbstorage \<Rightarrow> context_t \<Rightarrow> bytes \<Rightarrow> 'd \<Rightarrow> (int64 \<times> bool) \<times> 'd" where
  "db_GetCounter db ctx name d =
     (case retry_do ctx (retryCfg db) (counter_attempt (pool db) ctx name) (0, d) of
        (Some err, (delta, d')) \<Rightarrow> ((0, False), d')
      | (None, (delta, d')) \<Rightarrow> ((delta, True), d'))"

subsection \<open>The listing\<close>

definition db_line :: "go_std \<Rightarrow> scanned_row \<Rightarrow> bytes" where
  "db_line std row =
     (case row of (i, mtype, delta, value) \<Rightarrow>
        ''<li>'' @ i @ '' = ''
        @ (case (mtype = ''counter'', delta) of
             (True, Some d) \<Rightarrow> FormatInt d
           | _ \<Rightarrow> (case (mtype = ''gauge'', value) of
                     (True, Some v) \<Rightarrow> FormatFloat std 2 v
                   | _ \<Rightarrow> []))
        @ ''</li>'' @ nl)"

text \<open>The loop over the rows: the error of the row that stopped it, and the builder.\<close>

fun rows_loop :: "go_std \<Rightarrow> (goerr + scanned_row) list \<Rightarrow> bytes \<Rightarrow> goerr option \<times> bytes" where
  "rows_loop std [] builder = (None, builder)"
| "rows_loop std (Inl err # rows) builder = (Some (WrapError ''failed to scan metric row: '' err), builder)"
| "rows_loop std (Inr row # rows) builder = rows_loop std rows (builder @ db_line std row)"

definition listing_attempt :: "go_std \<Rightarrow> 'd pgx \<Rightarrow> context_t \<Rightarrow> (bytes \<times> 'd) operation" where
  "listing_attempt std P ctx s =
     (case s of (builder, d) \<Rightarrow>
        (case pgx_QueryAll P ctx d of
           (Inl err, d') \<Rightarrow> (Some err, (builder, d'))
         | (Inr (rows, rows_err), d') \<Rightarrow>
             (case rows_loop std rows (builder @ ''<ul>'' @ nl) of
                (Some err, b) \<Rightarrow> (Some err, (b, d'))
              | (None, b) \<Rightarrow>
                  (case rows_err of
                     Some err \<Rightarrow> (Some (WrapError ''row iteration error: '' err), (b, d'))
                   | None \<Rightarrow>
                       if rows = [] then (Some (ErrorString ''no metrics found''), (b, d'))
                       else (None, (b @ ''</ul>'' @ nl, d'))))))"

definition db_GetAllMetrics :: "go_std \<Rightarrow> 'd dbstorage \<Rightarrow> context_t \<Rightarrow> 'd \<Rightarrow> (goerr + bytes) \<times> 'd" where
  "db_GetAllMetrics std db ctx d =
     (case retry_do ctx (retryCfg db) (listing_attempt std (pool db) ctx) ([], d) of
        (Some err, (builder, d')) \<Rightarrow> (Inl err, d')
      | (None, (builder, d')) \<Rightarrow> (Inr builder, d'))"

subsection \<open>Ping, Close and the method table\<close>

definition db_Ping :: "'d dbstorage option \<Rightarrow> context_t \<Rightarrow> 'd operation" where
  "db_Ping self ctx d =
     (case self of
        None \<Rightarrow> (Some (ErrorString ''database not connected''), d)
      | Some db \<Rightarrow>
          (case db_pool db of
             None \<Rightarrow> (Some (ErrorString ''database not connected''), d)
           | Some P \<Rightarrow> pgx_Ping P ctx d))"

definition db_Close :: "'d dbstorage \<Rightarrow> 'd operation" where
  "db_Close db d = (None, pgx_Close (pool db) d)"

definition db_storage :: "go_std \<Rightarrow> 'd dbstorage \<Rightarrow> 'd Storage" where
  "db_storage std db =
     \<lparr>st_UpdateGauge = db_UpdateGauge db, st_UpdateCounter = db_UpdateCounter db,
      st_UpdateMetrics = db_UpdateMetrics db, st_GetGauge = db_GetGauge db,
      st_GetCounter = db_GetCounter db, st_GetAllMetrics = db_GetAllMetrics std db,
      st_Ping = db_Ping (Some db), st_Close = db_Close db\<rparr>"

lemmas db_storage_sel = db_storage_def Storage.simps

end
