(* ===== verification/Observers.thy ===== *)
theory Observers
  imports Services Config Retry "HOL-Library.Multiset"
begin

text \<open>
  Package \<open>internal/observers\<close>: the publisher and the three observers of a processed batch (log,
  audit file, audit URL). \<open>Publish\<close> starts one goroutine per observer, so an event becomes tasks
  that run later, in any order; each holds the lock of its observer for the write or the request,
  which makes it one step.
\<close>

section \<open>The event as JSON\<close>

text \<open>\<open>Timestamp\<close> is left out (\<open>json:"-"\<close>); a nil slice is \<open>null\<close>.\<close>

definition marshal_event :: "MetricProcessedEvent \<Rightarrow> json" where
  "marshal_event ev =
     JObj [(''ts'', JNum (FormatInt (TS ev))),
           (''metrics'', case EvMetrics ev of None \<Rightarrow> JNull | Some ns \<Rightarrow> JArr (map JStr ns)),
           (''ip_address'', JStr (IPAddr ev))]"

section \<open>The audit file\<close>

record FileObserver =
  fo_open :: bool
  fo_path :: bytes

text \<open>Opening for appending creates the file; the file system may refuse it.\<close>

definition os_OpenAppend :: "bytes \<Rightarrow> filesystem \<Rightarrow> goerr option \<times> filesystem" where
  "os_OpenAppend name fs =
     (if name = [] then (Some ErrNotExist, fs)
      else case fs_fault fs name of
        Some e \<Rightarrow> (Some e, fs)
      | None \<Rightarrow> (None, fs\<lparr>fs_file := (fs_file fs)(name \<mapsto>
                   (case fs_file fs name of None \<Rightarrow> [] | Some d \<Rightarrow> d))\<rparr>))"

definition os_Append :: "bytes \<Rightarrow> bytes \<Rightarrow> filesystem \<Rightarrow> goerr option \<times> filesystem" where
  "os_Append name data fs =
     (case fs_fault fs name of
        Some e \<Rightarrow> (Some e, fs)
      | None \<Rightarrow> (None, fs\<lparr>fs_file := (fs_file fs)(name \<mapsto>
                   (case fs_file fs name of None \<Rightarrow> [] | Some d \<Rightarrow> d) @ data)\<rparr>))"

definition NewFileObserver :: "bytes \<Rightarrow> filesystem \<Rightarrow> (goerr + FileObserver) \<times> filesystem" where
  "NewFileObserver filePath fs =
     (case os_OpenAppend filePath fs of
        (Some err, fs') \<Rightarrow> (Inl (WrapError ''failed to open file: '' err), fs')
      | (None, fs') \<Rightarrow> (Inr \<lparr>fo_open = True, fo_path = filePath\<rparr>, fs'))"

definition event_line :: "go_std \<Rightarrow> MetricProcessedEvent \<Rightarrow> bytes" where
  "event_line std ev = json_write std (marshal_event ev) @ nl"

text \<open>Errors are logged; a write to a closed observer (a nil file) fails.\<close>

definition fo_OnMetricProcessed :: "go_std \<Rightarrow> FileObserver \<Rightarrow> MetricProcessedEvent \<Rightarrow> filesystem \<Rightarrow> filesystem" where
  "fo_OnMetricProcessed std f ev fs =
     (if fo_open f then snd (os_Append (fo_path f) (event_line std ev) fs) else fs)"

text \<open>\<open>close_err\<close> is what closing the descriptor returns.\<close>

definition fo_Close :: "goerr option \<Rightarrow> FileObserver \<Rightarrow> goerr option \<times> FileObserver" where
  "fo_Close close_err f =
     (if \<not> fo_open f then (None, f)
      else case close_err of
        Some err \<Rightarrow> (Some (WrapError ''close file: '' err), f)
      | None \<Rightarrow> (None, f\<lparr>fo_open := False\<rparr>))"

section \<open>The audit URL\<close>

text \<open>The transport of \<open>http.Client\<close> is a parameter: the request body goes to a URL, and the
  result is an error or the status of the response. Creating the request fails for a URL that
  does not parse.\<close>

record 'n http_out =
  url_error :: "bytes \<Rightarrow> goerr option"
  http_post :: "bytes \<Rightarrow> bytes \<Rightarrow> 'n \<Rightarrow> (goerr + nat) \<times> 'n"

record HTTPObserver =
  ho_url :: bytes
  ho_retryCfg :: retry_config

definition NewHTTPObserver :: "go_std \<Rightarrow> bytes \<Rightarrow> ServerFlags \<Rightarrow> goerr + HTTPObserver" where
  "NewHTTPObserver std url cfg =
     (case server_GetRetryDelaysAsDuration std cfg of
        Inl err \<Rightarrow> Inl (WrapError ''could not parse retry delays: '' err)
      | Inr retryDelays \<Rightarrow>
          Inr \<lparr>ho_url = url,
               ho_retryCfg = \<lparr>MaxRetries = srv_MaxRetries cfg, Delays = Some retryDelays,
                              IsRetryableFn = Some (\<lambda>err. isNetworkError (Some err))\<rparr>\<rparr>)"

definition audit_attempt :: "'n http_out \<Rightarrow> bytes \<Rightarrow> bytes \<Rightarrow> 'n operation" where
  "audit_attempt H url data n =
     (case url_error H url of
        Some err \<Rightarrow> (Some (WrapError ''failed to create request: '' err), n)
      | None \<Rightarrow>
          (case http_post H url data n of
             (Inl err, n') \<Rightarrow> (Some err, n')
           | (Inr code, n') \<Rightarrow>
               if code \<ge> 500 then (Some (ErrorString (''HTTP '' @ dec_nat code)), n')
               else if code \<ge> 400 then (None, n')
               else (None, n')))"

definition sendEventAsync :: "go_std \<Rightarrow> 'n http_out \<Rightarrow> HTTPObserver \<Rightarrow> MetricProcessedEvent \<Rightarrow> 'n operation" where
  "sendEventAsync std H h ev =
     retry_do background (ho_retryCfg h) (audit_attempt H (ho_url h) (json_write std (marshal_event ev)))"

section \<open>The publisher\<close>

datatype observer = LogObserver | FileObs FileObserver | HttpObs HTTPObserver

type_synonym EventPublisher = "observer list"

definition NewEventPublisher :: EventPublisher where
  "NewEventPublisher = []"

definition Register :: "observer \<Rightarrow> EventPublisher \<Rightarrow> EventPublisher" where
  "Register ob p = p @ [ob]"

text \<open>\<open>Publish\<close> starts \<open>go observer.OnMetricProcessed(event)\<close> for every observer: the tasks.\<close>

definition Publish :: "EventPublisher \<Rightarrow> MetricProcessedEvent \<Rightarrow> (observer \<times> MetricProcessedEvent) list" where
  "Publish p ev = map (\<lambda>ob. (ob, ev)) p"

record 'n audit_world =
  aw_files :: filesystem
  aw_net :: 'n
  aw_log :: "MetricProcessedEvent list"

text \<open>A task when it runs.\<close>

fun run_task :: "go_std \<Rightarrow> 'n http_out \<Rightarrow> observer \<times> MetricProcessedEvent \<Rightarrow> 'n audit_world \<Rightarrow> 'n audit_world" where
  "run_task std H (LogObserver, ev) w = w\<lparr>aw_log := aw_log w @ [ev]\<rparr>"
| "run_task std H (FileObs f, ev) w = w\<lparr>aw_files := fo_OnMetricProcessed std f ev (aw_files w)\<rparr>"
| "run_task std H (HttpObs h, ev) w = w\<lparr>aw_net := snd (sendEventAsync std H h ev (aw_net w))\<rparr>"

fun run_tasks :: "go_std \<Rightarrow> 'n http_out \<Rightarrow> (observer \<times> MetricProcessedEvent) list \<Rightarrow> 'n audit_world \<Rightarrow> 'n audit_world" where
  "run_tasks std H [] w = w"
| "run_tasks std H (t # ts) w = run_tasks std H ts (run_task std H t w)"

section \<open>Properties\<close>

text \<open>The events that the tasks write to the file \<open>path\<close>.\<close>

definition file_events :: "bytes \<Rightarrow> (observer \<times> MetricProcessedEvent) list \<Rightarrow> MetricProcessedEvent list" where
  "file_events path ts =
     List.map_filter (\<lambda>(ob, ev). case ob of FileObs f \<Rightarrow> if fo_open f \<and> fo_path f = path then Some ev else None
        | LogObserver \<Rightarrow> None | HttpObs h \<Rightarrow> None) ts"

lemma file_events_simps [simp]:
  "file_events path [] = []"
  "file_events path ((LogObserver, ev) # ts) = file_events path ts"
  "file_events path ((HttpObs h, ev) # ts) = file_events path ts"
  "file_events path ((FileObs f, ev) # ts) =
     (if fo_open f \<and> fo_path f = path then ev # file_events path ts else file_events path ts)"
  by (simp_all add: file_events_def)

lemma os_Append_fault: "fs_fault (snd (os_Append p d fs)) = fs_fault fs"
  by (simp add: os_Append_def split: option.splits)

lemma fo_fault [simp]: "fs_fault (fo_OnMetricProcessed std f ev fs) = fs_fault fs"
  by (simp add: fo_OnMetricProcessed_def os_Append_fault)

lemma fo_file:
  assumes "fs_fault fs path = None" "fs_file fs path = Some d"
  shows "fs_file (fo_OnMetricProcessed std f ev fs) path =
    Some (if fo_open f \<and> fo_path f = path then d @ event_line std ev else d)"
  using assms by (auto simp: fo_OnMetricProcessed_def os_Append_def split: option.splits)

lemma run_tasks_file:
  "fs_fault (aw_files w) path = None \<Longrightarrow> fs_file (aw_files w) path = Some d \<Longrightarrow>
     fs_file (aw_files (run_tasks std H ts w)) path =
       Some (d @ concat (map (event_line std) (file_events path ts)))"
proof (induction ts arbitrary: w d)
  case Nil
  then show ?case by simp
next
  case (Cons t ts)
  obtain ob ev where t: "t = (ob, ev)" by (cases t)
  show ?case
  proof (cases ob)
    case (FileObs f)
    let ?w = "w\<lparr>aw_files := fo_OnMetricProcessed std f ev (aw_files w)\<rparr>"
    have "fs_fault (aw_files ?w) path = None" using Cons.prems by simp
    from Cons.IH [OF this] fo_file [OF Cons.prems, of std f ev] t FileObs show ?thesis by simp
  qed (use Cons t in simp_all)
qed

lemma file_events_mset: "mset ts = mset us \<Longrightarrow> mset (file_events path ts) = mset (file_events path us)"
  unfolding file_events_def by (rule mset_map_filter_cong)

lemma file_events_Publish:
  "file_events path (Publish p ev) =
     replicate (length (filter (\<lambda>ob. case ob of FileObs f \<Rightarrow> fo_open f \<and> fo_path f = path | LogObserver \<Rightarrow> False | HttpObs h \<Rightarrow> False) p)) ev"
proof (induction p)
  case (Cons ob p)
  then show ?case by (cases ob) (simp_all add: Publish_def)
qed (simp add: Publish_def)

lemma file_events_append: "file_events path (xs @ ys) = file_events path xs @ file_events path ys"
  by (simp add: file_events_def List.map_filter_def)

text \<open>
  Nothing is lost in the audit file: after the tasks of any published events have run, in
  whatever order the scheduler chose, the file has what was in it before, followed by exactly one
  line per published event, in some order, as long as the file can be written.
\<close>

theorem audit_file_complete:
  assumes "filter (\<lambda>ob. case ob of FileObs f \<Rightarrow> fo_open f \<and> fo_path f = path | LogObserver \<Rightarrow> False | HttpObs h \<Rightarrow> False) p
      = [FileObs f]"
    and "mset ts = mset (concat (map (Publish p) evs))"
    and "fs_fault (aw_files w) path = None" "fs_file (aw_files w) path = Some d"
  shows "\<exists>evs'. mset evs' = mset evs \<and>
    fs_file (aw_files (run_tasks std H ts w)) path = Some (d @ concat (map (event_line std) evs'))"
proof -
  have "file_events path (concat (map (Publish p) evs)) = evs"
    using assms(1) by (induction evs) (simp_all add: file_events_append file_events_Publish)
  then have "mset (file_events path ts) = mset evs"
    using file_events_mset [OF assms(2), of path] by simp
  with run_tasks_file [OF assms(3,4), of std H ts] show ?thesis by blast
qed

definition sample_event :: "int64 \<Rightarrow> MetricProcessedEvent" where
  "sample_event t = \<lparr>Timestamp = sint t, TS = t, EvMetrics = Some [''c''], IPAddr = ''10.0.0.1:4000''\<rparr>"

definition audit_observers :: EventPublisher where
  "audit_observers = [LogObserver, FileObs \<lparr>fo_open = True, fo_path = ''audit''\<rparr>]"

definition dead_http :: "nat http_out" where
  "dead_http = \<lparr>url_error = (\<lambda>u. None), http_post = (\<lambda>u b n. (Inr 503, Suc n))\<rparr>"

definition audit_start :: "nat audit_world" where
  "audit_start = \<lparr>aw_files = \<lparr>fs_file = [''audit'' \<mapsto> ''old''], fs_fault = (\<lambda>p. None)\<rparr>, aw_net = 0, aw_log = []\<rparr>"

theorem audit_file_complete_witness:
  "\<exists>evs'. mset evs' = mset [sample_event 1, sample_event 2] \<and>
    fs_file (aw_files (run_tasks (sample_std JNull) dead_http
        (rev (concat (map (Publish audit_observers) [sample_event 1, sample_event 2]))) audit_start)) ''audit''
      = Some (''old'' @ concat (map (event_line (sample_std JNull)) evs'))"
  by (rule audit_file_complete [where p = audit_observers and f = "\<lparr>fo_open = True, fo_path = ''audit''\<rparr>"])
    (simp_all add: audit_observers_def audit_start_def)

text \<open>No network error is recognised in \<open>HTTP 503\<close>: each of the texts that are looked for has a \<open>t\<close>.\<close>

lemma contains_char: "contains s w \<Longrightarrow> c \<in> set w \<Longrightarrow> c \<in> set s"
  by (auto simp: contains_sublist sublist_def)

lemma http_error_not_network: "\<not> isNetworkError (Some (ErrorString (''HTTP '' @ dec_nat n)))"
proof -
  have "digit_value CHR ''t'' = None" by (simp add: digit_value_def)
  then have "CHR ''t'' \<notin> set (dec_nat n)" using dec_nat_digits by blast
  then have no_t: "CHR ''t'' \<notin> set (''HTTP '' @ dec_nat n)" by simp
  have "\<not> contains (''HTTP '' @ dec_nat n) w" if "CHR ''t'' \<in> set w" for w
    using contains_char [OF _ that] no_t by blast
  moreover have "CHR ''t'' \<in> set ''connection refused''" "CHR ''t'' \<in> set ''timeout''" "CHR ''t'' \<in> set ''network''"
    by simp_all
  ultimately show ?thesis
    by (simp only: isNetworkError_def option.case Let_def error_text.simps not_False_eq_True simp_thms)
qed

text \<open>
  A server error of the audit receiver is final: an answer of 500 or above gives the error
  \<open>HTTP 5xx\<close>, which is not a network error, so the event is sent exactly once and dropped, although
  the log line of that branch says that it will be retried.
\<close>

theorem audit_url_no_retry_on_5xx:
  assumes "NewHTTPObserver std url cfg = Inr h" "sint (srv_MaxRetries cfg) < 2 ^ 63 - 1"
    and "url_error H url = None" "http_post H url (json_write std (marshal_event ev)) n = (Inr code, n')" "500 \<le> code"
  shows "sendEventAsync std H h ev n = (Some (ErrorString (''HTTP '' @ dec_nat code)), n')"
proof -
  have h: "ho_url h = url" "MaxRetries (ho_retryCfg h) = srv_MaxRetries cfg"
    "IsRetryableFn (ho_retryCfg h) = Some (\<lambda>err. isNetworkError (Some err))"
    using assms(1) by (auto simp: NewHTTPObserver_def split: sum.splits)
  show ?thesis unfolding sendEventAsync_def
  proof (rule retry_do_final)
    show "retries_bounded (ho_retryCfg h)" using h(2) assms(2) by (simp add: retries_bounded_def)
    show "audit_attempt H (ho_url h) (json_write std (marshal_event ev)) n
        = (Some (ErrorString (''HTTP '' @ dec_nat code)), n')"
      using assms(3-5) h(1) by (simp add: audit_attempt_def)
    show "\<not> retryable_of (ho_retryCfg h) (ErrorString (''HTTP '' @ dec_nat code))"
      using http_error_not_network [of code] h(3) by (simp add: retryable_of_def)
  qed
qed

definition audit_flags :: ServerFlags where
  "audit_flags = zero_ServerFlags\<lparr>srv_MaxRetries := 3, RetryDelays := [''1s'']\<rparr>"

theorem audit_url_no_retry_on_5xx_witness:
  "\<exists>h. NewHTTPObserver (sample_std JNull) ''http://audit'' audit_flags = Inr h
     \<and> snd (sendEventAsync (sample_std JNull) dead_http h (sample_event 1) 0) = 1"
proof -
  obtain h where h: "NewHTTPObserver (sample_std JNull) ''http://audit'' audit_flags = Inr h"
    by (simp add: NewHTTPObserver_def server_GetRetryDelaysAsDuration_def audit_flags_def)
  have "sendEventAsync (sample_std JNull) dead_http h (sample_event 1) 0
      = (Some (ErrorString (''HTTP '' @ dec_nat 503)), Suc 0)"
    by (rule audit_url_no_retry_on_5xx [OF h]) (simp_all add: audit_flags_def dead_http_def)
  with h show ?thesis by simp
qed

end
