(* ===== verification/Limits.thy ===== *)
theory Limits
  imports Http Handlers
begin

text \<open>
  The middlewares that count requests: \<open>RateLimiter\<close> (a buffered channel as a semaphore) and
  \<open>TrackActiveRequests\<close> (a wait group and a channel that is closed at shutdown). Requests run
  concurrently, so each is a step relation over all requests of the server, which are numbered;
  the atomic steps are the channel and wait-group operations of the code.
\<close>

section \<open>RateLimiter\<close>

record limiter =
  maxConcurrent :: int64
  semaphore :: nat

text \<open>\<open>make(chan struct{}, n)\<close> panics for a negative \<open>n\<close>, before any request arrives.\<close>

definition NewRateLimiter :: "int64 \<Rightarrow> limiter outcome" where
  "NewRateLimiter n =
     (if sint n < 0 then Panic ''makechan: size out of range''
      else Return \<lparr>maxConcurrent = n, semaphore = 0\<rparr>)"

datatype admission = PassedBy | Admitted | Rejected

definition limiter_enter :: "limiter \<Rightarrow> admission \<times> limiter" where
  "limiter_enter l =
     (if sint (maxConcurrent l) \<le> 0 then (PassedBy, l)
      else if int (semaphore l) < sint (maxConcurrent l)
      then (Admitted, l\<lparr>semaphore := semaphore l + 1\<rparr>)
      else (Rejected, l))"

definition limiter_leave :: "limiter \<Rightarrow> limiter" where
  "limiter_leave l = l\<lparr>semaphore := semaphore l - 1\<rparr>"

definition TooManyRequests :: "wcall list" where
  "TooManyRequests = http_Error ''Too Many Requests'' StatusTooManyRequests"

text \<open>The middleware for one request, given what the other requests left in the channel.\<close>

definition RateLimiter :: "limiter \<Rightarrow> 's handler \<Rightarrow> 's handler" where
  "RateLimiter l next ctx r s =
     (case limiter_enter l of
        (PassedBy, l') \<Rightarrow> next ctx r s
      | (Admitted, l') \<Rightarrow> next ctx r s
      | (Rejected, l') \<Rightarrow> (TooManyRequests, s))"

text \<open>All requests: those in the handler with a token (\<open>inside\<close>), those in it without one
  (\<open>beside\<close>), and those that were rejected.\<close>

record traffic =
  lim :: limiter
  inside :: "nat list"
  beside :: "nat list"
  rejected :: "nat list"

definition fresh_request :: "nat \<Rightarrow> traffic \<Rightarrow> bool" where
  "fresh_request i t \<longleftrightarrow> i \<notin> set (inside t) \<and> i \<notin> set (beside t) \<and> i \<notin> set (rejected t)"

inductive traffic_step :: "traffic \<Rightarrow> traffic \<Rightarrow> bool" where
  admitted: "fresh_request i t \<Longrightarrow> limiter_enter (lim t) = (Admitted, l) \<Longrightarrow>
     traffic_step t (t\<lparr>lim := l, inside := i # inside t\<rparr>)"
| passed_by: "fresh_request i t \<Longrightarrow> limiter_enter (lim t) = (PassedBy, l) \<Longrightarrow>
     traffic_step t (t\<lparr>lim := l, beside := i # beside t\<rparr>)"
| refused: "fresh_request i t \<Longrightarrow> limiter_enter (lim t) = (Rejected, l) \<Longrightarrow>
     traffic_step t (t\<lparr>lim := l, rejected := i # rejected t\<rparr>)"
| leaves: "i \<in> set (inside t) \<Longrightarrow>
     traffic_step t (t\<lparr>lim := limiter_leave (lim t), inside := remove1 i (inside t)\<rparr>)"
| leaves_beside: "i \<in> set (beside t) \<Longrightarrow>
     traffic_step t (t\<lparr>beside := remove1 i (beside t)\<rparr>)"

inductive_cases traffic_stepE: "traffic_step t t'"

definition quiet :: "int64 \<Rightarrow> traffic" where
  "quiet n = \<lparr>lim = \<lparr>maxConcurrent = n, semaphore = 0\<rparr>, inside = [], beside = [], rejected = []\<rparr>"

text \<open>The channel holds one token for every request inside, and never more than its capacity.\<close>

definition traffic_inv :: "int64 \<Rightarrow> traffic \<Rightarrow> bool" where
  "traffic_inv n t \<longleftrightarrow>
     maxConcurrent (lim t) = n \<and> semaphore (lim t) = length (inside t)
     \<and> (0 < sint n \<longrightarrow> int (length (inside t)) \<le> sint n \<and> beside t = [])
     \<and> (sint n \<le> 0 \<longrightarrow> inside t = [] \<and> rejected t = [])"

lemma traffic_inv_step: "traffic_step t t' \<Longrightarrow> traffic_inv n t \<Longrightarrow> traffic_inv n t'"
  by (induction rule: traffic_step.induct)
    (auto simp: traffic_inv_def limiter_enter_def limiter_leave_def length_remove1 split: if_splits)

lemma traffic_inv_reachable: "traffic_step\<^sup>*\<^sup>* (quiet n) t \<Longrightarrow> traffic_inv n t"
proof (induction rule: rtranclp_induct)
  case base
  then show ?case by (simp add: traffic_inv_def quiet_def)
next
  case (step t t')
  then show ?case by (blast intro: traffic_inv_step)
qed


definition one_inside :: traffic where
  "one_inside = \<lparr>lim = \<lparr>maxConcurrent = 1, semaphore = 1\<rparr>, inside = [0], beside = [], rejected = []\<rparr>"

lemma one_inside_reachable: "traffic_step\<^sup>*\<^sup>* (quiet 1) one_inside"
proof -
  have "traffic_step (quiet 1) ((quiet 1)\<lparr>lim := \<lparr>maxConcurrent = 1, semaphore = 1\<rparr>, inside := 0 # inside (quiet 1)\<rparr>)"
    by (rule admitted) (simp_all add: fresh_request_def quiet_def limiter_enter_def)
  then show ?thesis by (simp add: quiet_def one_inside_def)
qed


section \<open>TrackActiveRequests\<close>

datatype phase = Checked | Running | Finished | TurnedAway

text \<open>\<open>closed\<close>: the shutdown channel is closed; \<open>wg\<close>: the counter of the wait group; \<open>waited\<close>:
  \<open>Wait\<close> of the shutdown has returned.\<close>

record tracker =
  closed :: bool
  wg :: nat
  phase_of :: "nat \<rightharpoonup> phase"
  waited :: bool

definition new_tracker :: tracker where
  "new_tracker = \<lparr>closed = False, wg = 0, phase_of = Map.empty, waited = False\<rparr>"

definition ShuttingDown :: "wcall list" where
  "ShuttingDown = http_Error ''Server is shutting down'' StatusServiceUnavailable"

text \<open>The middleware for one request.\<close>

definition TrackActiveRequests :: "bool \<Rightarrow> 's handler \<Rightarrow> 's handler" where
  "TrackActiveRequests shutdown next ctx r s = (if shutdown then (ShuttingDown, s) else next ctx r s)"

inductive tracker_step :: "tracker \<Rightarrow> tracker \<Rightarrow> bool" where
  check_open: "phase_of t i = None \<Longrightarrow> \<not> closed t \<Longrightarrow>
     tracker_step t (t\<lparr>phase_of := (phase_of t)(i \<mapsto> Checked)\<rparr>)"
| check_closed: "phase_of t i = None \<Longrightarrow> closed t \<Longrightarrow>
     tracker_step t (t\<lparr>phase_of := (phase_of t)(i \<mapsto> TurnedAway)\<rparr>)"
| add: "phase_of t i = Some Checked \<Longrightarrow>
     tracker_step t (t\<lparr>wg := wg t + 1, phase_of := (phase_of t)(i \<mapsto> Running)\<rparr>)"
| done_step: "phase_of t i = Some Running \<Longrightarrow>
     tracker_step t (t\<lparr>wg := wg t - 1, phase_of := (phase_of t)(i \<mapsto> Finished)\<rparr>)"
| shutdown: "tracker_step t (t\<lparr>closed := True\<rparr>)"
| wait_returns: "closed t \<Longrightarrow> wg t = 0 \<Longrightarrow> tracker_step t (t\<lparr>waited := True\<rparr>)"

definition running :: "tracker \<Rightarrow> nat set" where
  "running t = {i. phase_of t i = Some Running}"

definition tracker_inv :: "tracker \<Rightarrow> bool" where
  "tracker_inv t \<longleftrightarrow> finite (running t) \<and> wg t = card (running t) \<and> (waited t \<longrightarrow> closed t)"

lemma running_upd:
  "running (t\<lparr>phase_of := (phase_of t)(i \<mapsto> p)\<rparr>) = (if p = Running then insert i (running t) else running t - {i})"
  "running (t\<lparr>wg := k, phase_of := (phase_of t)(i \<mapsto> p)\<rparr>) = (if p = Running then insert i (running t) else running t - {i})"
  "running (t\<lparr>closed := b\<rparr>) = running t" "running (t\<lparr>waited := b\<rparr>) = running t"
  by (auto simp: running_def)

lemma tracker_inv_step: "tracker_step t t' \<Longrightarrow> tracker_inv t \<Longrightarrow> tracker_inv t'"
proof (induction rule: tracker_step.induct)
  case (check_open t i)
  then have "i \<notin> running t" by (simp add: running_def)
  with check_open show ?case by (simp add: tracker_inv_def running_upd)
next
  case (check_closed t i)
  then have "i \<notin> running t" by (simp add: running_def)
  with check_closed show ?case by (simp add: tracker_inv_def running_upd)
next
  case (add t i)
  then have "i \<notin> running t" by (simp add: running_def)
  with add show ?case by (simp add: tracker_inv_def running_upd)
next
  case (done_step t i)
  then have "i \<in> running t" by (simp add: running_def)
  with done_step show ?case by (simp add: tracker_inv_def running_upd)
qed (simp_all add: tracker_inv_def running_upd)

lemma tracker_inv_reachable: "tracker_step\<^sup>*\<^sup>* new_tracker t \<Longrightarrow> tracker_inv t"
proof (induction rule: rtranclp_induct)
  case base
  then show ?case by (simp add: tracker_inv_def new_tracker_def running_def)
next
  case (step t t')
  then show ?case by (blast intro: tracker_inv_step)
qed

text \<open>After the channel is closed, a request that had not been checked before never runs.\<close>

lemma closed_stays: "tracker_step t t' \<Longrightarrow> closed t \<Longrightarrow> closed t'"
  by (induction rule: tracker_step.induct) simp_all

lemma late_request_step:
  "tracker_step t t' \<Longrightarrow> closed t \<Longrightarrow> phase_of t i \<in> {None, Some TurnedAway} \<Longrightarrow>
     phase_of t' i \<in> {None, Some TurnedAway}"
  by (induction rule: tracker_step.induct) auto

lemma late_request:
  "tracker_step\<^sup>*\<^sup>* t t' \<Longrightarrow> closed t \<Longrightarrow> phase_of t i = None \<Longrightarrow>
     closed t' \<and> phase_of t' i \<in> {None, Some TurnedAway}"
proof (induction rule: rtranclp_induct)
  case base
  then show ?case by simp
next
  case (step u v)
  then show ?case using closed_stays late_request_step by blast
qed

text \<open>
  Graceful shutdown: the counter of the wait group is always the number of requests that
  run, so \<open>Wait\<close> can return only at a moment when none runs; and once the shutdown channel is
  closed, a request that had not passed the check before is answered 503 and never runs.
\<close>

theorem shutdown_waits_for_requests:
  assumes "tracker_step\<^sup>*\<^sup>* new_tracker t"
  shows "wg t = card (running t) \<and> (wg t = 0 \<longleftrightarrow> running t = {})
    \<and> (closed t \<longrightarrow> (\<forall>t' i. tracker_step\<^sup>*\<^sup>* t t' \<longrightarrow> phase_of t i = None \<longrightarrow> i \<notin> running t'))"
proof -
  have "i \<notin> running t'" if "closed t" "tracker_step\<^sup>*\<^sup>* t t'" "phase_of t i = None" for t' i
    using late_request [OF that(2,1,3)] by (auto simp: running_def)
  with tracker_inv_reachable [OF assms] show ?thesis by (auto simp: tracker_inv_def)
qed

definition one_checked :: tracker where
  "one_checked = new_tracker\<lparr>phase_of := [0 \<mapsto> Checked], closed := True\<rparr>"

lemma one_checked_reachable: "tracker_step\<^sup>*\<^sup>* new_tracker one_checked"
proof -
  let ?t = "new_tracker\<lparr>phase_of := (phase_of new_tracker)(0 \<mapsto> Checked)\<rparr>"
  have "tracker_step new_tracker ?t" by (rule check_open) (simp_all add: new_tracker_def)
  moreover have "tracker_step ?t (?t\<lparr>closed := True\<rparr>)" by (rule shutdown)
  moreover have "?t\<lparr>closed := True\<rparr> = one_checked" by (simp add: one_checked_def new_tracker_def)
  ultimately show ?thesis by (metis converse_rtranclp_into_rtranclp rtranclp.rtrancl_refl)
qed

theorem shutdown_waits_for_requests_witness:
  "wg one_checked = 0 \<and> running one_checked = {} \<and> 1 \<notin> running (one_checked\<lparr>phase_of := [0 \<mapsto> Checked, 1 \<mapsto> TurnedAway]\<rparr>)"
proof -
  have "tracker_step one_checked (one_checked\<lparr>phase_of := (phase_of one_checked)(1 \<mapsto> TurnedAway)\<rparr>)"
    by (rule check_closed) (simp_all add: one_checked_def)
  then have "tracker_step\<^sup>*\<^sup>* one_checked (one_checked\<lparr>phase_of := [0 \<mapsto> Checked, 1 \<mapsto> TurnedAway]\<rparr>)"
    by (simp add: one_checked_def r_into_rtranclp)
  with shutdown_waits_for_requests [OF one_checked_reachable] show ?thesis
    by (auto simp: one_checked_def new_tracker_def)
qed

text \<open>
  The check and the counter are two steps, and a request between them is not counted: there
  is a run in which \<open>Wait\<close> has returned, so that the shutdown goes on to close the resources, and
  the request runs in its handler afterwards.
\<close>

theorem shutdown_race:
  "\<exists>t. tracker_step\<^sup>*\<^sup>* new_tracker t \<and> waited t \<and> running t \<noteq> {}"
proof -
  let ?u = "one_checked\<lparr>waited := True\<rparr>"
  let ?v = "?u\<lparr>wg := wg ?u + 1, phase_of := (phase_of ?u)(0 \<mapsto> Running)\<rparr>"
  have "tracker_step one_checked ?u" by (rule wait_returns) (simp_all add: one_checked_def new_tracker_def)
  moreover have "tracker_step ?u ?v" by (rule add) (simp add: one_checked_def)
  ultimately have "tracker_step\<^sup>*\<^sup>* new_tracker ?v"
    using one_checked_reachable by (meson rtranclp.rtrancl_into_rtrancl)
  moreover have "waited ?v" by simp
  moreover have "0 \<in> running ?v" by (simp add: running_def)
  ultimately show ?thesis by blast
qed

end
