(* ===== verification/Server.thy ===== *)
theory Server
  imports ServerApi DbStorage Observers Limits Signer
begin

text \<open>
  Package \<open>internal/server\<close> with \<open>internal/config/db\<close>: the choice of the storage, the observers,
  the router with its middleware chain, and the shutdown. What the database driver, the migration
  tool and the router of \<open>chi\<close> do is a parameter or, for the matching of paths, their documented
  behaviour; the pattern table is the code's.
\<close>

section \<open>The database connection\<close>

record 'd pg_env =
  ParseConfig :: "bytes \<Rightarrow> goerr option"
  ConnectConfig :: "bytes \<Rightarrow> goerr + 'd pgx"
  first_ping :: "goerr option"
  second_ping :: "goerr option"

definition connect :: "'d pg_env \<Rightarrow> bytes \<Rightarrow> goerr + 'd pgx" where
  "connect env dsn =
     (case ParseConfig env dsn of
        Some err \<Rightarrow> Inl (WrapError ''failed to parse DSN: '' err)
      | None \<Rightarrow>
          (case ConnectConfig env dsn of
             Inl err \<Rightarrow> Inl (WrapError ''failed to connect to database: '' err)
           | Inr pl \<Rightarrow>
               (case first_ping env of
                  Some err \<Rightarrow> Inl (WrapError ''database ping failed: '' err)
                | None \<Rightarrow> Inr pl)))"

text \<open>\<open>NewDatabase\<close> never fails: without a connection the pool is nil.\<close>

definition NewDatabase :: "'d pg_env \<Rightarrow> bytes \<Rightarrow> goerr + 'd pgx option" where
  "NewDatabase env dsn = (case connect env dsn of Inl err \<Rightarrow> Inr None | Inr pl \<Rightarrow> Inr (Some pl))"

definition IsConnected :: "'d pg_env \<Rightarrow> 'd pgx option \<Rightarrow> bool" where
  "IsConnected env db = (case db of None \<Rightarrow> False | Some pl \<Rightarrow> second_ping env = None)"

text \<open>\<open>close_pool\<close> is the driver's \<open>Close\<close> of the pool.\<close>

definition Database_Close :: "('d pgx \<Rightarrow> 'w \<Rightarrow> 'w) \<Rightarrow> 'd pgx option \<Rightarrow> 'w \<Rightarrow> 'w" where
  "Database_Close close_pool db w = (case db of None \<Rightarrow> w | Some pl \<Rightarrow> close_pool pl w)"

text \<open>The migrations: \<open>ErrNoChange\<close> of the tool is not an error.\<close>

record migrate_env =
  sql_Open :: "goerr option"
  sql_Ping :: "goerr option"
  WithInstance :: "goerr option"
  NewWithDatabaseInstance :: "goerr option"
  mg_Up :: "goerr option"

definition ErrNoChange :: goerr where
  "ErrNoChange = ErrorString ''no change''"

definition Migrator_Up :: "migrate_env \<Rightarrow> goerr option" where
  "Migrator_Up env =
     (case sql_Open env of
        Some err \<Rightarrow> Some (WrapError ''failed to open sql.DB for migrations: '' err)
      | None \<Rightarrow>
     (case sql_Ping env of
        Some err \<Rightarrow> Some (WrapError ''failed to ping DB for migrations: '' err)
      | None \<Rightarrow>
     (case WithInstance env of
        Some err \<Rightarrow> Some (WrapError ''failed to create postgres migrate driver: '' err)
      | None \<Rightarrow>
     (case NewWithDatabaseInstance env of
        Some err \<Rightarrow> Some (WrapError ''failed to initialize migrate: '' err)
      | None \<Rightarrow>
     (case mg_Up env of
        None \<Rightarrow> None
      | Some err \<Rightarrow> if err \<noteq> ErrNoChange then Some (WrapError ''migrate up failed: '' err) else None)))))"

section \<open>Dependencies\<close>

text \<open>The storage the server runs on. \<open>InMemory None\<close> is the nil interface that \<open>NewMemStorage\<close>
  returns when the file cannot be restored.\<close>

datatype 'd storage_choice =
    InMemory "mem_world option"
  | InDatabase "'d dbstorage"

definition memory_choice :: "go_std \<Rightarrow> ServerFlags \<Rightarrow> filesystem \<Rightarrow> 'd storage_choice outcome" where
  "memory_choice std cfg fs =
     (case NewMemStorage std cfg fs of Panic msg \<Rightarrow> Panic msg | Return w \<Rightarrow> Return (InMemory w))"

text \<open>The result of the migration is only logged.\<close>

definition initStorage :: "go_std \<Rightarrow> 'd pg_env \<Rightarrow> migrate_env \<Rightarrow> ServerFlags \<Rightarrow> filesystem \<Rightarrow> 'd storage_choice outcome" where
  "initStorage std env menv cfg fs =
     (if DatabaseDSN cfg = [] then memory_choice std cfg fs
      else
        (case NewDatabase env (DatabaseDSN cfg) of
           Inl err \<Rightarrow> memory_choice std cfg fs
         | Inr dbase \<Rightarrow>
             if \<not> IsConnected env dbase then memory_choice std cfg fs
             else (let migrated = Migrator_Up menv in
                   case NewDBStorage std dbase cfg of
                     Inl err \<Rightarrow> memory_choice std cfg fs
                   | Inr storage \<Rightarrow> Return (InDatabase storage))))"

datatype closable = NilStorage | StorageRes | FileRes FileObserver | HttpRes HTTPObserver

definition initObservers :: "go_std \<Rightarrow> ServerFlags \<Rightarrow> filesystem \<Rightarrow>
    (goerr + EventPublisher \<times> closable list) \<times> filesystem" where
  "initObservers std cfg fs =
     (let subject = Register LogObserver NewEventPublisher;
          (filed, fs1) =
            (if AuditFile cfg \<noteq> [] then
               (case NewFileObserver (AuditFile cfg) fs of
                  (Inl err, fs') \<Rightarrow> (Inl (WrapError ''file observer: '' err), fs')
                | (Inr ob, fs') \<Rightarrow> (Inr (Register (FileObs ob) subject, [FileRes ob]), fs'))
             else (Inr (subject, []), fs))
      in (case filed of
            Inl err \<Rightarrow> (Inl err, fs1)
          | Inr (subject1, resources) \<Rightarrow>
              if AuditURL cfg \<noteq> [] then
                (case NewHTTPObserver std (AuditURL cfg) cfg of
                   Inl err \<Rightarrow> (Inl (WrapError ''HTTP observer: '' err), fs1)
                 | Inr ob \<Rightarrow> (Inr (Register (HttpObs ob) subject1, resources @ [HttpRes ob]), fs1))
              else (Inr (subject1, resources), fs1)))"

definition storage_resource :: "'d storage_choice \<Rightarrow> closable" where
  "storage_resource c = (case c of InMemory None \<Rightarrow> NilStorage | InMemory (Some w) \<Rightarrow> StorageRes | InDatabase db \<Rightarrow> StorageRes)"

definition initDependencies :: "go_std \<Rightarrow> 'd pg_env \<Rightarrow> migrate_env \<Rightarrow> ServerFlags \<Rightarrow> filesystem \<Rightarrow>
    (goerr + 'd storage_choice \<times> EventPublisher \<times> closable list) outcome" where
  "initDependencies std env menv cfg fs =
     (case initStorage std env menv cfg fs of
        Panic msg \<Rightarrow> Panic msg
      | Return storage \<Rightarrow>
          Return (case initObservers std cfg fs of
             (Inl err, fs') \<Rightarrow> Inl (WrapError ''observers: '' err)
           | (Inr (subject, observerResources), fs') \<Rightarrow>
               Inr (storage, subject, storage_resource storage # observerResources)))"

section \<open>The router\<close>

datatype endpoint =
    EPing | EMain | EUpdate bytes bytes bytes | EUpdatePost | EUpdates
  | EValue bytes bytes | EValuePost | ENotFound | EMethodNotAllowed

definition only :: "bytes \<Rightarrow> bytes \<Rightarrow> endpoint \<Rightarrow> endpoint" where
  "only verb method e = (if method = verb then e else EMethodNotAllowed)"

definition route :: "bytes \<Rightarrow> bytes list \<Rightarrow> endpoint" where
  "route method segs =
     (case segs of
        [] \<Rightarrow> only ''GET'' method EMain
      | [a] \<Rightarrow>
          if a = ''pinghandler'' then only ''GET'' method EPing
          else if a = ''update'' then only ''POST'' method EUpdatePost
          else if a = ''updates'' then only ''POST'' method EUpdates
          else if a = ''value'' then only ''POST'' method EValuePost
          else ENotFound
      | [a, t, n] \<Rightarrow> if a = ''value'' then only ''GET'' method (EValue t n) else ENotFound
      | [a, t, n, v] \<Rightarrow> if a = ''update'' then only ''POST'' method (EUpdate t n v) else ENotFound
      | _ \<Rightarrow> ENotFound)"

text \<open>The segments of a path. A final slash matches like none, because the code mounts its
  routes with \<open>Route\<close> and \<open>"/"\<close>.\<close>

fun split_slash :: "bytes \<Rightarrow> bytes list" where
  "split_slash [] = [[]]"
| "split_slash (c # cs) =
     (if c = CHR ''/'' then [] # split_slash cs
      else (case split_slash cs of [] \<Rightarrow> [[c]] | p # ps \<Rightarrow> (c # p) # ps))"

definition path_segments :: "bytes \<Rightarrow> bytes list" where
  "path_segments path =
     (let segs = (case split_slash path of [] \<Rightarrow> [] | p # ps \<Rightarrow> if p = [] then ps else p # ps)
      in if segs \<noteq> [] \<and> last segs = [] then butlast segs else segs)"

definition with_params :: "bytes \<Rightarrow> bytes \<Rightarrow> bytes \<Rightarrow> request \<Rightarrow> request" where
  "with_params t n v r =
     r\<lparr>url_param := (\<lambda>p. if p = ''metricType'' then t else if p = ''metricName'' then n
                         else if p = ''value'' then v else [])\<rparr>"

definition on_store :: "'s handler \<Rightarrow> 's app handler" where
  "on_store h ctx r a = (case h ctx r (store a) of (cs, s') \<Rightarrow> (cs, a\<lparr>store := s'\<rparr>))"

definition routes :: "go_std \<Rightarrow> 's Storage \<Rightarrow> 's app MetricsService \<Rightarrow> 's app handler" where
  "routes std storage service ctx r a =
     (case route (req_method r) (path_segments (req_path r)) of
        EPing \<Rightarrow> on_store (GetPingDB storage) ctx r a
      | EMain \<Rightarrow> on_store (main_page_handler storage) ctx r a
      | EUpdate t n v \<Rightarrow> UpdateMetric std service ctx (with_params t n v r) a
      | EUpdatePost \<Rightarrow> UpdatePost std service ctx r a
      | EUpdates \<Rightarrow> UpdateMetrics std service ctx r a
      | EValue t n \<Rightarrow> GetMetric std service ctx (with_params t n [] r) a
      | EValuePost \<Rightarrow> SentMetricPost std service ctx r a
      | ENotFound \<Rightarrow> (http_Error ''404 page not found'' StatusNotFound, a)
      | EMethodNotAllowed \<Rightarrow> ([WriteHeader 405], a))"

text \<open>The two loggers call the next handler and log afterwards.\<close>

definition RequestLogger :: "'s handler \<Rightarrow> 's handler" where
  "RequestLogger next = (\<lambda>ctx r s. next ctx r s)"

definition ResponseLogger :: "'s handler \<Rightarrow> 's handler" where
  "ResponseLogger next = (\<lambda>ctx r s. next ctx r s)"

text \<open>The chain for one request, given whether the server is shutting down and what the other
  requests left in the limiter.\<close>

definition createRouter :: "go_std \<Rightarrow> gzip_format \<Rightarrow> (bytes \<Rightarrow> bytes) \<Rightarrow> ServerFlags \<Rightarrow> 's Storage
    \<Rightarrow> bool \<Rightarrow> limiter \<Rightarrow> 's app handler" where
  "createRouter std gz sha256 cfg storage shutdown l =
     (let signerService = (if SecretKet cfg \<noteq> [] then Some (NewSHA256Signer sha256 (SecretKet cfg)) else None);
          metricsService = NewMetricService storage;
          inner = routes std storage metricsService;
          checked = (case signerService of
                       None \<Rightarrow> inner
                     | Some sg \<Rightarrow> HashValidationMiddleware (Some sg) inner)
      in RequestLogger (ResponseLogger (TrackActiveRequests shutdown
           (RateLimiter l (Compress gz Map.empty checked)))))"

section \<open>Shutdown\<close>

text \<open>The resources are closed in the order in which they were made; an error is logged and the
  loop goes on. Calling \<open>Close\<close> on a nil interface panics.\<close>

definition nil_call :: "'a outcome" where
  "nil_call = Panic ''runtime error: invalid memory address or nil pointer dereference''"

fun close_resources :: "(closable \<Rightarrow> 'w operation) \<Rightarrow> closable list \<Rightarrow> 'w \<Rightarrow> (goerr list \<times> 'w) outcome" where
  "close_resources close [] w = Return ([], w)"
| "close_resources close (c # cs) w =
     (if c = NilStorage then nil_call
      else case close c w of
        (res, w') \<Rightarrow>
          (case close_resources close cs w' of
             Panic msg \<Rightarrow> Panic msg
           | Return (errs, w'') \<Rightarrow> Return ((case res of Some e \<Rightarrow> e # errs | None \<Rightarrow> errs), w'')))"

text \<open>\<open>ResourceGroup\<close>, which the server does not use, is a list that grows at its end; \<open>CloseAll\<close>
  stops at the first error instead.\<close>

definition NewResourceGroup :: "closable list" where
  "NewResourceGroup = []"

definition group_Register :: "closable \<Rightarrow> closable list \<Rightarrow> closable list" where
  "group_Register c closers = closers @ [c]"

fun CloseAll :: "(closable \<Rightarrow> 'w operation) \<Rightarrow> closable list \<Rightarrow> 'w operation" where
  "CloseAll close [] w = (None, w)"
| "CloseAll close (c # cs) w =
     (case close c w of (Some err, w') \<Rightarrow> (Some err, w') | (None, w') \<Rightarrow> CloseAll close cs w')"

text \<open>A registered resource is closed last, and only when all before it closed without error.\<close>

lemma CloseAll_Register:
  "CloseAll close (group_Register c cs) w =
     (case CloseAll close cs w of (Some err, w') \<Rightarrow> (Some err, w') | (None, w') \<Rightarrow> close c w')"
  by (induction cs arbitrary: w) (auto simp: group_Register_def split: prod.splits option.splits)

datatype shutdown_event = ChannelClosed | HttpShutdown "goerr option" | AllDone | WaitTimeout

text \<open>After the signal: the channel, the HTTP server (its error is logged), then the active
  requests or ten seconds, then the resources. \<open>in_time\<close> says whether the requests were done.\<close>

definition waitForShutdown :: "goerr option \<Rightarrow> bool \<Rightarrow> (closable \<Rightarrow> 'w operation) \<Rightarrow> closable list \<Rightarrow> 'w
    \<Rightarrow> shutdown_event list \<times> (goerr list \<times> 'w) outcome" where
  "waitForShutdown shutdown_err in_time close resources w =
     ([ChannelClosed, HttpShutdown shutdown_err, if in_time then AllDone else WaitTimeout],
      close_resources close resources w)"

section \<open>Properties of start and shutdown\<close>

lemma memory_choice_Return:
  "memory_choice std cfg fs = Return c \<Longrightarrow> \<exists>w. c = InMemory w \<and> NewMemStorage std cfg fs = Return w"
  by (auto simp: memory_choice_def split: outcome.splits)

text \<open>
  The server runs on the database exactly when a DSN is configured, the connection comes up
  (it parses, connects and answers both pings) and the retry delays parse, even when the migration
  failed; in every other case it falls back to the in-memory storage without an error. The database
  storage has the configured retries, and repeats connection errors only.
\<close>

theorem initStorage_decides:
  assumes "initStorage std env menv cfg fs = Return c"
  shows "(case c of
      InDatabase db \<Rightarrow> DatabaseDSN cfg \<noteq> [] \<and>
        (\<exists>P ds. connect env (DatabaseDSN cfg) = Inr P \<and> second_ping env = None
           \<and> server_GetRetryDelaysAsDuration std cfg = Inr ds \<and> db_pool db = Some P
           \<and> retryCfg db = \<lparr>MaxRetries = srv_MaxRetries cfg, Delays = Some ds, IsRetryableFn = Some isConnectionError\<rparr>)
    | InMemory w \<Rightarrow> NewMemStorage std cfg fs = Return w
        \<and> (DatabaseDSN cfg = [] \<or> (\<exists>e. connect env (DatabaseDSN cfg) = Inl e) \<or> second_ping env \<noteq> None
           \<or> (\<exists>e. server_GetRetryDelaysAsDuration std cfg = Inl e)))"
proof (cases "DatabaseDSN cfg = []")
  case True
  with assms memory_choice_Return show ?thesis by (fastforce simp: initStorage_def)
next
  case False
  show ?thesis
  proof (cases "connect env (DatabaseDSN cfg)")
    case (Inl e)
    with assms False memory_choice_Return show ?thesis
      by (fastforce simp: initStorage_def NewDatabase_def IsConnected_def)
  next
    case (Inr P)
    show ?thesis
    proof (cases "second_ping env = None")
      case False
      with assms Inr \<open>DatabaseDSN cfg \<noteq> []\<close> memory_choice_Return show ?thesis
        by (fastforce simp: initStorage_def NewDatabase_def IsConnected_def)
    next
      case True
      show ?thesis
      proof (cases "server_GetRetryDelaysAsDuration std cfg")
        case (Inl e)
        with assms Inr True False memory_choice_Return show ?thesis
          by (fastforce simp: initStorage_def NewDatabase_def IsConnected_def NewDBStorage_def)
      next
        case (Inr ds)
        with assms \<open>connect env (DatabaseDSN cfg) = Inr P\<close> True False show ?thesis
          by (auto simp: initStorage_def NewDatabase_def IsConnected_def NewDBStorage_def)
      qed
    qed
  qed
qed

definition down_env :: "unit pg_env" where
  "down_env = \<lparr>ParseConfig = (\<lambda>d. None), ConnectConfig = (\<lambda>d. Inl (ErrorString ''connection refused'')),
     first_ping = None, second_ping = None\<rparr>"

definition idle_migration :: migrate_env where
  "idle_migration = \<lparr>sql_Open = None, sql_Ping = None, WithInstance = None, NewWithDatabaseInstance = None, mg_Up = Some ErrNoChange\<rparr>"

definition dsn_flags :: ServerFlags where
  "dsn_flags = zero_ServerFlags\<lparr>DatabaseDSN := ''postgres://db''\<rparr>"

theorem initStorage_decides_witness:
  "\<exists>w. initStorage (sample_std JNull) down_env idle_migration dsn_flags no_files = Return (InMemory (Some w))
     \<and> NewMemStorage (sample_std JNull) dsn_flags no_files = Return (Some w)"
proof -
  have eq: "initStorage (sample_std JNull) down_env idle_migration dsn_flags no_files =
      Return (InMemory (Some \<lparr>mem = fresh_memStorage dsn_flags, files = no_files\<rparr>))"
    by (simp add: initStorage_def NewDatabase_def connect_def down_env_def IsConnected_def dsn_flags_def
        memory_choice_def NewMemStorage_def zero_ServerFlags_def)
  from initStorage_decides [OF eq] eq show ?thesis by simp
qed

text \<open>
  A damaged file stops a restoring server from having a storage, but not from starting: when
  \<open>Restore\<close> is set and the file exists and cannot be read or parsed, \<open>initStorage\<close> returns a nil
  storage without an error, and the shutdown panics when it closes the resources, before any of
  the observers is closed.
\<close>

theorem damaged_file_gives_nil_storage:
  assumes "DatabaseDSN cfg = []" "Restore cfg"
    and "mem_LoadFromFile std (FileStoragePath cfg) \<lparr>mem = fresh_memStorage cfg, files = fs\<rparr> = (Some e, w)"
    and "initObservers std cfg fs = (Inr (subject, observerResources), fs')"
  shows "initDependencies std env menv cfg fs = Return (Inr (InMemory None, subject, NilStorage # observerResources))
    \<and> snd (waitForShutdown serr t close (NilStorage # observerResources) u) = nil_call"
  using assms
  by (simp add: initDependencies_def initStorage_def memory_choice_def NewMemStorage_def storage_resource_def
      waitForShutdown_def Let_def)

definition damaged_std :: go_std where
  "damaged_std = (sample_std JNull)\<lparr>json_read := (\<lambda>t. Inl (ErrorString ''unexpected end of JSON input''))\<rparr>"

definition restore_flags :: ServerFlags where
  "restore_flags = zero_ServerFlags\<lparr>Restore := True, FileStoragePath := ''metrics.json''\<rparr>"

definition damaged_files :: filesystem where
  "damaged_files = no_files\<lparr>fs_file := [''metrics.json'' \<mapsto> ''[{'']\<rparr>"

theorem damaged_file_gives_nil_storage_witness:
  "initDependencies damaged_std down_env idle_migration restore_flags damaged_files =
     Return (Inr (InMemory None, [LogObserver], [NilStorage]))
   \<and> snd (waitForShutdown None True (\<lambda>c w. (None, w)) [NilStorage] ()) = nil_call"
proof -
  have l: "mem_LoadFromFile damaged_std (FileStoragePath restore_flags)
      \<lparr>mem = fresh_memStorage restore_flags, files = damaged_files\<rparr> =
      (Some (WrapError ''failed to unmarshal metrics: '' (ErrorString ''unexpected end of JSON input'')),
       \<lparr>mem = fresh_memStorage restore_flags, files = damaged_files\<rparr>)"
    by (simp add: mem_LoadFromFile_def os_ReadFile_def damaged_files_def no_files_def restore_flags_def damaged_std_def)
  have o1: "initObservers damaged_std restore_flags damaged_files = (Inr ([LogObserver], []), damaged_files)"
    by (simp add: initObservers_def restore_flags_def zero_ServerFlags_def Register_def NewEventPublisher_def)
  have r: "DatabaseDSN restore_flags = []" "Restore restore_flags"
    by (simp_all add: restore_flags_def zero_ServerFlags_def)
  show ?thesis
    by (rule damaged_file_gives_nil_storage [OF r l o1, of down_env idle_migration None True "\<lambda>c w. (None, w)" "()"])
qed

text \<open>The closes that ran, in order, when the world is the list of them.\<close>

definition log_close :: "(closable \<Rightarrow> goerr option) \<Rightarrow> closable \<Rightarrow> closable list operation" where
  "log_close f c w = (f c, w @ [c])"

text \<open>
  At shutdown every resource is closed exactly once, in the order of creation, whatever the
  closes return, and every error is reported; \<open>CloseAll\<close> of a resource group would stop at the
  first error and leave the rest open.
\<close>

theorem shutdown_closes_everything:
  assumes "NilStorage \<notin> set cs"
  shows "close_resources (log_close f) cs w = Return (List.map_filter f cs, w @ cs)
    \<and> snd (CloseAll (log_close f) cs w) =
        w @ takeWhile (\<lambda>c. f c = None) cs @ take 1 (dropWhile (\<lambda>c. f c = None) cs)"
  using assms
proof (induction cs arbitrary: w)
  case Nil
  then show ?case by simp
next
  case (Cons c cs)
  then show ?case
    by (auto simp: log_close_def split: option.splits list.splits)
qed

theorem shutdown_closes_everything_witness:
  "close_resources (log_close (\<lambda>c. if c = StorageRes then Some ErrNotExist else None))
     [StorageRes, FileRes \<lparr>fo_open = True, fo_path = ''audit''\<rparr>] [] =
     Return ([ErrNotExist], [StorageRes, FileRes \<lparr>fo_open = True, fo_path = ''audit''\<rparr>])"
  using shutdown_closes_everything [of "[StorageRes, FileRes \<lparr>fo_open = True, fo_path = ''audit''\<rparr>]"
      "\<lambda>c. if c = StorageRes then Some ErrNotExist else None" "[]"]
  by simp

end
