(* ===== verification/ServerMain.thy ===== *)
theory ServerMain
  imports Server ConfigParse Logger
begin

text \<open>
  The server's run from start to exit: \<open>NewApp\<close>, \<open>Run\<close> and \<open>Close\<close> of \<open>internal/server/server.go\<close>,
  and \<open>main\<close> of \<open>cmd/server\<close> with the goroutine that serves the profiler. What the listeners, the
  logger and the signal do is given. The build lines that \<open>main\<close> prints first are those of the
  agent (\<open>printBuildInfo\<close>) and are left out.
\<close>

section \<open>Run and Close\<close>

record 'd server =
  srv_cfg :: ServerFlags
  srv_storage :: "'d storage_choice option"

definition server_NewApp :: "ServerFlags \<Rightarrow> 'd server" where
  "server_NewApp cfg = \<lparr>srv_cfg = cfg, srv_storage = None\<rparr>"

text \<open>\<open>Run\<close> keeps the storage in a local variable; nothing assigns the field that \<open>Close\<close> looks at.\<close>

definition server_Close :: "('d storage_choice \<Rightarrow> 'w operation) \<Rightarrow> 'd server \<Rightarrow> 'w \<Rightarrow> 'w" where
  "server_Close close s w = (case srv_storage s of None \<Rightarrow> w | Some st \<Rightarrow> snd (close st w))"

datatype run_event = ListenFailed goerr | Shutdown shutdown_event

text \<open>\<open>listen\<close> is the error of \<open>ListenAndServe\<close> before the signal, if any; it is only logged.\<close>

definition server_Run :: "go_std \<Rightarrow> 'd pg_env \<Rightarrow> migrate_env \<Rightarrow> filesystem \<Rightarrow> goerr option \<Rightarrow> goerr option \<Rightarrow> bool
    \<Rightarrow> (closable \<Rightarrow> 'w operation) \<Rightarrow> 'd server \<Rightarrow> 'w \<Rightarrow> (goerr option \<times> run_event list \<times> 'w) outcome" where
  "server_Run std env menv fs listen shutdown_err in_time close s w =
     (case initDependencies std env menv (srv_cfg s) fs of
        Panic msg \<Rightarrow> Panic msg
      | Return (Inl err) \<Rightarrow> Return (Some (WrapError ''failed to init dependencies: '' err), [], w)
      | Return (Inr (storage, subject, resources)) \<Rightarrow>
          (case NewRateLimiter (RateLimit (srv_cfg s)) of
             Panic msg \<Rightarrow> Panic msg
           | Return l \<Rightarrow>
               (case waitForShutdown shutdown_err in_time close resources w of
                  (events, Panic msg) \<Rightarrow> Panic msg
                | (events, Return (errs, w')) \<Rightarrow>
                    Return (None, (case listen of None \<Rightarrow> [] | Some err \<Rightarrow> [ListenFailed err]) @ map Shutdown events, w'))))"

section \<open>main\<close>

text \<open>\<open>Waiting\<close>: everything is shut down, and \<open>main\<close> waits for the goroutine of the profiler.\<close>

datatype 'w process = Exited nat | Died bytes | Waiting 'w | Finished 'w

text \<open>\<open>pprof\<close>: whether the profiler's \<open>ListenAndServe\<close> has returned. It returns only with an error.\<close>

definition server_main :: "(bytes \<Rightarrow> goerr option) \<Rightarrow> goerr option \<Rightarrow> pflag \<Rightarrow> env_lib \<Rightarrow> bool
    \<Rightarrow> (ServerFlags \<Rightarrow> 'w \<Rightarrow> (goerr option \<times> run_event list \<times> 'w) outcome) \<Rightarrow> 'w \<Rightarrow> 'w process" where
  "server_main parse_level build F E pprof run_server w =
     (case ParseServerConfig F E of
        Exits code \<Rightarrow> Exited code
      | Parsed cfg \<Rightarrow>
          (case logger_Initialize parse_level build (LogLevel cfg) of
             Some err \<Rightarrow> Exited 1
           | None \<Rightarrow>
               (case run_server cfg w of
                  Panic msg \<Rightarrow> Died msg
                | Return (Some err, events, w') \<Rightarrow> Exited 1
                | Return (None, events, w') \<Rightarrow> if pprof then Finished w' else Waiting w')))"

section \<open>What comes of it\<close>

text \<open>The deferred \<open>Close\<close> does nothing.\<close>

lemma server_Close_does_nothing: "server_Close close (server_NewApp cfg) w = w"
  by (simp add: server_Close_def server_NewApp_def)

text \<open>A negative rate limit is a panic, after the storage was opened and before the server listens.\<close>

lemma negative_limit_panics:
  assumes "initDependencies std env menv (srv_cfg s) fs = Return (Inr (storage, subject, resources))"
    and "sint (RateLimit (srv_cfg s)) < 0"
  shows "server_Run std env menv fs listen shutdown_err in_time close s w = Panic ''makechan: size out of range''"
  using assms by (simp add: server_Run_def NewRateLimiter_def)

text \<open>A server that cannot listen goes on until the signal, and \<open>Run\<close> still returns nil.\<close>

lemma listen_error_is_not_returned:
  assumes "server_Run std env menv fs None shutdown_err in_time close s w = Return (res, events, w')" "res = None"
  shows "server_Run std env menv fs (Some err) shutdown_err in_time close s w = Return (None, ListenFailed err # events, w')"
  using assms by (auto simp: server_Run_def split: outcome.splits sum.splits prod.splits)



end
