(* ===== verification/MemSaver.thy ===== *)
theory MemSaver
  imports MemStorage
begin

text \<open>
  The goroutine that saves the in-memory storage periodically (\<open>StartPeriodicSave\<close>), together with
  the updates of the handlers and with \<open>Close\<close>, as a step relation. \<open>Close\<close> holds \<open>tickerMu\<close>, which
  the loop of the goroutine does not take, so its three effects (the ticker, the channel \<open>done\<close>, the
  final save) interleave with the loop and with updates, until it has returned (an update that comes
  later, from a request that outlived the shutdown, is not in the file); a save holds the mutex of the
  maps and is one step.
\<close>

section \<open>The loop and Close\<close>

text \<open>\<open>AtSelect\<close>: about to evaluate the operands of the \<open>select\<close>, which reads \<open>m.ticker.C\<close>;
  \<open>Crashed\<close>: that read has met a nil ticker, and the process is gone.\<close>

datatype saver_pc = AtSelect | Blocked | Saving | Left | Crashed

datatype closer_pc = Open | TickerGone | DoneClosed | Finished "goerr option"

record saver_state =
  world :: mem_world
  saver :: saver_pc
  closer :: closer_pc
  pending :: bool

definition saver_start :: "mem_world \<Rightarrow> saver_state" where
  "saver_start w = \<lparr>world = w, saver = AtSelect, closer = Open, pending = False\<rparr>"

definition set_mem :: "(memStorage \<Rightarrow> memStorage) \<Rightarrow> saver_state \<Rightarrow> saver_state" where
  "set_mem f s = s\<lparr>world := (world s)\<lparr>mem := f (mem (world s))\<rparr>\<rparr>"

definition store_path :: "saver_state \<Rightarrow> bytes" where
  "store_path s = FileStoragePath (ms_cfg (mem (world s)))"

text \<open>A save in any of the orders in which Go may iterate over the maps.\<close>

inductive saves :: "go_std \<Rightarrow> saver_state \<Rightarrow> goerr option \<Rightarrow> mem_world \<Rightarrow> bool" for std where
  "map_order (counters (mem (world s))) ordc \<Longrightarrow> map_order (gauges (mem (world s))) ordg \<Longrightarrow>
   mem_SaveToFile std ordc ordg (store_path s) (world s) = (res, w) \<Longrightarrow> saves std s res w"

inductive saver_step :: "go_std \<Rightarrow> saver_state \<Rightarrow> saver_state \<Rightarrow> bool" for std where
  tick: "saver s \<noteq> Crashed \<Longrightarrow> ticker (mem (world s)) \<noteq> None \<Longrightarrow> saver_step std s (s\<lparr>pending := True\<rparr>)"
| evaluate: "saver s = AtSelect \<Longrightarrow>
     saver_step std s (s\<lparr>saver := (if ticker (mem (world s)) = None then Crashed else Blocked)\<rparr>)"
| fire: "saver s = Blocked \<Longrightarrow> pending s \<Longrightarrow> saver_step std s (s\<lparr>pending := False, saver := Saving\<rparr>)"
| save: "saver s = Saving \<Longrightarrow> saves std s res w \<Longrightarrow> saver_step std s (s\<lparr>world := w, saver := AtSelect\<rparr>)"
| leave: "saver s = Blocked \<Longrightarrow> done_closed (mem (world s)) \<Longrightarrow> saver_step std s (s\<lparr>saver := Left\<rparr>)"
| update: "saver s \<noteq> Crashed \<Longrightarrow> \<forall>r. closer s \<noteq> Finished r \<Longrightarrow> mem_UpdateMetrics ms (world s) = (None, w) \<Longrightarrow>
     saver_step std s (s\<lparr>world := w\<rparr>)"
| close_ticker: "saver s \<noteq> Crashed \<Longrightarrow> closer s = Open \<Longrightarrow>
     saver_step std s ((set_mem (\<lambda>m. m\<lparr>ticker := None\<rparr>) s)\<lparr>pending := False, closer := TickerGone\<rparr>)"
| close_done: "saver s \<noteq> Crashed \<Longrightarrow> closer s = TickerGone \<Longrightarrow>
     saver_step std s ((set_mem (\<lambda>m. m\<lparr>done_closed := True\<rparr>) s)\<lparr>closer := DoneClosed\<rparr>)"
| close_save: "saver s \<noteq> Crashed \<Longrightarrow> closer s = DoneClosed \<Longrightarrow> saves std s res w \<Longrightarrow>
     saver_step std s (s\<lparr>world := w, closer := Finished (map_option (WrapError ''failed to save on close: '') res)\<rparr>)"

text \<open>Without the goroutine in between, the three steps are \<open>mem_Close\<close>.\<close>

lemma close_steps_are_Close:
  assumes "saver s \<noteq> Crashed" "closer s = Open"
    "map_order (counters (mem (world s))) ordc" "map_order (gauges (mem (world s))) ordg"
    "mem_Close std ordc ordg (world s) = (res, w)"
  shows "\<exists>s'. (saver_step std)\<^sup>*\<^sup>* s s' \<and> world s' = w \<and> closer s' = Finished res"
proof -
  let ?s1 = "(set_mem (\<lambda>m. m\<lparr>ticker := None\<rparr>) s)\<lparr>pending := False, closer := TickerGone\<rparr>"
  let ?s2 = "(set_mem (\<lambda>m. m\<lparr>done_closed := True\<rparr>) ?s1)\<lparr>closer := DoneClosed\<rparr>"
  obtain r w3 where save: "mem_SaveToFile std ordc ordg (store_path ?s2) (world ?s2) = (r, w3)" by fastforce
  have "world ?s2 = (world s)\<lparr>mem := (mem (world s))\<lparr>ticker := None, done_closed := True\<rparr>\<rparr>"
    by (simp add: set_mem_def)
  then have res: "res = map_option (WrapError ''failed to save on close: '') r" "w = w3"
    using assms(5) save by (auto simp: mem_Close_save store_path_def split: option.splits)
  have "saver_step std s ?s1" by (rule close_ticker) (simp_all add: assms)
  moreover have "saver_step std ?s1 ?s2" by (rule close_done) (simp_all add: assms set_mem_def)
  moreover have "saves std ?s2 r w3" by (rule saves.intros [OF _ _ save]) (simp_all add: assms set_mem_def)
  then have "saver_step std ?s2 (?s2\<lparr>world := w3, closer := Finished (map_option (WrapError ''failed to save on close: '') r)\<rparr>)"
    by (intro close_save) (simp_all add: assms set_mem_def)
  ultimately have "(saver_step std)\<^sup>*\<^sup>* s (?s2\<lparr>world := w3, closer := Finished (map_option (WrapError ''failed to save on close: '') r)\<rparr>)"
    by (meson rtranclp.rtrancl_into_rtrancl rtranclp.rtrancl_refl)
  with res show ?thesis by fastforce
qed

section \<open>The file after Close\<close>

text \<open>What a save leaves in the file.\<close>

definition file_has :: "go_std \<Rightarrow> saver_state \<Rightarrow> bool" where
  "file_has std s \<longleftrightarrow>
     (\<exists>ordc ordg j. map_order (counters (mem (world s))) ordc \<and> map_order (gauges (mem (world s))) ordg
        \<and> marshal_metrics std (saved_metrics ordc ordg (mem (world s))) = Inr j
        \<and> fs_file (files (world s)) (store_path s) = Some (json_write_indent std j)
        \<and> fs_fault (files (world s)) (store_path s) = None)"

lemma saves_mem: "saves std s res w \<Longrightarrow> mem w = mem (world s)"
  by (auto elim!: saves.cases simp: mem_SaveToFile_def split: sum.splits prod.splits option.splits)

lemma saves_ok: "saves std s None w \<Longrightarrow> file_has std (s\<lparr>world := w\<rparr>)"
  by (auto elim!: saves.cases simp: mem_SaveToFile_def os_WriteFile_def file_has_def store_path_def
      split: sum.splits prod.splits option.splits if_splits; blast)

lemma saves_failed: "saves std s (Some e) w \<Longrightarrow> w = world s"
  by (auto elim!: saves.cases simp: mem_SaveToFile_def os_WriteFile_def split: sum.splits prod.splits option.splits if_splits)

lemma file_has_world: "world s = world s' \<Longrightarrow> file_has std s = file_has std s'"
  by (simp add: file_has_def store_path_def)

lemma finished_keeps:
  assumes "saver_step std s s'" "closer s = Finished None \<longrightarrow> file_has std s"
  shows "closer s' = Finished None \<longrightarrow> file_has std s'"
  using assms
proof (induction rule: saver_step.induct)
  case (save s res w)
  then show ?case
    using saves_ok [of std s w] saves_failed [of std s _ w]
    by (cases res) (auto cong: file_has_world simp: file_has_def store_path_def)
next
  case (close_save s res w)
  then show ?case
    using saves_ok [of std s w] by (auto simp: file_has_def store_path_def)
qed (auto simp: file_has_def store_path_def set_mem_def)

lemma finished_file:
  "(saver_step std)\<^sup>*\<^sup>* (saver_start w) s \<Longrightarrow> closer s = Finished None \<Longrightarrow> file_has std s"
proof -
  assume "(saver_step std)\<^sup>*\<^sup>* (saver_start w) s" and "closer s = Finished None"
  then have "closer s = Finished None \<longrightarrow> file_has std s"
  proof (induction rule: rtranclp_induct)
    case base
    then show ?case by (simp add: saver_start_def)
  next
    case (step s s')
    then show ?case using finished_keeps [OF step.hyps(2)] by blast
  qed
  with \<open>closer s = Finished None\<close> show ?thesis by simp
qed

lemma file_has_restores:
  assumes "file_has std s" "gauges_read_back std (mem (world s))"
    and "\<And>ordc ordg j. map_order (counters (mem (world s))) ordc \<Longrightarrow> map_order (gauges (mem (world s))) ordg \<Longrightarrow>
      marshal_metrics std (saved_metrics ordc ordg (mem (world s))) = Inr j \<Longrightarrow> text_reads_back std j"
    and "FileStoragePath c = store_path s" "Restore c" "interval_ok c"
  shows "\<exists>w2. NewMemStorage std c (files (world s)) = Return (Some w2) \<and> mem_view w2 = mem_view (world s)"
proof -
  let ?m = "mem (world s)" and ?f = "FileStoragePath c"
  obtain ordc ordg j where sv: "map_order (counters ?m) ordc" "map_order (gauges ?m) ordg"
      "marshal_metrics std (saved_metrics ordc ordg ?m) = Inr j"
      "fs_file (files (world s)) ?f = Some (json_write_indent std j)" "fs_fault (files (world s)) ?f = None"
    using assms(1,4) by (auto simp: file_has_def)
  have "unmarshal_metrics std j = Inr (saved_metrics ordc ordg ?m)"
    using save_load_document [OF assms(2), of ordc ordg] sv(3) by (metis sum.inject(2))
  then have "mem_LoadFromFile std ?f \<lparr>mem = fresh_memStorage c, files = files (world s)\<rparr> =
      (None, \<lparr>mem = load_all (saved_metrics ordc ordg ?m) (fresh_memStorage c), files = files (world s)\<rparr>)"
    using sv assms(3) by (subst mem_LoadFromFile_ok [where j = j]) auto
  from NewMemStorage_restored [OF assms(5,6) this] show ?thesis
    using sv(1,2) by (simp add: load_saved fresh_memStorage_def mem_view_def)
qed

text \<open>
  A periodic save never spoils the final one: in every interleaving of the updates, the saving
  goroutine and \<open>Close\<close>, once \<open>Close\<close> has returned without an error, and whatever the goroutine
  still does, a server started with \<open>Restore\<close> on the same file has exactly the counters and gauges
  of the storage (given finite gauges whose literals, and documents whose text, read back).
\<close>

theorem closed_storage_restores:
  assumes "(saver_step std)\<^sup>*\<^sup>* (saver_start w) s" "closer s = Finished None"
    and "gauges_read_back std (mem (world s))"
    and "\<And>ordc ordg j. map_order (counters (mem (world s))) ordc \<Longrightarrow> map_order (gauges (mem (world s))) ordg \<Longrightarrow>
      marshal_metrics std (saved_metrics ordc ordg (mem (world s))) = Inr j \<Longrightarrow> text_reads_back std j"
    and "FileStoragePath c = store_path s" "Restore c" "interval_ok c"
  shows "\<exists>w2. NewMemStorage std c (files (world s)) = Return (Some w2) \<and> mem_view w2 = mem_view (world s)"
  by (rule file_has_restores [OF finished_file [OF assms(1,2)] assms(3-7)])

definition closed_world :: mem_world where
  "closed_world = \<lparr>mem = sample_mem\<lparr>ticker := None, done_closed := True\<rparr>,
     files = no_files\<lparr>fs_file := [''m.json'' \<mapsto> json_write_indent (sample_std sample_doc) sample_doc]\<rparr>\<rparr>"

lemma sample_Close:
  "mem_Close (sample_std sample_doc) [''c''] [''g''] \<lparr>mem = sample_mem, files = no_files\<rparr> = (None, closed_world)"
proof -
  have "marshal_metrics (sample_std sample_doc) (saved_metrics [''c''] [''g''] (sample_mem\<lparr>ticker := None, done_closed := True\<rparr>)) = Inr sample_doc"
    using sample_saved [of sample_doc] by (simp add: saved_metrics_def)
  then show ?thesis
    using mem_SaveToFile_ok [of "''m.json''" "\<lparr>mem = sample_mem\<lparr>ticker := None, done_closed := True\<rparr>, files = no_files\<rparr>"
        "sample_std sample_doc" "[''c'']" "[''g'']" sample_doc]
    by (simp add: mem_Close_save closed_world_def file_writable_def no_files_def sample_mem_def sample_flags_def)
qed

lemma sample_orders:
  "map_order (counters sample_mem) ordc \<longleftrightarrow> ordc = [''c'']" "map_order (gauges sample_mem) ordg \<longleftrightarrow> ordg = [''g'']"
proof -
  have "distinct xs \<and> set xs = {a} \<longleftrightarrow> xs = [a]" for xs :: "'x list" and a
    by (cases xs; cases "tl xs") (auto simp: subset_singleton_iff)
  then show "map_order (counters sample_mem) ordc \<longleftrightarrow> ordc = [''c'']" "map_order (gauges sample_mem) ordg \<longleftrightarrow> ordg = [''g'']"
    by (simp_all add: map_order_def sample_mem_def)
qed

theorem closed_storage_restores_witness:
  "\<exists>s w2. (saver_step (sample_std sample_doc))\<^sup>*\<^sup>* (saver_start \<lparr>mem = sample_mem, files = no_files\<rparr>) s
     \<and> NewMemStorage (sample_std sample_doc) sample_flags (files (world s)) = Return (Some w2)
     \<and> mem_view w2 = \<lparr>tab_gauges = [''g'' \<mapsto> f64_one], tab_counters = [''c'' \<mapsto> 5]\<rparr>"
proof -
  let ?start = "saver_start \<lparr>mem = sample_mem, files = no_files\<rparr>" and ?std = "sample_std sample_doc"
  have "mem_Close ?std [''c''] [''g''] (world ?start) = (None, closed_world)"
    using sample_Close by (simp add: saver_start_def)
  from close_steps_are_Close [OF _ _ _ _ this] obtain s where
    s: "(saver_step ?std)\<^sup>*\<^sup>* ?start s" "world s = closed_world" "closer s = Finished None"
    by (auto simp: saver_start_def sample_orders)
  have m: "mem (world s) = sample_mem\<lparr>ticker := None, done_closed := True\<rparr>" by (simp add: s(2) closed_world_def)
  have "text_reads_back ?std j"
    if "map_order (counters (mem (world s))) ordc" "map_order (gauges (mem (world s))) ordg"
      "marshal_metrics ?std (saved_metrics ordc ordg (mem (world s))) = Inr j" for ordc ordg j
  proof -
    have "saved_metrics ordc ordg (mem (world s)) = saved_metrics [''c''] [''g''] sample_mem"
      using that(1,2) sample_orders by (simp add: m saved_metrics_def)
    with that(3) sample_saved [of sample_doc] show ?thesis by (simp add: text_reads_back_def)
  qed
  moreover have "gauges_read_back ?std (mem (world s))"
    by (simp add: gauges_read_back_def float_reads_back_def s(2) closed_world_def sample_mem_def)
  moreover have "FileStoragePath sample_flags = store_path s" "Restore sample_flags" "interval_ok sample_flags"
    by (simp_all add: s(2) store_path_def closed_world_def sample_mem_def sample_flags_def interval_ok_def Second_def)
  ultimately have "\<exists>w2. NewMemStorage ?std sample_flags (files (world s)) = Return (Some w2) \<and> mem_view w2 = mem_view (world s)"
    by (intro closed_storage_restores [OF s(1,3)])
  moreover have "mem_view (world s) = \<lparr>tab_gauges = [''g'' \<mapsto> f64_one], tab_counters = [''c'' \<mapsto> 5]\<rparr>"
    by (simp add: m mem_view_def sample_mem_def)
  ultimately show ?thesis using s(1) by metis
qed

section \<open>The race\<close>

text \<open>
  C37. Closing can crash the server. \<open>Close\<close> sets the ticker to nil while the saving goroutine may be
  between two rounds; its next round reads \<open>m.ticker.C\<close>, which is a nil dereference, and the process
  ends before \<open>Close\<close> has made its final save. There is such a run in which a counter that was
  accepted after the last periodic save is in no file.
\<close>

theorem closing_may_crash:
  "\<exists>s. (saver_step (sample_std sample_doc))\<^sup>*\<^sup>* (saver_start \<lparr>mem = sample_mem, files = no_files\<rparr>) s
     \<and> saver s = Crashed \<and> (\<forall>res. closer s \<noteq> Finished res)
     \<and> counters (mem (world s)) ''d'' = Some 7
     \<and> fs_file (files (world s)) = [''m.json'' \<mapsto> json_write_indent (sample_std sample_doc) sample_doc]"
proof -
  let ?std = "sample_std sample_doc" and ?w = "\<lparr>mem = sample_mem, files = no_files\<rparr>"
  let ?s0 = "saver_start ?w"
  let ?s1 = "?s0\<lparr>saver := Blocked\<rparr>"
  let ?s2 = "?s1\<lparr>pending := True\<rparr>"
  let ?s3 = "?s2\<lparr>pending := False, saver := Saving\<rparr>"
  let ?w4 = "?w\<lparr>files := no_files\<lparr>fs_file := [''m.json'' \<mapsto> json_write_indent ?std sample_doc]\<rparr>\<rparr>"
  let ?s4 = "?s3\<lparr>world := ?w4, saver := AtSelect\<rparr>"
  let ?w5 = "?w4\<lparr>mem := sample_mem\<lparr>counters := [''c'' \<mapsto> 5, ''d'' \<mapsto> 7]\<rparr>\<rparr>"
  let ?s5 = "?s4\<lparr>world := ?w5\<rparr>"
  let ?s6 = "(set_mem (\<lambda>m. m\<lparr>ticker := None\<rparr>) ?s5)\<lparr>pending := False, closer := TickerGone\<rparr>"
  let ?s7 = "?s6\<lparr>saver := Crashed\<rparr>"
  have "saver_step ?std ?s0 ?s1"
    using evaluate [of ?s0] by (simp add: saver_start_def sample_mem_def)
  moreover have "saver_step ?std ?s1 ?s2"
    by (rule tick) (simp_all add: saver_start_def sample_mem_def)
  moreover have "saver_step ?std ?s2 ?s3" by (rule fire) simp_all
  moreover have "mem_SaveToFile ?std [''c''] [''g''] ''m.json'' ?w = (None, ?w4)"
    using mem_SaveToFile_ok [of "''m.json''" ?w ?std "[''c'']" "[''g'']" sample_doc] sample_saved [of sample_doc]
    by (simp add: file_writable_def no_files_def)
  then have "saves ?std ?s3 None ?w4"
    by (intro saves.intros [of ?s3 "[''c'']" "[''g'']"])
      (simp_all add: saver_start_def sample_orders store_path_def, simp add: sample_mem_def sample_flags_def)
  then have "saver_step ?std ?s3 ?s4" by (intro save) simp_all
  moreover have "mem_UpdateMetrics [counter_metric ''d'' 7] (world ?s4) = (None, ?w5)"
    by (simp add: mem_UpdateMetrics_def update_one_def counter_metric_def sample_mem_def Counter_def Gauge_def)
  then have "saver_step ?std ?s4 ?s5" by (intro update) (simp_all add: saver_start_def)
  moreover have "saver_step ?std ?s5 ?s6" by (rule close_ticker) (simp_all add: saver_start_def)
  moreover have "saver_step ?std ?s6 ?s7"
    using evaluate [of ?s6] by (simp add: saver_start_def set_mem_def)
  ultimately have "(saver_step ?std)\<^sup>*\<^sup>* ?s0 ?s7"
    by (meson rtranclp.rtrancl_into_rtrancl rtranclp.rtrancl_refl)
  moreover have "saver ?s7 = Crashed \<and> (\<forall>res. closer ?s7 \<noteq> Finished res) \<and> counters (mem (world ?s7)) ''d'' = Some 7
     \<and> fs_file (files (world ?s7)) = [''m.json'' \<mapsto> json_write_indent ?std sample_doc]"
    by (simp add: set_mem_def)
  ultimately show ?thesis by blast
qed

end
