(* ===== verification/Postgres.thy ===== *)
theory Postgres
  imports DbStorage
begin

text \<open>
  What the database storage relies on, and that it keeps the storage contract over it.

  The table is that of the migration \<open>000001_create_metrics_table\<close>: at most one row per \<open>id\<close>
  (the primary key), and every row satisfies the check \<open>chk_metric\<close>. \<open>sql_exec\<close> is what the
  storage's statements do to it, by the rules of PostgreSQL: \<open>NULL + d\<close> is \<open>NULL\<close>, a \<open>bigint\<close>
  that overflows is error 22003 and a row that fails the check is error 23514.

  The locale \<open>pgx_driver\<close> states the laws of the driver: a statement that returns no error was
  executed and one that returns an error was not, a transaction's statements are seen by the
  table only after \<open>Commit\<close>. \<open>faults d\<close> bounds the connection failures that are still to come.
  \<open>pg_driver\<close> is a database in which a script decides how each call fails; it keeps the laws as
  long as the script has no \<open>FailAfter\<close>, a failure reported after the statement took effect.
\<close>

section \<open>The table\<close>

datatype pg_type = PgCounter | PgGauge

record pg_row =
  row_type :: pg_type
  row_delta :: "int64 option"
  row_value :: "float64 option"

type_synonym pg_table = "bytes \<rightharpoonup> pg_row"

definition chk_metric :: "pg_row \<Rightarrow> bool" where
  "chk_metric r \<longleftrightarrow>
     (row_type r = PgCounter \<and> row_delta r \<noteq> None \<and> row_value r = None)
     \<or> (row_type r = PgGauge \<and> row_delta r = None \<and> row_value r \<noteq> None)"

definition rows_ok :: "pg_table \<Rightarrow> bool" where
  "rows_ok t \<longleftrightarrow> (\<forall>r \<in> ran t. chk_metric r)"

definition add_overflows :: "int64 \<Rightarrow> int64 \<Rightarrow> bool" where
  "add_overflows x d \<longleftrightarrow> sint (x + d) \<noteq> sint x + sint d"

definition check_violation :: goerr where
  "check_violation = PgError ''23514'' ''new row for relation violates check constraint chk_metric''"

definition out_of_range :: goerr where
  "out_of_range = PgError ''22003'' ''bigint out of range''"

definition put_row :: "bytes \<Rightarrow> pg_row \<Rightarrow> pg_table \<Rightarrow> goerr + pg_table" where
  "put_row n r t = (if chk_metric r then Inr (t(n \<mapsto> r)) else Inl check_violation)"

definition upsert_gauge :: "bytes \<Rightarrow> float64 \<Rightarrow> pg_table \<Rightarrow> goerr + pg_table" where
  "upsert_gauge n v t =
     (case t n of
        None \<Rightarrow> put_row n \<lparr>row_type = PgGauge, row_delta = None, row_value = Some v\<rparr> t
      | Some r \<Rightarrow> put_row n (r\<lparr>row_value := Some v\<rparr>) t)"

definition upsert_counter :: "bytes \<Rightarrow> int64 \<Rightarrow> pg_table \<Rightarrow> goerr + pg_table" where
  "upsert_counter n d t =
     (case t n of
        None \<Rightarrow> put_row n \<lparr>row_type = PgCounter, row_delta = Some d, row_value = None\<rparr> t
      | Some r \<Rightarrow>
          (case row_delta r of
             None \<Rightarrow> put_row n r t
           | Some x \<Rightarrow>
               if add_overflows x d then Inl out_of_range
               else put_row n (r\<lparr>row_delta := Some (x + d)\<rparr>) t))"

fun sql_exec :: "sql \<Rightarrow> pg_table \<Rightarrow> goerr + pg_table" where
  "sql_exec (UpsertGauge n v) t = upsert_gauge n v t"
| "sql_exec (BatchGauge n v) t = upsert_gauge n v t"
| "sql_exec (UpsertCounter n d) t = upsert_counter n d t"
| "sql_exec (BatchCounter n d) t = upsert_counter n d t"

definition pg_view :: "pg_table \<Rightarrow> metric_table" where
  "pg_view t =
     \<lparr>tab_gauges = (\<lambda>n. case t n of None \<Rightarrow> None
                        | Some r \<Rightarrow> if row_type r = PgGauge then row_value r else None),
      tab_counters = (\<lambda>n. case t n of None \<Rightarrow> None
                        | Some r \<Rightarrow> if row_type r = PgCounter then row_delta r else None)\<rparr>"

text \<open>How one metric changes the abstract table: a gauge cannot take the name of a counter, a
  counter update on the name of a gauge is accepted and does nothing, and a sum that does not
  fit is refused.\<close>

definition pg_step :: table_step where
  "pg_step m t =
     (if MType m = Gauge then
        (case Value m of
           None \<Rightarrow> Some t
         | Some v \<Rightarrow> if tab_counters t (ID m) \<noteq> None then None else Some (set_gauge (ID m) v t))
      else if MType m = Counter then
        (case Delta m of
           None \<Rightarrow> Some t
         | Some d \<Rightarrow>
             if tab_gauges t (ID m) \<noteq> None then Some t
             else (case tab_counters t (ID m) of
                     None \<Rightarrow> Some (add_counter (ID m) d t)
                   | Some x \<Rightarrow> if add_overflows x d then None else Some (add_counter (ID m) d t)))
      else Some t)"

lemma rows_okD: "rows_ok t \<Longrightarrow> t n = Some r \<Longrightarrow> chk_metric r"
  by (auto simp: rows_ok_def ranI)

lemma rows_ok_upd: "rows_ok t \<Longrightarrow> chk_metric r \<Longrightarrow> rows_ok (t(n \<mapsto> r))"
  by (auto simp: rows_ok_def ran_def)

lemma rows_ok_empty [simp]: "rows_ok Map.empty"
  by (simp add: rows_ok_def)

lemma table_eqI: "tab_gauges (t :: metric_table) = tab_gauges t' \<Longrightarrow> tab_counters t = tab_counters t' \<Longrightarrow> t = t'"
  by (cases t; cases t') simp

lemma upsert_gauge_step:
  assumes "rows_ok t" "upsert_gauge n v t = Inr t'"
  shows "rows_ok t' \<and> pg_step (gauge_metric n v) (pg_view t) = Some (pg_view t')"
proof (cases "t n")
  case None
  with assms have "t' = t(n \<mapsto> \<lparr>row_type = PgGauge, row_delta = None, row_value = Some v\<rparr>)"
    by (simp add: upsert_gauge_def put_row_def chk_metric_def)
  with assms(1) None show ?thesis
    by (auto simp: rows_ok_upd chk_metric_def pg_step_def pg_view_def intro!: table_eqI)
next
  case (Some r)
  with assms have c: "chk_metric (r\<lparr>row_value := Some v\<rparr>)" and t': "t' = t(n \<mapsto> r\<lparr>row_value := Some v\<rparr>)"
    by (auto simp: upsert_gauge_def put_row_def split: if_splits)
  from c rows_okD [OF assms(1) Some] have g: "row_type r = PgGauge"
    by (auto simp: chk_metric_def)
  from g c t' assms(1) Some show ?thesis
    by (auto simp: rows_ok_upd pg_step_def pg_view_def intro!: table_eqI)
qed

lemma upsert_counter_step:
  assumes "rows_ok t" "upsert_counter n d t = Inr t'"
  shows "rows_ok t' \<and> pg_step (counter_metric n d) (pg_view t) = Some (pg_view t')"
proof (cases "t n")
  case None
  with assms have "t' = t(n \<mapsto> \<lparr>row_type = PgCounter, row_delta = Some d, row_value = None\<rparr>)"
    by (simp add: upsert_counter_def put_row_def chk_metric_def)
  with assms(1) None show ?thesis
    by (auto simp: rows_ok_upd chk_metric_def pg_step_def pg_view_def intro!: table_eqI)
next
  case (Some r)
  note chk = rows_okD [OF assms(1) Some]
  show ?thesis
  proof (cases "row_delta r")
    case None
    with assms Some have "t' = t" by (auto simp: upsert_counter_def put_row_def split: if_splits)
    with None chk Some assms(1) show ?thesis
      by (auto simp: pg_step_def pg_view_def chk_metric_def)
  next
    case (Some x)
    with assms \<open>t n = Some r\<close> have ov: "\<not> add_overflows x d"
      and c: "chk_metric (r\<lparr>row_delta := Some (x + d)\<rparr>)" and t': "t' = t(n \<mapsto> r\<lparr>row_delta := Some (x + d)\<rparr>)"
      by (auto simp: upsert_counter_def put_row_def split: if_splits)
    from chk Some have "row_type r = PgCounter" by (auto simp: chk_metric_def)
    with ov c t' assms(1) \<open>t n = Some r\<close> Some show ?thesis
      by (auto simp: rows_ok_upd pg_step_def pg_view_def intro!: table_eqI)
  qed
qed

text \<open>The statement that a batch runs for a metric, with the prefix of its error, if any.\<close>

definition batch_sql :: "Metrics \<Rightarrow> (sql \<times> bytes) option" where
  "batch_sql m =
     (if MType m = Gauge then
        map_option (\<lambda>v. (BatchGauge (ID m) v, ''failed to update gauge metric '' @ ID m @ '': '')) (Value m)
      else if MType m = Counter then
        map_option (\<lambda>v. (BatchCounter (ID m) v, ''failed to update counter metric '' @ ID m @ '': '')) (Delta m)
      else None)"

lemma batch_loop_Cons:
  "batch_loop P ctx (m # ms) d =
     (case batch_sql m of
        None \<Rightarrow> batch_loop P ctx ms d
      | Some (q, w) \<Rightarrow>
          (case tx_Exec P ctx q d of
             (Some err, d') \<Rightarrow> (Some (WrapError w err), d')
           | (None, d') \<Rightarrow> batch_loop P ctx ms d'))"
  by (auto simp: batch_sql_def split: option.splits prod.splits)

lemma pg_step_by_kind:
  "MType m = Gauge \<Longrightarrow> Value m = Some v \<Longrightarrow> pg_step m t = pg_step (gauge_metric (ID m) v) t"
  "MType m = Counter \<Longrightarrow> Delta m = Some d \<Longrightarrow> pg_step m t = pg_step (counter_metric (ID m) d) t"
  by (simp_all add: pg_step_def counter_metric_def gauge_metric_def split: option.splits)

lemma batch_sql_None: "batch_sql m = None \<Longrightarrow> pg_step m t = Some t"
  by (auto simp: batch_sql_def pg_step_def split: if_splits)

lemma batch_sql_Some:
  assumes "batch_sql m = Some (q, w)" "rows_ok t" "sql_exec q t = Inr t'"
  shows "rows_ok t' \<and> pg_step m (pg_view t) = Some (pg_view t')"
proof (cases "MType m = Gauge")
  case True
  with assms(1) obtain v where v: "Value m = Some v" "q = BatchGauge (ID m) v"
    by (cases "Value m") (simp_all add: batch_sql_def)
  with assms(3) have "upsert_gauge (ID m) v t = Inr t'" by simp
  from upsert_gauge_step [OF assms(2) this] show ?thesis
    by (simp only: pg_step_by_kind(1) [OF True v(1)])
next
  case False
  with assms(1) have c: "MType m = Counter" by (auto simp: batch_sql_def split: if_splits)
  from False c assms(1) obtain v where v: "Delta m = Some v" "q = BatchCounter (ID m) v"
    by (cases "Delta m") (simp_all add: batch_sql_def)
  with assms(3) have "upsert_counter (ID m) v t = Inr t'" by simp
  from upsert_counter_step [OF assms(2) this] show ?thesis
    by (simp only: pg_step_by_kind(2) [OF c v(1)])
qed

section \<open>The laws of the driver\<close>

definition type_text :: "pg_type \<Rightarrow> bytes" where
  "type_text ty = (case ty of PgCounter \<Rightarrow> ''counter'' | PgGauge \<Rightarrow> ''gauge'')"

definition scan_row :: "bytes \<times> pg_row \<Rightarrow> scanned_row" where
  "scan_row nr = (fst nr, type_text (row_type (snd nr)), row_delta (snd nr), row_value (snd nr))"

locale pgx_driver =
  fixes P :: "'d pgx"
    and dok :: "'d \<Rightarrow> bool"
    and rows :: "'d \<Rightarrow> pg_table"
    and pend :: "'d \<Rightarrow> pg_table option"
    and faults :: "'d \<Rightarrow> nat"
  assumes Exec_law:
      "dok d \<Longrightarrow> pend d = None \<Longrightarrow> pgx_Exec P ctx q d = (res, d') \<Longrightarrow>
         dok d' \<and> pend d' = None \<and> faults d' \<le> faults d
         \<and> (case res of None \<Rightarrow> sql_exec q (rows d) = Inr (rows d')
             | Some e \<Rightarrow> rows d' = rows d \<and> (isConnectionError e \<longrightarrow> faults d' < faults d))"
    and Begin_law:
      "dok d \<Longrightarrow> pend d = None \<Longrightarrow> pgx_Begin P ctx d = (res, d') \<Longrightarrow>
         dok d' \<and> rows d' = rows d \<and> faults d' \<le> faults d
         \<and> pend d' = (case res of None \<Rightarrow> Some (rows d) | Some e \<Rightarrow> None)"
    and tx_Exec_law:
      "dok d \<Longrightarrow> pend d = Some t \<Longrightarrow> tx_Exec P ctx q d = (res, d') \<Longrightarrow>
         dok d' \<and> rows d' = rows d \<and> faults d' \<le> faults d
         \<and> (res = None \<longrightarrow> (\<exists>t'. sql_exec q t = Inr t' \<and> pend d' = Some t'))"
    and Commit_law:
      "dok d \<Longrightarrow> pend d = Some t \<Longrightarrow> tx_Commit P ctx d = (res, d') \<Longrightarrow>
         dok d' \<and> faults d' \<le> faults d \<and> rows d' = (case res of None \<Rightarrow> t | Some e \<Rightarrow> rows d)"
    and Rollback_law:
      "dok d \<Longrightarrow> tx_Rollback P ctx d = (res, d') \<Longrightarrow>
         dok d' \<and> faults d' \<le> faults d \<and> rows d' = rows d \<and> pend d' = None"
    and QueryGauge_frame:
      "dok d \<Longrightarrow> pend d = None \<Longrightarrow> pgx_QueryGauge P ctx n d = (rg, d') \<Longrightarrow>
         dok d' \<and> pend d' = None \<and> rows d' = rows d \<and> faults d' \<le> faults d"
    and QueryGauge_val:
      "dok d \<Longrightarrow> pend d = None \<Longrightarrow> live_context ctx \<Longrightarrow> pgx_QueryGauge P ctx n d = (rg, d') \<Longrightarrow>
         (case rg of
            Inr v \<Rightarrow> tab_gauges (pg_view (rows d)) n = Some v
          | Inl e \<Rightarrow>
              if isConnectionError e then \<not> errors_Is_no_rows e \<and> faults d' < faults d
              else errors_Is_no_rows e \<and> tab_gauges (pg_view (rows d)) n = None)"
    and QueryCounter_frame:
      "dok d \<Longrightarrow> pend d = None \<Longrightarrow> pgx_QueryCounter P ctx n d = (rc, d') \<Longrightarrow>
         dok d' \<and> pend d' = None \<and> rows d' = rows d \<and> faults d' \<le> faults d"
    and QueryCounter_val:
      "dok d \<Longrightarrow> pend d = None \<Longrightarrow> live_context ctx \<Longrightarrow> pgx_QueryCounter P ctx n d = (rc, d') \<Longrightarrow>
         (case rc of
            Inr v \<Rightarrow> tab_counters (pg_view (rows d)) n = Some v
          | Inl e \<Rightarrow>
              if isConnectionError e then \<not> errors_Is_no_rows e \<and> faults d' < faults d
              else errors_Is_no_rows e \<and> tab_counters (pg_view (rows d)) n = None)"
    and QueryAll_val:
      "dok d \<Longrightarrow> pend d = None \<Longrightarrow> pgx_QueryAll P ctx d = (Inr (rs, None), d') \<Longrightarrow>
         \<exists>ord. map_order (rows d) ord \<and> rs = map (Inr \<circ> scan_row) (map_range (rows d) ord)"
    and QueryAll_frame:
      "dok d \<Longrightarrow> pend d = None \<Longrightarrow> pgx_QueryAll P ctx d = (ra, d') \<Longrightarrow>
         dok d' \<and> pend d' = None \<and> rows d' = rows d \<and> faults d' \<le> faults d"
    and Ping_frame:
      "dok d \<Longrightarrow> pend d = None \<Longrightarrow> pgx_Ping P ctx d = (rp, d') \<Longrightarrow>
         dok d' \<and> pend d' = None \<and> rows d' = rows d \<and> faults d' \<le> faults d"

section \<open>The storage over a driver that keeps the laws\<close>

text \<open>The state between calls: no open transaction, the check holds, and no more connection
  failures to come than one call may retry.\<close>

definition db_ok :: "('d \<Rightarrow> bool) \<Rightarrow> ('d \<Rightarrow> pg_table) \<Rightarrow> ('d \<Rightarrow> pg_table option) \<Rightarrow> ('d \<Rightarrow> nat)
    \<Rightarrow> 'd dbstorage \<Rightarrow> 'd \<Rightarrow> bool" where
  "db_ok dok rows pend faults db d \<longleftrightarrow>
     dok d \<and> pend d = None \<and> rows_ok (rows d) \<and> faults d \<le> max_retries (retryCfg db)
     \<and> retries_bounded (retryCfg db) \<and> IsRetryableFn (retryCfg db) = Some isConnectionError"

lemma NewDBStorage_cfg:
  assumes "NewDBStorage std p c = Inr db"
  shows "db_pool db = p" "IsRetryableFn (retryCfg db) = Some isConnectionError"
    "MaxRetries (retryCfg db) = srv_MaxRetries c"
  using assms by (auto simp: NewDBStorage_def split: sum.splits)

context pgx_driver
begin

abbreviation "ok db \<equiv> db_ok dok rows pend faults db"

text \<open>A state that a failed attempt leaves: as before, with at most as many faults to come.\<close>

definition same :: "'d \<Rightarrow> 'd \<Rightarrow> bool" where
  "same d0 d \<longleftrightarrow> dok d \<and> pend d = None \<and> rows d = rows d0 \<and> faults d \<le> faults d0"

definition stepped :: "(metric_table \<Rightarrow> metric_table option) \<Rightarrow> 'd \<Rightarrow> 'd \<Rightarrow> bool" where
  "stepped f d0 d \<longleftrightarrow> dok d \<and> pend d = None \<and> faults d \<le> faults d0 \<and> rows_ok (rows d)
     \<and> f (pg_view (rows d0)) = Some (pg_view (rows d))"

lemma same_refl: "ok db d \<Longrightarrow> same d d"
  by (simp add: same_def db_ok_def)

lemma same_ok: "ok db d0 \<Longrightarrow> same d0 d \<Longrightarrow> ok db d \<and> pg_view (rows d) = pg_view (rows d0)"
  by (auto simp: same_def db_ok_def)

lemma stepped_ok: "ok db d0 \<Longrightarrow> stepped f d0 d \<Longrightarrow> ok db d \<and> f (pg_view (rows d0)) = Some (pg_view (rows d))"
  by (auto simp: stepped_def db_ok_def)

lemma exec_attempt:
  assumes ex: "\<And>t t'. rows_ok t \<Longrightarrow> sql_exec q t = Inr t' \<Longrightarrow> rows_ok t' \<and> f (pg_view t) = Some (pg_view t')"
    and ok0: "ok db d0" and I: "same d0 d" and run: "pgx_Exec P ctx q d = (res, d')"
  shows "case res of None \<Rightarrow> stepped f d0 d' | Some e \<Rightarrow> same d0 d'"
  using Exec_law [of d ctx q res d'] I run ok0 ex [of "rows d0" "rows d'"]
  by (auto simp: same_def stepped_def db_ok_def split: option.splits)

lemma exec_retried:
  assumes ex: "\<And>t t'. rows_ok t \<Longrightarrow> sql_exec q t = Inr t' \<Longrightarrow> rows_ok t' \<and> f (pg_view t) = Some (pg_view t')"
    and ok0: "ok db d0" and run: "retry_do ctx (retryCfg db) (pgx_Exec P ctx q) d0 = (res, d')"
  shows "case res of None \<Rightarrow> stepped f d0 d' | Some e \<Rightarrow> same d0 d'"
proof (rule retry_do_inv [where I = "same d0", OF _ _ _ run])
  show "retries_bounded (retryCfg db)" using ok0 by (simp add: db_ok_def)
  show "same d0 d0" by (rule same_refl [OF ok0])
  show "case r of None \<Rightarrow> stepped f d0 s' | Some e \<Rightarrow> same d0 s'"
    if "same d0 s" "pgx_Exec P ctx q s = (r, s')" for s r s'
    by (rule exec_attempt [of q f db, OF _ ok0 that]) (rule ex)
qed

lemma gauge_exec:
  "rows_ok t \<Longrightarrow> sql_exec (UpsertGauge n v) t = Inr t' \<Longrightarrow>
     rows_ok t' \<and> pg_step (gauge_metric n v) (pg_view t) = Some (pg_view t')"
  by (simp add: upsert_gauge_step)

lemma counter_exec:
  "rows_ok t \<Longrightarrow> sql_exec (UpsertCounter n v) t = Inr t' \<Longrightarrow>
     rows_ok t' \<and> pg_step (counter_metric n v) (pg_view t) = Some (pg_view t')"
  by (simp add: upsert_counter_step)

subsection \<open>The batch\<close>

lemma batch_loop_inv:
  "dok d \<Longrightarrow> pend d = Some t \<Longrightarrow> rows_ok t \<Longrightarrow> batch_loop P ctx ms d = (res, d') \<Longrightarrow>
     dok d' \<and> rows d' = rows d \<and> faults d' \<le> faults d
     \<and> (res = None \<longrightarrow> (\<exists>t'. pend d' = Some t' \<and> rows_ok t' \<and> run_steps pg_step ms (pg_view t) = Some (pg_view t')))"
proof (induction ms arbitrary: d t)
  case Nil
  then show ?case by auto
next
  case (Cons m ms)
  show ?case
  proof (cases "batch_sql m")
    case None
    then have "batch_loop P ctx ms d = (res, d')"
      using Cons.prems(4) by (simp add: batch_loop_Cons del: batch_loop.simps)
    from Cons.IH [OF Cons.prems(1-3) this] show ?thesis by (simp add: batch_sql_None [OF None])
  next
    case (Some qw)
    obtain q w where qw: "batch_sql m = Some (q, w)" using Some by (cases qw) simp
    obtain r1 d1 where e: "tx_Exec P ctx q d = (r1, d1)" by fastforce
    note law = tx_Exec_law [OF Cons.prems(1,2) e]
    show ?thesis
    proof (cases r1)
      case (Some e1)
      then have "res \<noteq> None" "d' = d1"
        using Cons.prems(4) qw e by (auto simp: batch_loop_Cons simp del: batch_loop.simps)
      with law show ?thesis by auto
    next
      case None
      with law obtain t1 where t1: "sql_exec q t = Inr t1" "pend d1 = Some t1"
        and d1: "dok d1" "rows d1 = rows d" "faults d1 \<le> faults d" by auto
      from batch_sql_Some [OF qw Cons.prems(3) t1(1)]
      have s1: "rows_ok t1" "pg_step m (pg_view t) = Some (pg_view t1)" by simp_all
      have rest: "batch_loop P ctx ms d1 = (res, d')"
        using Cons.prems(4) qw e None by (simp add: batch_loop_Cons del: batch_loop.simps)
      from Cons.IH [OF d1(1) t1(2) s1(1) rest] d1 s1(2) show ?thesis by simp
    qed
  qed
qed

lemma batch_attempt_inv:
  assumes ok0: "ok db d0" and I: "same d0 d" and run: "batch_attempt P ctx ms d = (res, d')"
  shows "case res of None \<Rightarrow> stepped (run_steps pg_step ms) d0 d' | Some e \<Rightarrow> same d0 d'"
proof -
  have d: "dok d" "pend d = None" "rows d = rows d0" "faults d \<le> faults d0" "rows_ok (rows d)"
    using I ok0 by (simp_all add: same_def db_ok_def)
  obtain b d1 where b: "pgx_Begin P ctx d = (b, d1)" by fastforce
  note law1 = Begin_law [OF d(1,2) b]
  show ?thesis
  proof (cases b)
    case (Some e)
    with run b law1 d show ?thesis by (auto simp: batch_attempt_def same_def)
  next
    case None
    then have p1: "pend d1 = Some (rows d)" "dok d1" "rows d1 = rows d" "faults d1 \<le> faults d"
      using law1 by auto
    obtain l d2 where l: "batch_loop P ctx ms d1 = (l, d2)" by fastforce
    note law2 = batch_loop_inv [OF p1(2,1) d(5) l]
    obtain k d3 where k: "(case l of Some e \<Rightarrow> (Some e, d2) | None \<Rightarrow> tx_Commit P ctx d2) = (k, d3)"
      by fastforce
    have k3: "dok d3 \<and> faults d3 \<le> faults d \<and>
        (case k of None \<Rightarrow> rows_ok (rows d3) \<and> run_steps pg_step ms (pg_view (rows d)) = Some (pg_view (rows d3))
         | Some e \<Rightarrow> rows d3 = rows d)"
    proof (cases l)
      case (Some e)
      with k law2 p1 show ?thesis by auto
    next
      case None
      with law2 obtain t where t: "pend d2 = Some t" "rows_ok t"
        "run_steps pg_step ms (pg_view (rows d)) = Some (pg_view t)" by auto
      from k None have "tx_Commit P ctx d2 = (k, d3)" by simp
      from Commit_law [OF _ t(1) this] law2 t p1 show ?thesis by (auto split: option.splits)
    qed
    obtain x d4 where x: "tx_Rollback P ctx d3 = (x, d4)" by fastforce
    have "res = k \<and> d' = d4"
      using run b None l k x by (auto simp: batch_attempt_def Let_def split: option.splits prod.splits)
    with Rollback_law [OF _ x] k3 d show ?thesis
      by (auto simp: same_def stepped_def split: option.splits)
  qed
qed

lemma batch_retried:
  assumes ok0: "ok db d0" and run: "retry_do ctx (retryCfg db) (batch_attempt P ctx ms) d0 = (res, d')"
  shows "case res of None \<Rightarrow> stepped (run_steps pg_step ms) d0 d' | Some e \<Rightarrow> same d0 d'"
proof (rule retry_do_inv [where I = "same d0", OF _ _ _ run])
  show "retries_bounded (retryCfg db)" using ok0 by (simp add: db_ok_def)
  show "same d0 d0" by (rule same_refl [OF ok0])
  show "case r of None \<Rightarrow> stepped (run_steps pg_step ms) d0 s' | Some e \<Rightarrow> same d0 s'"
    if "same d0 s" "batch_attempt P ctx ms s = (r, s')" for s r s'
    by (rule batch_attempt_inv [OF ok0 that])
qed

subsection \<open>Reads\<close>

lemma gauge_read_frame:
  assumes ok0: "ok db d0"
    and run: "retry_do ctx (retryCfg db) (gauge_attempt P ctx n) (v0, f0, d0) = (res, (v, f, d'))"
  shows "same d0 d'"
proof -
  have step: "case r of None \<Rightarrow> same d0 (snd (snd s')) | Some e \<Rightarrow> same d0 (snd (snd s'))"
    if "same d0 (snd (snd s))" "gauge_attempt P ctx n s = (r, s')" for s r s'
    using that QueryGauge_frame [of "snd (snd s)" ctx n]
    by (cases s) (auto simp: gauge_attempt_def same_def split: prod.splits sum.splits option.splits)
  have b: "retries_bounded (retryCfg db)" using ok0 by (simp add: db_ok_def)
  have i: "same d0 (snd (snd (v0, f0, d0)))" using same_refl [OF ok0] by simp
  have "case res of None \<Rightarrow> (\<lambda>s. same d0 (snd (snd s))) (v, f, d') | Some e \<Rightarrow> (\<lambda>s. same d0 (snd (snd s))) (v, f, d')"
    by (rule retry_do_inv [where I = "\<lambda>s. same d0 (snd (snd s))", OF _ b i run]) (rule step)
  then show ?thesis by (simp split: option.splits)
qed

lemma counter_read_frame:
  assumes ok0: "ok db d0"
    and run: "retry_do ctx (retryCfg db) (counter_attempt P ctx n) (v0, d0) = (res, (v, d'))"
  shows "same d0 d'"
proof -
  have step: "case r of None \<Rightarrow> same d0 (snd s') | Some e \<Rightarrow> same d0 (snd s')"
    if "same d0 (snd s)" "counter_attempt P ctx n s = (r, s')" for s r s'
    using that QueryCounter_frame [of "snd s" ctx n]
    by (cases s) (auto simp: counter_attempt_def same_def split: prod.splits sum.splits option.splits)
  have b: "retries_bounded (retryCfg db)" using ok0 by (simp add: db_ok_def)
  have i: "same d0 (snd (v0, d0))" using same_refl [OF ok0] by simp
  have "case res of None \<Rightarrow> (\<lambda>s. same d0 (snd s)) (v, d') | Some e \<Rightarrow> (\<lambda>s. same d0 (snd s)) (v, d')"
    by (rule retry_do_inv [where I = "\<lambda>s. same d0 (snd s)", OF _ b i run]) (rule step)
  then show ?thesis by (simp split: option.splits)
qed

lemma listing_frame:
  assumes ok0: "ok db d0"
    and run: "retry_do ctx (retryCfg db) (listing_attempt std P ctx) (b0, d0) = (res, (b, d'))"
  shows "same d0 d'"
proof -
  have step: "case r of None \<Rightarrow> same d0 (snd s') | Some e \<Rightarrow> same d0 (snd s')"
    if "same d0 (snd s)" "listing_attempt std P ctx s = (r, s')" for s r s'
    using that QueryAll_frame [of "snd s" ctx]
    by (cases s) (auto simp: listing_attempt_def same_def split: prod.splits sum.splits option.splits if_splits)
  have b: "retries_bounded (retryCfg db)" using ok0 by (simp add: db_ok_def)
  have i: "same d0 (snd (b0, d0))" using same_refl [OF ok0] by simp
  have "case res of None \<Rightarrow> (\<lambda>s. same d0 (snd s)) (b, d') | Some e \<Rightarrow> (\<lambda>s. same d0 (snd s)) (b, d')"
    by (rule retry_do_inv [where I = "\<lambda>s. same d0 (snd s)", OF _ b i run]) (rule step)
  then show ?thesis by (simp split: option.splits)
qed

text \<open>Under a live context the reads absorb the connection failures.\<close>

lemma retryable_db: "ok db d \<Longrightarrow> retryable_of (retryCfg db) = isConnectionError"
  by (simp add: db_ok_def retryable_of_def)

lemma gauge_read_val:
  assumes ok0: "ok db d0" and live: "live_context ctx"
    and run: "retry_do ctx (retryCfg db) (gauge_attempt P ctx n) (0, False, d0) = (res, (v, f, d'))"
  shows "res = None \<and> tab_gauges (pg_view (rows d0)) n = (if f then Some v else None)"
proof -
  define I where "I = (\<lambda>s :: float64 \<times> bool \<times> 'd. \<not> fst (snd s) \<and> same d0 (snd (snd s)))"
  define G where "G = (\<lambda>r (s :: float64 \<times> bool \<times> 'd). r = (None :: goerr option)
     \<and> tab_gauges (pg_view (rows d0)) n = (if fst (snd s) then Some (fst s) else None))"
  have step: "case r of None \<Rightarrow> G r s'
      | Some e \<Rightarrow> if retryable_of (retryCfg db) e then I s' \<and> faults (snd (snd s')) < faults (snd (snd s)) else G r s'"
    if i: "I s" and a: "gauge_attempt P ctx n s = (r, s')" for s r s'
  proof -
    obtain v1 f1 d where s: "s = (v1, f1, d)" by (cases s)
    obtain rg d1 where q: "pgx_QueryGauge P ctx n d = (rg, d1)" by fastforce
    have d: "dok d" "pend d = None" "rows d = rows d0" "\<not> f1"
      using i s by (simp_all add: I_def same_def)
    note fr = QueryGauge_frame [OF d(1,2) q] and val = QueryGauge_val [OF d(1,2) live q]
    show ?thesis
      using a s q fr val i d
      by (cases rg) (auto simp: gauge_attempt_def I_def G_def same_def retryable_db [OF ok0] split: if_splits)
  qed
  have c: "retries_bounded (retryCfg db)" "I (0, False, d0)"
    "faults (snd (snd (0 :: float64, False, d0))) \<le> max_retries (retryCfg db)"
    using ok0 same_refl [OF ok0] by (simp_all add: db_ok_def I_def)
  have "G res (v, f, d')"
    by (rule retry_do_absorb [where I = I and f = "\<lambda>s. faults (snd (snd s))", OF _ live c run]) (rule step)
  then show ?thesis by (simp add: G_def)
qed

lemma counter_read_val:
  assumes ok0: "ok db d0" and live: "live_context ctx"
    and run: "retry_do ctx (retryCfg db) (counter_attempt P ctx n) (0, d0) = (res, (v, d'))"
  shows "res = None \<and> v = (case tab_counters (pg_view (rows d0)) n of None \<Rightarrow> 0 | Some x \<Rightarrow> x)"
proof -
  define I where "I = (\<lambda>s :: int64 \<times> 'd. fst s = 0 \<and> same d0 (snd s))"
  define G where "G = (\<lambda>r (s :: int64 \<times> 'd). r = (None :: goerr option)
     \<and> fst s = (case tab_counters (pg_view (rows d0)) n of None \<Rightarrow> 0 | Some x \<Rightarrow> x))"
  have step: "case r of None \<Rightarrow> G r s'
      | Some e \<Rightarrow> if retryable_of (retryCfg db) e then I s' \<and> faults (snd s') < faults (snd s) else G r s'"
    if i: "I s" and a: "counter_attempt P ctx n s = (r, s')" for s r s'
  proof -
    obtain v1 d where s: "s = (v1, d)" by (cases s)
    obtain rc d1 where q: "pgx_QueryCounter P ctx n d = (rc, d1)" by fastforce
    have d: "dok d" "pend d = None" "rows d = rows d0" "v1 = 0"
      using i s by (simp_all add: I_def same_def)
    note fr = QueryCounter_frame [OF d(1,2) q] and val = QueryCounter_val [OF d(1,2) live q]
    show ?thesis
      using a s q fr val i d
      by (cases rc) (auto simp: counter_attempt_def I_def G_def same_def retryable_db [OF ok0] split: if_splits)
  qed
  have c: "retries_bounded (retryCfg db)" "I (0, d0)" "faults (snd (0 :: int64, d0)) \<le> max_retries (retryCfg db)"
    using ok0 same_refl [OF ok0] by (simp_all add: db_ok_def I_def)
  have "G res (v, d')"
    by (rule retry_do_absorb [where I = I and f = "\<lambda>s. faults (snd s)", OF _ live c run]) (rule step)
  then show ?thesis by (simp add: G_def)
qed

subsection \<open>The contract\<close>

definition db_view :: "'d \<Rightarrow> metric_table" where
  "db_view d = pg_view (rows d)"

lemma db_UpdateGauge_spec:
  assumes "db_pool db = Some P" "ok db d" "db_UpdateGauge db ctx n v d = (res, d')"
  shows "case res of None \<Rightarrow> stepped (pg_step (gauge_metric n v)) d d' | Some e \<Rightarrow> same d d'"
proof (rule exec_retried [of "UpsertGauge n v" _ db, OF _ assms(2)])
  show "retry_do ctx (retryCfg db) (pgx_Exec P ctx (UpsertGauge n v)) d = (res, d')"
    using assms(1,3) by (simp add: db_UpdateGauge_def pool_def)
qed (rule gauge_exec)

lemma db_UpdateCounter_spec:
  assumes "db_pool db = Some P" "ok db d" "db_UpdateCounter db ctx n v d = (res, d')"
  shows "case res of None \<Rightarrow> stepped (pg_step (counter_metric n v)) d d' | Some e \<Rightarrow> same d d'"
proof (rule exec_retried [of "UpsertCounter n v" _ db, OF _ assms(2)])
  show "retry_do ctx (retryCfg db) (pgx_Exec P ctx (UpsertCounter n v)) d = (res, d')"
    using assms(1,3) by (simp add: db_UpdateCounter_def pool_def)
qed (rule counter_exec)

lemma db_UpdateMetrics_spec:
  assumes "db_pool db = Some P" "ok db d" "db_UpdateMetrics db ctx ms d = (res, d')"
  shows "case res of None \<Rightarrow> stepped (run_steps pg_step ms) d d' | Some e \<Rightarrow> same d d'"
  using batch_retried [OF assms(2)] assms(1,3) by (simp add: db_UpdateMetrics_def pool_def)

lemma db_GetGauge_spec:
  assumes "db_pool db = Some P" "ok db d" "db_GetGauge db ctx n d = (rg, d')"
  shows "same d d' \<and> (live_context ctx \<longrightarrow>
     rg = (case tab_gauges (db_view d) n of None \<Rightarrow> (0, False) | Some v \<Rightarrow> (v, True)))"
proof -
  obtain res v f d1 where run: "retry_do ctx (retryCfg db) (gauge_attempt P ctx n) (0, False, d) = (res, (v, f, d1))"
    by (metis prod_cases4)
  with assms(1,3) have "d1 = d'" "rg = (case res of Some e \<Rightarrow> (0, False) | None \<Rightarrow> if f then (v, True) else (0, False))"
    by (auto simp: db_GetGauge_def pool_def split: option.splits)
  with gauge_read_frame [OF assms(2) run] gauge_read_val [OF assms(2) _ run] show ?thesis
    by (auto simp: db_view_def)
qed

lemma db_GetCounter_spec:
  assumes "db_pool db = Some P" "ok db d" "db_GetCounter db ctx n d = (rc, d')"
  shows "same d d' \<and> (live_context ctx \<longrightarrow>
     rc = (case tab_counters (db_view d) n of None \<Rightarrow> (0, True) | Some v \<Rightarrow> (v, True)))"
proof -
  obtain res v d1 where run: "retry_do ctx (retryCfg db) (counter_attempt P ctx n) (0, d) = (res, (v, d1))"
    by (metis prod_cases3)
  with assms(1,3) have "d1 = d'" "rc = (case res of Some e \<Rightarrow> (0, False) | None \<Rightarrow> (v, True))"
    by (auto simp: db_GetCounter_def pool_def split: option.splits)
  with counter_read_frame [OF assms(2) run] counter_read_val [OF assms(2) _ run] show ?thesis
    by (auto simp: db_view_def split: option.splits)
qed

lemma db_GetAllMetrics_frame:
  assumes "db_pool db = Some P" "ok db d" "db_GetAllMetrics std db ctx d = (ra, d')"
  shows "same d d'"
proof -
  obtain res b d1 where run: "retry_do ctx (retryCfg db) (listing_attempt std P ctx) ([], d) = (res, (b, d1))"
    by (metis prod_cases3)
  with assms(1,3) have "d1 = d'" by (auto simp: db_GetAllMetrics_def pool_def split: option.splits)
  with listing_frame [OF assms(2) run] show ?thesis by simp
qed

lemma db_Ping_frame:
  assumes "db_pool db = Some P" "ok db d" "db_Ping (Some db) ctx d = (rp, d')"
  shows "same d d'"
  using assms Ping_frame [of d ctx rp d'] by (simp add: db_Ping_def same_def db_ok_def)

lemma db_storage_contract:
  assumes "db_pool db = Some P"
  shows "storage_spec (db_storage std db) pg_step live_context (ok db) db_view"
proof
  fix s s' ctx n v
  assume "ok db s" "st_UpdateGauge (db_storage std db) ctx n v s = (None, s')"
  with db_UpdateGauge_spec [OF assms, of s ctx n v None s'] show
    "ok db s' \<and> pg_step (gauge_metric n v) (db_view s) = Some (db_view s')"
    by (simp add: db_storage_sel stepped_ok db_view_def)
next
  fix s s' ctx n v e
  assume "ok db s" "st_UpdateGauge (db_storage std db) ctx n v s = (Some e, s')"
  with db_UpdateGauge_spec [OF assms, of s ctx n v "Some e" s'] show "ok db s' \<and> db_view s' = db_view s"
    by (simp add: db_storage_sel same_ok db_view_def)
next
  fix s s' ctx n v
  assume "ok db s" "st_UpdateCounter (db_storage std db) ctx n v s = (None, s')"
  with db_UpdateCounter_spec [OF assms, of s ctx n v None s'] show
    "ok db s' \<and> pg_step (counter_metric n v) (db_view s) = Some (db_view s')"
    by (simp add: db_storage_sel stepped_ok db_view_def)
next
  fix s s' ctx n v e
  assume "ok db s" "st_UpdateCounter (db_storage std db) ctx n v s = (Some e, s')"
  with db_UpdateCounter_spec [OF assms, of s ctx n v "Some e" s'] show "ok db s' \<and> db_view s' = db_view s"
    by (simp add: db_storage_sel same_ok db_view_def)
next
  fix s s' ctx ms
  assume "ok db s" "st_UpdateMetrics (db_storage std db) ctx ms s = (None, s')"
  with db_UpdateMetrics_spec [OF assms, of s ctx ms None s'] show
    "ok db s' \<and> run_steps pg_step ms (db_view s) = Some (db_view s')"
    by (simp add: db_storage_sel stepped_ok db_view_def)
next
  fix s s' ctx ms e
  assume "ok db s" "st_UpdateMetrics (db_storage std db) ctx ms s = (Some e, s')"
  with db_UpdateMetrics_spec [OF assms, of s ctx ms "Some e" s'] show "ok db s' \<and> db_view s' = db_view s"
    by (simp add: db_storage_sel same_ok db_view_def)
next
  fix s s' ctx n rg
  assume "ok db s" "st_GetGauge (db_storage std db) ctx n s = (rg, s')"
  with db_GetGauge_spec [OF assms, of s ctx n rg s'] show
    "ok db s' \<and> db_view s' = db_view s \<and> (live_context ctx \<longrightarrow>
       rg = (case tab_gauges (db_view s) n of None \<Rightarrow> (0, False) | Some v \<Rightarrow> (v, True)))"
    by (simp add: db_storage_sel same_ok db_view_def)
next
  fix s s' ctx n rc
  assume "ok db s" "st_GetCounter (db_storage std db) ctx n s = (rc, s')"
  with db_GetCounter_spec [OF assms, of s ctx n rc s'] show
    "ok db s' \<and> db_view s' = db_view s \<and> (\<forall>d. live_context ctx \<longrightarrow> tab_counters (db_view s) n = Some d \<longrightarrow> rc = (d, True))"
    by (simp add: db_storage_sel same_ok db_view_def)
next
  fix s s' ctx ra
  assume "ok db s" "st_GetAllMetrics (db_storage std db) ctx s = (ra, s')"
  with db_GetAllMetrics_frame [OF assms, of s std ctx ra s'] show "ok db s' \<and> db_view s' = db_view s"
    by (simp add: db_storage_sel same_ok db_view_def)
next
  fix s s' ctx rp
  assume "ok db s" "st_Ping (db_storage std db) ctx s = (rp, s')"
  with db_Ping_frame [OF assms, of s ctx rp s'] show "ok db s' \<and> db_view s' = db_view s"
    by (simp add: db_storage_sel same_ok db_view_def)
qed

end

end
