(* ===== verification/PgScript.thy ===== *)
theory PgScript
  imports Postgres "HOL-Library.List_Lexorder" "HOL-Library.Char_ord"
begin

text \<open>
  A database that keeps the laws of the driver: the table of the migration, one connection with
  at most one transaction, and a script that decides how the next calls fail. The listing is in
  the order of the primary key.
\<close>

datatype fault = Pass | FailBefore goerr | FailAfter goerr

record pg =
  pg_rows :: pg_table
  pg_tx :: "pg_table option"
  pg_script :: "fault list"

definition with_fault :: "(goerr \<Rightarrow> 'r) \<Rightarrow> (pg \<Rightarrow> 'r \<times> pg) \<Rightarrow> pg \<Rightarrow> 'r \<times> pg" where
  "with_fault mk call d =
     (case pg_script d of
        [] \<Rightarrow> call d
      | f # fs \<Rightarrow>
          (let d1 = d\<lparr>pg_script := fs\<rparr> in
           case f of
             Pass \<Rightarrow> call d1
           | FailBefore e \<Rightarrow> (mk e, d1)
           | FailAfter e \<Rightarrow> (mk e, snd (call d1))))"

definition pg_exec :: "sql \<Rightarrow> pg operation" where
  "pg_exec q d = (case sql_exec q (pg_rows d) of Inl e \<Rightarrow> (Some e, d) | Inr t \<Rightarrow> (None, d\<lparr>pg_rows := t\<rparr>))"

definition pg_begin :: "pg operation" where
  "pg_begin d = (None, d\<lparr>pg_tx := Some (pg_rows d)\<rparr>)"

definition pg_tx_exec :: "sql \<Rightarrow> pg operation" where
  "pg_tx_exec q d =
     (case pg_tx d of
        None \<Rightarrow> (Some (ErrorString ''tx is closed''), d)
      | Some t \<Rightarrow>
          (case sql_exec q t of Inl e \<Rightarrow> (Some e, d) | Inr t' \<Rightarrow> (None, d\<lparr>pg_tx := Some t'\<rparr>)))"

definition pg_commit :: "pg operation" where
  "pg_commit d =
     (case pg_tx d of
        None \<Rightarrow> (Some (ErrorString ''tx is closed''), d)
      | Some t \<Rightarrow> (None, d\<lparr>pg_rows := t, pg_tx := None\<rparr>))"

definition pg_rollback :: "pg operation" where
  "pg_rollback d =
     (case pg_tx d of
        None \<Rightarrow> (Some (ErrorString ''tx is closed''), d)
      | Some t \<Rightarrow> (None, d\<lparr>pg_tx := None\<rparr>))"

definition pg_gauge :: "bytes \<Rightarrow> pg \<Rightarrow> (goerr + float64) \<times> pg" where
  "pg_gauge n d = (case tab_gauges (pg_view (pg_rows d)) n of None \<Rightarrow> Inl ErrNoRows | Some v \<Rightarrow> Inr v, d)"

definition pg_counter :: "bytes \<Rightarrow> pg \<Rightarrow> (goerr + int64) \<times> pg" where
  "pg_counter n d = (case tab_counters (pg_view (pg_rows d)) n of None \<Rightarrow> Inl ErrNoRows | Some v \<Rightarrow> Inr v, d)"

definition key_order :: "pg_table \<Rightarrow> bytes list" where
  "key_order t = sorted_list_of_set (dom t)"

lemma key_order_ok: "finite (dom t) \<Longrightarrow> map_order t (key_order t)"
  by (simp add: map_order_def key_order_def)

text \<open>A listing query that fails has sent one row before the connection was lost.\<close>

definition pg_all :: "pg \<Rightarrow> (goerr + (goerr + scanned_row) list \<times> goerr option) \<times> pg" where
  "pg_all d = (Inr (map (Inr \<circ> scan_row) (map_range (pg_rows d) (key_order (pg_rows d))), None), d)"

definition pg_all_lost :: "pg \<Rightarrow> goerr \<Rightarrow> goerr + (goerr + scanned_row) list \<times> goerr option" where
  "pg_all_lost d e =
     Inr (take 1 (map (Inr \<circ> scan_row) (map_range (pg_rows d) (key_order (pg_rows d)))), Some e)"

definition pg_driver :: "pg pgx" where
  "pg_driver =
     \<lparr>pgx_Exec = (\<lambda>ctx q. with_fault Some (pg_exec q)),
      pgx_QueryGauge = (\<lambda>ctx n. with_fault Inl (pg_gauge n)),
      pgx_QueryCounter = (\<lambda>ctx n. with_fault Inl (pg_counter n)),
      pgx_QueryAll = (\<lambda>ctx d. with_fault (pg_all_lost d) (pg_all) d),
      pgx_Begin = (\<lambda>ctx. with_fault Some pg_begin),
      tx_Exec = (\<lambda>ctx q. with_fault Some (pg_tx_exec q)),
      tx_Commit = (\<lambda>ctx. with_fault Some pg_commit),
      tx_Rollback = (\<lambda>ctx. pg_rollback),
      pgx_Ping = (\<lambda>ctx. with_fault Some (Pair None)),
      pgx_Close = (\<lambda>d. d)\<rparr>"

section \<open>It keeps the laws\<close>

definition is_fail :: "fault \<Rightarrow> bool" where
  "is_fail f \<longleftrightarrow> f \<noteq> Pass"

definition clean_fault :: "fault \<Rightarrow> bool" where
  "clean_fault f =
     (case f of Pass \<Rightarrow> True | FailBefore e \<Rightarrow> isConnectionError e \<and> \<not> errors_Is_no_rows e | FailAfter e \<Rightarrow> False)"

definition pg_ok :: "pg \<Rightarrow> bool" where
  "pg_ok d \<longleftrightarrow> list_all clean_fault (pg_script d) \<and> finite (dom (pg_rows d))
     \<and> (case pg_tx d of None \<Rightarrow> True | Some t \<Rightarrow> finite (dom t))"

definition pg_faults :: "pg \<Rightarrow> nat" where
  "pg_faults d = length (filter is_fail (pg_script d))"

lemma with_fault_cases:
  assumes "with_fault mk call d = (r, d')" "pg_ok d"
  obtains (ran) fs where "call (d\<lparr>pg_script := fs\<rparr>) = (r, d')" "list_all clean_fault fs"
      "length (filter is_fail fs) \<le> pg_faults d"
  | (failed) e fs where "r = mk e" "d' = d\<lparr>pg_script := fs\<rparr>" "list_all clean_fault fs"
      "length (filter is_fail fs) < pg_faults d" "isConnectionError e" "\<not> errors_Is_no_rows e"
proof (cases "pg_script d")
  case Nil
  then have same: "d\<lparr>pg_script := []\<rparr> = d" by (cases d) simp
  have "call d = (r, d')" using Nil assms(1) by (simp add: with_fault_def)
  then show thesis by (intro ran [of "[]"]) (simp_all add: same)
next
  case (Cons f fs)
  show thesis
  proof (cases f)
    case Pass
    with assms Cons show thesis
      by (intro ran [of fs]) (simp_all add: with_fault_def pg_ok_def pg_faults_def is_fail_def)
  next
    case (FailBefore e)
    with assms Cons show thesis
      by (intro failed [of e fs]) (simp_all add: with_fault_def pg_ok_def pg_faults_def is_fail_def clean_fault_def)
  next
    case (FailAfter e)
    with assms Cons show thesis by (simp add: pg_ok_def clean_fault_def)
  qed
qed

lemmas pg_calls = pg_driver_def pg_exec_def pg_begin_def pg_tx_exec_def pg_commit_def pg_rollback_def
  pg_gauge_def pg_counter_def pg_all_def

lemma no_rows_not_connection: "\<not> isConnectionError ErrNoRows"
  by (simp add: isConnectionError_def)

lemma final_errors: "\<not> isConnectionError check_violation" "\<not> isConnectionError out_of_range"
  by (simp_all add: isConnectionError_PgError connection_codes_def check_violation_def out_of_range_def)

lemma put_row_Inl: "put_row n r t = Inl e \<Longrightarrow> e = check_violation"
  by (simp add: put_row_def split: if_splits)

lemma put_row_Inr: "put_row n r t = Inr t' \<Longrightarrow> dom t' = insert n (dom t)"
  by (auto simp: put_row_def split: if_splits)

lemma sql_errors_final: "sql_exec q t = Inl e \<Longrightarrow> \<not> isConnectionError e"
  using final_errors
  by (cases q) (auto simp: upsert_gauge_def upsert_counter_def dest: put_row_Inl split: if_splits option.splits)

lemma sql_exec_finite: "sql_exec q t = Inr t' \<Longrightarrow> finite (dom t) \<Longrightarrow> finite (dom t')"
  by (cases q) (auto simp: upsert_gauge_def upsert_counter_def dest: put_row_Inr split: if_splits option.splits)

lemma closed_not_connection: "\<not> isConnectionError (ErrorString ''tx is closed'')"
  by (simp add: isConnectionError_def)

lemma pg_Exec_law:
  assumes "pg_ok d" "pg_tx d = None" "with_fault Some (pg_exec q) d = (res, d')"
  shows "pg_ok d' \<and> pg_tx d' = None \<and> pg_faults d' \<le> pg_faults d
     \<and> (case res of None \<Rightarrow> sql_exec q (pg_rows d) = Inr (pg_rows d')
         | Some e \<Rightarrow> pg_rows d' = pg_rows d \<and> (isConnectionError e \<longrightarrow> pg_faults d' < pg_faults d))"
  using assms(3,1)
proof (cases rule: with_fault_cases)
  case (ran fs)
  with assms(1,2) show ?thesis
    by (auto simp: pg_exec_def pg_ok_def pg_faults_def sql_exec_finite sql_errors_final split: sum.splits)
next
  case (failed e fs)
  with assms(1,2) show ?thesis by (simp add: pg_ok_def pg_faults_def)
qed

lemma pg_Begin_law:
  assumes "pg_ok d" "pg_tx d = None" "with_fault Some pg_begin d = (res, d')"
  shows "pg_ok d' \<and> pg_rows d' = pg_rows d \<and> pg_faults d' \<le> pg_faults d
     \<and> pg_tx d' = (case res of None \<Rightarrow> Some (pg_rows d) | Some e \<Rightarrow> None)"
  using assms(3,1)
proof (cases rule: with_fault_cases)
  case (ran fs)
  with assms(1,2) show ?thesis by (auto simp: pg_begin_def pg_ok_def pg_faults_def)
next
  case (failed e fs)
  with assms(1,2) show ?thesis by (simp add: pg_ok_def pg_faults_def)
qed

lemma pg_tx_Exec_law:
  assumes "pg_ok d" "pg_tx d = Some t" "with_fault Some (pg_tx_exec q) d = (res, d')"
  shows "pg_ok d' \<and> pg_rows d' = pg_rows d \<and> pg_faults d' \<le> pg_faults d
     \<and> (res = None \<longrightarrow> (\<exists>t'. sql_exec q t = Inr t' \<and> pg_tx d' = Some t'))"
  using assms(3,1)
proof (cases rule: with_fault_cases)
  case (ran fs)
  with assms(1,2) show ?thesis
    by (auto simp: pg_tx_exec_def pg_ok_def pg_faults_def sql_exec_finite split: sum.splits)
next
  case (failed e fs)
  with assms(1,2) show ?thesis by (simp add: pg_ok_def pg_faults_def)
qed

lemma pg_Commit_law:
  assumes "pg_ok d" "pg_tx d = Some t" "with_fault Some pg_commit d = (res, d')"
  shows "pg_ok d' \<and> pg_faults d' \<le> pg_faults d \<and> pg_rows d' = (case res of None \<Rightarrow> t | Some e \<Rightarrow> pg_rows d)"
  using assms(3,1)
proof (cases rule: with_fault_cases)
  case (ran fs)
  with assms(1,2) show ?thesis by (auto simp: pg_commit_def pg_ok_def pg_faults_def)
next
  case (failed e fs)
  with assms(1,2) show ?thesis by (simp add: pg_ok_def pg_faults_def)
qed

lemma pg_query_law:
  assumes "pg_ok d" "pg_tx d = None" "with_fault mk q d = (x, d')"
    and "\<And>d x d'. q d = (x, d') \<Longrightarrow> d' = d"
  shows "pg_ok d' \<and> pg_tx d' = None \<and> pg_rows d' = pg_rows d \<and> pg_faults d' \<le> pg_faults d"
  using assms(3,1)
proof (cases rule: with_fault_cases)
  case (ran fs)
  with assms(4) have "d' = d\<lparr>pg_script := fs\<rparr>" by blast
  with ran assms(1,2) show ?thesis by (simp add: pg_ok_def pg_faults_def)
next
  case (failed e fs)
  with assms(1,2) show ?thesis by (simp add: pg_ok_def pg_faults_def)
qed

lemma pg_value_law:
  assumes "pg_ok d" "with_fault Inl q d = (x, d')"
    and "\<And>d. q d = (case f (pg_rows d) of None \<Rightarrow> Inl ErrNoRows | Some v \<Rightarrow> Inr v, d)"
  shows "case x of Inr v \<Rightarrow> f (pg_rows d) = Some v
     | Inl e \<Rightarrow> if isConnectionError e then \<not> errors_Is_no_rows e \<and> pg_faults d' < pg_faults d
          else errors_Is_no_rows e \<and> f (pg_rows d) = None"
  using assms(2,1)
proof (cases rule: with_fault_cases)
  case (ran fs)
  with assms(3) show ?thesis by (auto simp: no_rows_not_connection split: option.splits)
next
  case (failed e fs)
  then show ?thesis by (simp add: pg_faults_def)
qed

lemma pg_listing_law:
  assumes "pg_ok d" "with_fault (pg_all_lost d) pg_all d = (Inr (rs, None), d')"
  shows "\<exists>ord. map_order (pg_rows d) ord \<and> rs = map (Inr \<circ> scan_row) (map_range (pg_rows d) ord)"
  using assms(2,1)
proof (cases rule: with_fault_cases)
  case (ran fs)
  with assms(1) show ?thesis
    by (intro exI [of _ "key_order (pg_rows d)"]) (auto simp: pg_all_def pg_ok_def key_order_ok)
next
  case (failed e fs)
  then show ?thesis by (simp add: pg_all_lost_def)
qed

lemma pg_driver_sel [simp]:
  "pgx_Exec pg_driver ctx q = with_fault Some (pg_exec q)"
  "pgx_QueryGauge pg_driver ctx n = with_fault Inl (pg_gauge n)"
  "pgx_QueryCounter pg_driver ctx n = with_fault Inl (pg_counter n)"
  "pgx_QueryAll pg_driver ctx d = with_fault (pg_all_lost d) pg_all d"
  "pgx_Begin pg_driver ctx = with_fault Some pg_begin"
  "tx_Exec pg_driver ctx q = with_fault Some (pg_tx_exec q)"
  "tx_Commit pg_driver ctx = with_fault Some pg_commit"
  "tx_Rollback pg_driver ctx = pg_rollback"
  "pgx_Ping pg_driver ctx = with_fault Some (Pair None)"
  by (simp_all add: pg_driver_def)

interpretation pgs: pgx_driver pg_driver pg_ok pg_rows pg_tx pg_faults
proof (unfold_locales, goal_cases)
  case (1 d ctx q res d')
  show ?case by (rule pg_Exec_law [OF 1(1,2) 1(3) [unfolded pg_driver_sel]])
next
  case (2 d ctx res d')
  show ?case by (rule pg_Begin_law [OF 2(1,2) 2(3) [unfolded pg_driver_sel]])
next
  case (3 d t ctx q res d')
  show ?case by (rule pg_tx_Exec_law [OF 3(1,2) 3(3) [unfolded pg_driver_sel]])
next
  case (4 d t ctx res d')
  show ?case by (rule pg_Commit_law [OF 4(1,2) 4(3) [unfolded pg_driver_sel]])
next
  case (5 d ctx res d')
  then show ?case by (auto simp: pg_rollback_def pg_ok_def pg_faults_def split: option.splits)
next
  case (6 d ctx n rg d')
  show ?case by (rule pg_query_law [of d "Inl" "pg_gauge n" rg]) (use 6 in \<open>simp_all only: pg_driver_sel pg_gauge_def prod.inject\<close>)
next
  case (7 d ctx n rg d')
  show ?case
    by (rule pg_value_law [of d "pg_gauge n" rg d' "\<lambda>t. tab_gauges (pg_view t) n"])
      (use 7 in \<open>simp_all only: pg_driver_sel pg_gauge_def prod.inject\<close>)
next
  case (8 d ctx n rc d')
  show ?case by (rule pg_query_law [of d "Inl" "pg_counter n" rc]) (use 8 in \<open>simp_all only: pg_driver_sel pg_counter_def prod.inject\<close>)
next
  case (9 d ctx n rc d')
  show ?case
    by (rule pg_value_law [of d "pg_counter n" rc d' "\<lambda>t. tab_counters (pg_view t) n"])
      (use 9 in \<open>simp_all only: pg_driver_sel pg_counter_def prod.inject\<close>)
next
  case (10 d ctx rs d')
  show ?case by (rule pg_listing_law [OF 10(1) 10(3) [unfolded pg_driver_sel]])
next
  case (11 d ctx ra d')
  show ?case
    by (rule pg_query_law [of d "pg_all_lost d" pg_all ra]) (use 11 in \<open>simp_all only: pg_driver_sel pg_all_def prod.inject\<close>)
next
  case (12 d ctx rp d')
  show ?case
    by (rule pg_query_law [of d Some "Pair None" rp]) (use 12 in \<open>simp_all only: pg_driver_sel prod.inject\<close>)
qed

text \<open>The storage of the repository over this database keeps the contract of a storage.\<close>

definition script_db :: "retry_config \<Rightarrow> pg dbstorage" where
  "script_db c = \<lparr>db_pool = Some pg_driver, retryCfg = c\<rparr>"

interpretation pgdb: storage_spec "db_storage std (script_db c)" pg_step live_context
  "db_ok pg_ok pg_rows pg_tx pg_faults (script_db c)" "pgs.db_view"
  by (rule pgs.db_storage_contract) (simp add: script_db_def)

end
