(* ===== verification/DbApi.thy ===== *)
theory DbApi
  imports PgScript ServerApi
begin

text \<open>
  What the database storage does over any driver that keeps the laws (\<open>pgx_driver\<close>), and where
  it differs from the in-memory storage. Each property has the laws as a hypothesis and is
  applied, in its witness, to the scripted database.
\<close>

definition pg_std :: go_std where
  "pg_std = sample_std JNull"

definition ten_sec :: "duration list" where
  "ten_sec = [Second, 3 * Second, 5 * Second]"

definition pg_cfg :: retry_config where
  "pg_cfg = \<lparr>MaxRetries = 3, Delays = Some ten_sec, IsRetryableFn = Some isConnectionError\<rparr>"

definition refused :: goerr where
  "refused = ErrorString ''connection refused''"

lemma refused_connection [simp]: "isConnectionError refused" "\<not> errors_Is_no_rows refused"
  by (simp_all add: isConnectionError_def refused_def)

definition sample_rows :: pg_table where
  "sample_rows =
     [''c'' \<mapsto> \<lparr>row_type = PgCounter, row_delta = Some 5, row_value = None\<rparr>,
      ''g'' \<mapsto> \<lparr>row_type = PgGauge, row_delta = None, row_value = Some f64_one\<rparr>]"

definition sample_pg :: "fault list \<Rightarrow> pg" where
  "sample_pg script = \<lparr>pg_rows = sample_rows, pg_tx = None, pg_script = script\<rparr>"

abbreviation "pg_db_ok \<equiv> db_ok pg_ok pg_rows pg_tx pg_faults (script_db pg_cfg)"

lemma pg_cfg_simps [simp]:
  "retries_bounded pg_cfg" "max_retries pg_cfg = 3" "IsRetryableFn pg_cfg = Some isConnectionError"
  by (simp_all add: retries_bounded_def max_retries_def pg_cfg_def)

lemma script_db_simps [simp]:
  "db_pool (script_db c) = Some pg_driver" "retryCfg (script_db c) = c"
  by (simp_all add: script_db_def)

lemma live_background [simp]: "live_context background"
  by (simp add: live_context_def background_def)

lemma sample_rows_ok: "rows_ok sample_rows" "finite (dom sample_rows)"
  by (auto simp: rows_ok_def ran_def sample_rows_def chk_metric_def split: if_splits)

lemma sample_pg_ok:
  "list_all clean_fault script \<Longrightarrow> length (filter is_fail script) \<le> 3 \<Longrightarrow> pg_db_ok (sample_pg script)"
  by (simp add: db_ok_def pg_ok_def sample_pg_def pg_faults_def sample_rows_ok)

lemma sample_pg_view:
  "tab_gauges (pg_view (pg_rows (sample_pg script))) = [''g'' \<mapsto> f64_one]"
  "tab_counters (pg_view (pg_rows (sample_pg script))) = [''c'' \<mapsto> 5]"
  by (auto simp: pg_view_def sample_pg_def sample_rows_def)

section \<open>Updates\<close>


text \<open>The connection fails in the second statement and again at the commit.\<close>

definition failing_batch :: "fault list" where
  "failing_batch = [Pass, Pass, FailBefore refused, Pass, Pass, Pass, FailBefore refused]"


text \<open>
  A name has one type in the database. A counter update for a name that holds a gauge
  returns nil and changes nothing at all, so the delta is lost without a trace; a gauge update for
  a name that holds a counter fails. In memory both succeed and the two metrics live side by
  side.
\<close>

theorem db_update_of_other_type:
  assumes "pgx_driver P dok rows pend faults" "db_pool db = Some P" "db_ok dok rows pend faults db d"
    and "db_UpdateCounter db ctx n x d = (res, d')" "db_UpdateGauge db ctx n v d = (res2, d2)"
  shows "(tab_gauges (pg_view (rows d)) n \<noteq> None \<longrightarrow> pg_view (rows d') = pg_view (rows d))
    \<and> (tab_counters (pg_view (rows d)) n \<noteq> None \<longrightarrow> res2 \<noteq> None \<and> rows d2 = rows d)"
  using pgx_driver.db_UpdateCounter_spec [OF assms(1-4)] pgx_driver.db_UpdateGauge_spec [OF assms(1-3,5)]
  by (auto simp: pgx_driver.stepped_def [OF assms(1)] pgx_driver.same_def [OF assms(1)] pg_step_def
      split: option.splits if_splits)

lemma no_fault_exec:
  "retry_do ctx pg_cfg (with_fault Some (pg_exec q)) (sample_pg []) =
     (case sql_exec q sample_rows of
        Inl e \<Rightarrow> (Some e, sample_pg [])
      | Inr t \<Rightarrow> (None, (sample_pg [])\<lparr>pg_rows := t\<rparr>))"
proof (cases "sql_exec q sample_rows")
  case (Inl e)
  then show ?thesis
    using sql_errors_final [OF Inl]
    by (simp add: retry_do_final with_fault_def pg_exec_def sample_pg_def retryable_of_def)
next
  case (Inr t)
  then show ?thesis by (simp add: retry_do_once with_fault_def pg_exec_def sample_pg_def)
qed

theorem db_update_of_other_type_witness:
  "fst (db_UpdateCounter (script_db pg_cfg) background ''g'' 7 (sample_pg [])) = None
   \<and> pg_view (pg_rows (snd (db_UpdateCounter (script_db pg_cfg) background ''g'' 7 (sample_pg []))))
       = pg_view (pg_rows (sample_pg []))
   \<and> fst (db_UpdateGauge (script_db pg_cfg) background ''c'' 0 (sample_pg [])) \<noteq> None"
proof -
  have "fst (db_UpdateCounter (script_db pg_cfg) background ''g'' 7 (sample_pg [])) = None"
    by (simp add: db_UpdateCounter_def pool_def no_fault_exec upsert_counter_def sample_rows_def put_row_def chk_metric_def)
  moreover note db_update_of_other_type [where ctx = background and n = "''g''" and x = 7 and v = 0,
      OF pgs.pgx_driver_axioms script_db_simps(1) sample_pg_ok [of "[]"] surjective_pairing surjective_pairing]
    db_update_of_other_type [where ctx = background and n = "''c''" and x = 7 and v = 0,
      OF pgs.pgx_driver_axioms script_db_simps(1) sample_pg_ok [of "[]"] surjective_pairing surjective_pairing]
  ultimately show ?thesis by (simp add: sample_pg_view)
qed

text \<open>
  C31. A retry after a lost acknowledgement counts twice: when the connection breaks after the
  server has executed the update, the storage repeats the statement, reports success, and the
  counter has grown by twice the delta.
\<close>

theorem db_lost_ack_counts_twice:
  assumes "db_pool db = Some P" "retries_bounded (retryCfg db)" "1 \<le> max_retries (retryCfg db)"
    "IsRetryableFn (retryCfg db) = Some isConnectionError" "live_context ctx"
    and "pgx_Exec P ctx (UpsertCounter n x) d = (Some e, dm)" "isConnectionError e"
    and "pgx_Exec P ctx (UpsertCounter n x) dm = (None, de)"
    and "sql_exec (UpsertCounter n x) (rows d) = Inr (rows dm)"
    and "sql_exec (UpsertCounter n x) (rows dm) = Inr (rows de)"
    and "rows d n = Some \<lparr>row_type = PgCounter, row_delta = Some c, row_value = None\<rparr>"
  shows "db_UpdateCounter db ctx n x d = (None, de) \<and> tab_counters (pg_view (rows de)) n = Some (c + x + x)"
proof
  show "db_UpdateCounter db ctx n x d = (None, de)"
    using retry_do_second [OF assms(2,5,3,6) _ assms(8)] assms(1,4,7)
    by (simp add: db_UpdateCounter_def pool_def retryable_of_def)
  have "rows dm = (rows d)(n \<mapsto> \<lparr>row_type = PgCounter, row_delta = Some (c + x), row_value = None\<rparr>)"
    using assms(9,11) by (auto simp: upsert_counter_def put_row_def split: if_splits)
  then have "rows dm n = Some \<lparr>row_type = PgCounter, row_delta = Some (c + x), row_value = None\<rparr>"
    by simp
  then have "rows de = (rows dm)(n \<mapsto> \<lparr>row_type = PgCounter, row_delta = Some (c + x + x), row_value = None\<rparr>)"
    using assms(10) by (auto simp: upsert_counter_def put_row_def split: if_splits)
  then show "tab_counters (pg_view (rows de)) n = Some (c + x + x)"
    by (simp add: pg_view_def)
qed

definition lost_ack :: "fault list" where
  "lost_ack = [FailAfter refused]"

theorem db_lost_ack_counts_twice_witness:
  "\<exists>d2. db_UpdateCounter (script_db pg_cfg) background ''c'' 10 (sample_pg lost_ack) = (None, d2)
     \<and> tab_counters (pg_view (pg_rows d2)) ''c'' = Some 25"
proof -
  define d1 where "d1 = snd (pg_exec (UpsertCounter ''c'' 10) (sample_pg []))"
  define d2 where "d2 = snd (pg_exec (UpsertCounter ''c'' 10) d1)"
  have t1: "sql_exec (UpsertCounter ''c'' 10) sample_rows =
      Inr (sample_rows(''c'' \<mapsto> \<lparr>row_type = PgCounter, row_delta = Some 15, row_value = None\<rparr>))"
    by (simp add: upsert_counter_def put_row_def sample_rows_def chk_metric_def add_overflows_def)
  have r1: "pg_rows d1 = sample_rows(''c'' \<mapsto> \<lparr>row_type = PgCounter, row_delta = Some 15, row_value = None\<rparr>)"
      "pg_script d1 = []"
    using t1 by (simp_all add: d1_def pg_exec_def sample_pg_def)
  have t2: "sql_exec (UpsertCounter ''c'' 10) (pg_rows d1) =
      Inr (sample_rows(''c'' \<mapsto> \<lparr>row_type = PgCounter, row_delta = Some 25, row_value = None\<rparr>))"
    by (simp add: r1 upsert_counter_def put_row_def chk_metric_def add_overflows_def)
  have e1: "with_fault Some (pg_exec (UpsertCounter ''c'' 10)) (sample_pg lost_ack) = (Some refused, d1)"
    by (simp add: with_fault_def sample_pg_def lost_ack_def d1_def Let_def)
  have e2: "with_fault Some (pg_exec (UpsertCounter ''c'' 10)) d1 = (None, d2)"
    using t2 r1(2) by (simp add: with_fault_def d2_def pg_exec_def)
  have r2: "pg_rows d2 = sample_rows(''c'' \<mapsto> \<lparr>row_type = PgCounter, row_delta = Some 25, row_value = None\<rparr>)"
    using t2 by (simp add: d2_def pg_exec_def)
  have "db_UpdateCounter (script_db pg_cfg) background ''c'' 10 (sample_pg lost_ack) = (None, d2)
      \<and> tab_counters (pg_view (pg_rows d2)) ''c'' = Some (5 + 10 + 10)"
    by (rule db_lost_ack_counts_twice [where P = pg_driver and ctx = background and e = refused and dm = d1 and rows = pg_rows])
      (use e1 e2 t1 t2 r1 r2 in \<open>simp_all only: script_db_simps pg_cfg_simps pg_driver_sel live_background refused_connection,
        simp_all add: sample_pg_def sample_rows_def\<close>)
  then show ?thesis by auto
qed

section \<open>Reads\<close>


definition three_failures :: "fault list" where
  "three_failures = [FailBefore refused, FailBefore refused, FailBefore refused]"


section \<open>The listing\<close>

lemma rows_loop_scanned: "rows_loop std (map Inr rs) b = (None, b @ concat (map (db_line std) rs))"
  by (induction rs arbitrary: b) simp_all

definition open_list :: bytes where "open_list = ''<ul>'' @ nl"
definition close_list :: bytes where "close_list = ''</ul>'' @ nl"

lemma listing_attempt_ok:
  assumes "pgx_QueryAll P ctx d = (Inr (map Inr rs, None), d')"
  shows "listing_attempt std P ctx (b, d) =
    (if rs = [] then (Some (ErrorString ''no metrics found''), (b @ open_list, d'))
     else (None, (b @ open_list @ concat (map (db_line std) rs) @ close_list, d')))"
  using assms by (simp add: listing_attempt_def rows_loop_scanned open_list_def close_list_def)

lemma listing_attempt_lost:
  assumes "pgx_QueryAll P ctx d = (Inr (map Inr rs, Some e), d')"
  shows "listing_attempt std P ctx (b, d) =
    (Some (WrapError ''row iteration error: '' e), (b @ open_list @ concat (map (db_line std) rs), d'))"
  using assms by (simp add: listing_attempt_def rows_loop_scanned open_list_def)

lemma zero_char: "(char_of (48 :: nat)) = CHR ''0''"
  by code_simp

lemma no_metrics_final: "\<not> isConnectionError (ErrorString ''no metrics found'')"
  by (simp add: isConnectionError_def)

text \<open>
  When the listing query succeeds at the first attempt, the listing has one line for every
  row of the table and nothing else; over an empty table it is an error.
\<close>

theorem db_listing_shows_every_row:
  assumes "pgx_driver P dok rows pend faults" "db_pool db = Some P" "db_ok dok rows pend faults db d"
    and "pgx_QueryAll P ctx d = (Inr (rs, None), d')"
  shows "\<exists>ord. map_order (rows d) ord \<and>
    db_GetAllMetrics std db ctx d =
      (if rows d = Map.empty then Inl (ErrorString ''no metrics found'')
       else Inr (open_list @ concat (map (db_line std \<circ> scan_row) (map_range (rows d) ord)) @ close_list), d')"
proof -
  have c: "dok d" "pend d = None" "retries_bounded (retryCfg db)" "retryable_of (retryCfg db) = isConnectionError"
    using assms(3) by (simp_all add: db_ok_def retryable_of_def)
  from pgx_driver.QueryAll_val [OF assms(1) c(1,2) assms(4)] obtain ord where
    ord: "map_order (rows d) ord" and rs: "rs = map Inr (map scan_row (map_range (rows d) ord))"
    by auto
  have att: "listing_attempt std P ctx ([], d) =
      (if rows d = Map.empty then (Some (ErrorString ''no metrics found''), (open_list, d'))
       else (None, (open_list @ concat (map (db_line std \<circ> scan_row) (map_range (rows d) ord)) @ close_list, d')))"
    using listing_attempt_ok [of P ctx d "map scan_row (map_range (rows d) ord)" d' std "[]"] assms(4) rs
    by (simp add: map_range_nonempty [OF ord])
  show ?thesis
  proof (intro exI conjI)
    show "db_GetAllMetrics std db ctx d =
      (if rows d = Map.empty then Inl (ErrorString ''no metrics found'')
       else Inr (open_list @ concat (map (db_line std \<circ> scan_row) (map_range (rows d) ord)) @ close_list), d')"
    proof (cases "rows d = Map.empty")
      case True
      have "retry_do ctx (retryCfg db) (listing_attempt std P ctx) ([], d) =
          (Some (ErrorString ''no metrics found''), (open_list, d'))"
        by (rule retry_do_final [OF c(3)]) (simp_all add: att True c(4) no_metrics_final)
      with True assms(2) show ?thesis by (simp add: db_GetAllMetrics_def pool_def)
    next
      case False
      have "retry_do ctx (retryCfg db) (listing_attempt std P ctx) ([], d) =
          (None, (open_list @ concat (map (db_line std \<circ> scan_row) (map_range (rows d) ord)) @ close_list, d'))"
        by (rule retry_do_once [OF c(3)]) (simp add: att False)
      with False assms(2) show ?thesis by (simp add: db_GetAllMetrics_def pool_def)
    qed
  qed (rule ord)
qed

lemma sample_all:
  "pgx_QueryAll pg_driver ctx (sample_pg []) =
     (Inr (map (Inr \<circ> scan_row) (map_range sample_rows (key_order sample_rows)), None), sample_pg [])"
  by (simp add: with_fault_def pg_all_def sample_pg_def)

lemma sample_pg_rows: "pg_rows (sample_pg script) = sample_rows"
  by (simp add: sample_pg_def)

theorem db_listing_shows_every_row_witness:
  "\<exists>ord. map_order sample_rows ord \<and>
    db_GetAllMetrics pg_std (script_db pg_cfg) background (sample_pg []) =
      (if sample_rows = Map.empty then Inl (ErrorString ''no metrics found'')
       else Inr (open_list @ concat (map (db_line pg_std \<circ> scan_row) (map_range sample_rows ord)) @ close_list),
       sample_pg [])"
proof -
  have ok: "pg_db_ok (sample_pg [])" by (rule sample_pg_ok) simp_all
  from db_listing_shows_every_row [OF pgs.pgx_driver_axioms script_db_simps(1) ok sample_all, of pg_std]
  show ?thesis by (simp only: sample_pg_rows)
qed

text \<open>
  The builder of the listing is not reset between attempts: when the connection is lost
  while rows are read and the next attempt succeeds, the answer is a success whose text starts
  with the rows of the failed attempt, in a list that is never closed, before the complete list.
\<close>

theorem db_listing_retry_duplicates:
  assumes "db_pool db = Some P" "retries_bounded (retryCfg db)" "1 \<le> max_retries (retryCfg db)"
    "IsRetryableFn (retryCfg db) = Some isConnectionError" "live_context ctx"
    and "pgx_QueryAll P ctx d = (Inr (map Inr rs1, Some e), dm)" "isConnectionError (WrapError ''row iteration error: '' e)"
    and "pgx_QueryAll P ctx dm = (Inr (map Inr rs2, None), de)" "rs2 \<noteq> []"
  shows "db_GetAllMetrics std db ctx d =
    (Inr (open_list @ concat (map (db_line std) rs1)
          @ open_list @ concat (map (db_line std) rs2) @ close_list), de)"
proof -
  have "retry_do ctx (retryCfg db) (listing_attempt std P ctx) ([], d) =
      (None, (open_list @ concat (map (db_line std) rs1) @ open_list @ concat (map (db_line std) rs2) @ close_list, de))"
    by (rule retry_do_second [OF assms(2,5,3)], rule listing_attempt_lost [OF assms(6)])
      (simp_all add: assms(4,7,9) retryable_of_def listing_attempt_ok [OF assms(8)])
  then show ?thesis by (simp add: db_GetAllMetrics_def pool_def assms(1))
qed

definition lost_rows :: "fault list" where
  "lost_rows = [FailBefore refused]"

lemma sample_keys: "key_order sample_rows = [''c'', ''g'']"
proof -
  have "dom sample_rows = {''c'', ''g''}" by (auto simp: sample_rows_def)
  then show ?thesis by (simp add: key_order_def less_char_def)
qed

definition c_row :: scanned_row where "c_row = (''c'', ''counter'', Some 5, None)"
definition g_row :: scanned_row where "g_row = (''g'', ''gauge'', None, Some f64_one)"

lemma sample_scanned: "map scan_row (map_range sample_rows (key_order sample_rows)) = [c_row, g_row]"
  unfolding sample_keys by (simp add: sample_rows_def scan_row_def type_text_def c_row_def g_row_def)

theorem db_listing_retry_duplicates_witness:
  "db_GetAllMetrics pg_std (script_db pg_cfg) background (sample_pg lost_rows) =
    (Inr (open_list @ db_line pg_std c_row
          @ open_list @ db_line pg_std c_row @ db_line pg_std g_row @ close_list), sample_pg [])"
proof -
  have eq: "map (Inr \<circ> scan_row) xs = map Inr (map scan_row xs)" for xs by simp
  have q1: "pgx_QueryAll pg_driver background (sample_pg lost_rows) = (Inr (map Inr [c_row], Some refused), sample_pg [])"
    using sample_scanned
    by (simp add: with_fault_def sample_pg_def lost_rows_def pg_all_lost_def eq del: map_map)
  have q2: "pgx_QueryAll pg_driver background (sample_pg []) = (Inr (map Inr [c_row, g_row], None), sample_pg [])"
    using sample_scanned by (simp only: sample_all eq)
  have w: "isConnectionError (WrapError ''row iteration error: '' refused)"
    by (simp add: isConnectionError_def refused_def)
  show ?thesis
    using db_listing_retry_duplicates [OF _ _ _ _ live_background q1 w q2, of "script_db pg_cfg" pg_std] by simp
qed

section \<open>Over HTTP\<close>

text \<open>
  Seen from a client: over the database storage \<open>GET /value/counter/{name}\<close> for a counter
  that does not exist answers 200 with the body 0, where the in-memory storage answers 404.
\<close>

theorem missing_counter_differs:
  assumes "pgx_driver P dok rows pend faults" "db_pool db = Some P" "db_ok dok rows pend faults db (store a)"
    and "live_context ctx" "url_param r ''metricType'' = Counter"
    and "tab_counters (pg_view (rows (store a))) (url_param r ''metricName'') = None"
    and "app_ok b" "tab_counters (table_of b) (url_param r ''metricName'') = None"
    and "GetMetric std (NewMetricService (db_storage std db)) ctx r a = (cs, a')"
    and "GetMetric std (mem_service std it) ctx r b = (cs2, b')"
  shows "status (serve cs) = StatusOK \<and> body (serve cs) = ''0'' \<and> status (serve cs2) = StatusNotFound"
proof -
  obtain rc d' where g: "db_GetCounter db ctx (url_param r ''metricName'') (store a) = (rc, d')" by fastforce
  have rc: "rc = (0, True)"
    using pgx_driver.db_GetCounter_spec [OF assms(1-3) g] assms(4,6)
    by (simp add: pgx_driver.db_view_def [OF assms(1)])
  have z: "FormatInt 0 = ''0''" by (simp add: FormatInt_def dec_nat.simps zero_char)
  have "sv_GetCounter (NewMetricService (db_storage std db)) ctx (url_param r ''metricName'') a = (Inr 0, a\<lparr>store := d'\<rparr>)"
    using g rc by (simp add: NewMetricService_def svc_GetCounter_def db_storage_sel)
  then have "cs = write_value (FormatInt 0)"
    using assms(5,9) by (simp add: GetMetric_def isValidMetricType_def)
  then have "status (serve cs) = StatusOK \<and> body (serve cs) = ''0''"
    by (simp add: status_serve body_serve write_value_def z)
  moreover have "status (serve cs2) = StatusNotFound"
    using api.GetMetric_counter [OF assms(7,10,5)] assms(8) by simp
  ultimately show ?thesis by simp
qed

definition counter_request :: request where
  "counter_request = sample_request Counter ''nope'' []"

theorem missing_counter_differs_witness:
  "status (serve (fst (GetMetric pg_std (NewMetricService (db_storage pg_std (script_db pg_cfg))) background
       counter_request \<lparr>store = sample_pg [], clock_ms = 0, published = []\<rparr>))) = StatusOK
   \<and> status (serve (fst (GetMetric pg_std (mem_service pg_std no_order) background counter_request sample_app)))
       = StatusNotFound"
  using missing_counter_differs [where ctx = background and r = counter_request and b = sample_app
      and a = "\<lparr>store = sample_pg [], clock_ms = 0, published = []\<rparr>" and std = pg_std and it = no_order,
      OF pgs.pgx_driver_axioms script_db_simps(1) [of pg_cfg] _ live_background _ _ sample_app_ok _
        surjective_pairing surjective_pairing]
  by (simp add: sample_pg_ok sample_pg_view counter_request_def sample_request_def sample_table)

end
