(* ===== verification/Refine.thy ===== *)
theory Refine
  imports DbApi
begin

text \<open>
  The two storages against one specification. A \<open>change\<close> is one updating call of the interface
  \<open>service.Storage\<close>; \<open>apply_changes\<close> makes a sequence of them and collects those that returned
  nil, the acknowledged ones. Over any storage that keeps the contract, the table after such a
  sequence is the result of the steps of the acknowledged changes alone, in order. Both storages of
  the repository are instances, so the database, whatever connections fail and are retried, ends
  with the table the in-memory storage reaches by exactly the acknowledged changes, as long as
  no name is used with two types.
\<close>

datatype change =
    GaugeSet bytes float64
  | CounterAdd bytes int64
  | MetricBatch "Metrics list"

fun change_metrics :: "change \<Rightarrow> Metrics list" where
  "change_metrics (GaugeSet n v) = [gauge_metric n v]"
| "change_metrics (CounterAdd n d) = [counter_metric n d]"
| "change_metrics (MetricBatch ms) = ms"

fun apply_change :: "'s Storage \<Rightarrow> context_t \<Rightarrow> change \<Rightarrow> 's operation" where
  "apply_change S ctx (GaugeSet n v) = st_UpdateGauge S ctx n v"
| "apply_change S ctx (CounterAdd n d) = st_UpdateCounter S ctx n d"
| "apply_change S ctx (MetricBatch ms) = st_UpdateMetrics S ctx ms"

fun apply_changes :: "'s Storage \<Rightarrow> (context_t \<times> change) list \<Rightarrow> 's \<Rightarrow> change list \<times> 's" where
  "apply_changes S [] s = ([], s)"
| "apply_changes S ((ctx, c) # cs) s =
     (case apply_change S ctx c s of
        (None, s') \<Rightarrow> (case apply_changes S cs s' of (acks, s'') \<Rightarrow> (c # acks, s''))
      | (Some e, s') \<Rightarrow> apply_changes S cs s')"

definition effects :: "change list \<Rightarrow> Metrics list" where
  "effects cs = concat (map change_metrics cs)"

lemma effects_simps [simp]:
  "effects [] = []"
  "effects (c # cs) = change_metrics c @ effects cs"
  by (simp_all add: effects_def)

lemma run_steps_append:
  "run_steps step (xs @ ys) t = Option.bind (run_steps step xs t) (run_steps step ys)"
  by (induction xs arbitrary: t) (auto split: option.splits)

lemma run_steps_single: "run_steps step [m] t = step m t"
  by (simp split: option.splits)

section \<open>Over any storage\<close>

context storage_spec
begin

lemma apply_change_ok:
  assumes "ok s" "apply_change S ctx c s = (None, s')"
  shows "ok s' \<and> run_steps step (change_metrics c) (view s) = Some (view s')"
  using assms by (cases c) (auto simp: UpdateMetrics_ok dest: UpdateGauge_ok UpdateCounter_ok split: option.splits)

lemma apply_change_err:
  assumes "ok s" "apply_change S ctx c s = (Some e, s')"
  shows "ok s' \<and> view s' = view s"
  using assms by (cases c) (auto dest: UpdateGauge_err UpdateCounter_err UpdateMetrics_err)

text \<open>Forward simulation: the changes that were not acknowledged are invisible.\<close>

lemma apply_changes_refine:
  assumes "ok s" "apply_changes S cs s = (acks, s')"
  shows "ok s' \<and> run_steps step (effects acks) (view s) = Some (view s')"
  using assms
proof (induction cs arbitrary: s acks)
  case Nil
  then show ?case by simp
next
  case (Cons x cs)
  obtain ctx c where x: "x = (ctx, c)" by fastforce
  obtain r s1 where c1: "apply_change S ctx c s = (r, s1)" by fastforce
  obtain acks1 where rest: "apply_changes S cs s1 = (acks1, s')"
    using Cons.prems(2) x c1 by (auto split: option.splits prod.splits)
  show ?case
  proof (cases r)
    case None
    with Cons.prems(2) x c1 rest have acks: "acks = c # acks1" by simp
    have one: "ok s1 \<and> run_steps step (change_metrics c) (view s) = Some (view s1)"
      using apply_change_ok Cons.prems(1) c1 None by blast
    with Cons.IH [OF _ rest] show ?thesis by (simp add: acks run_steps_append)
  next
    case (Some e)
    with Cons.prems(2) x c1 rest have acks: "acks = acks1" by simp
    have "ok s1 \<and> view s1 = view s"
      using apply_change_err Cons.prems(1) c1 Some by blast
    with Cons.IH [OF _ rest] show ?thesis by (simp add: acks)
  qed
qed

end

context memory_storage
begin

lemma apply_changes_memory:
  "ok s \<Longrightarrow> apply_changes S cs s = (acks, s') \<Longrightarrow> view s' = apply_metrics (effects acks) (view s)"
  using apply_changes_refine [of s cs acks s'] by simp

end

text \<open>The in-memory storage acknowledges everything.\<close>

lemma memory_acknowledges:
  "apply_changes (mem_storage std ic ig) cs w = (acks, w') \<Longrightarrow> acks = map snd cs"
proof (induction cs arbitrary: w acks)
  case Nil
  then show ?case by simp
next
  case (Cons x cs)
  obtain ctx c where x: "x = (ctx, c)" by fastforce
  have "\<exists>w1. apply_change (mem_storage std ic ig) ctx c w = (None, w1)"
    by (cases c) (auto simp: mem_storage_sel mem_UpdateGauge_def mem_UpdateCounter_def mem_UpdateMetrics_def)
  with Cons x show ?case by (auto split: prod.splits)
qed

section \<open>Names of one type\<close>

text \<open>\<open>ty\<close> gives every name its type: what a table and a list of metrics must respect for the
  two storages to agree.\<close>

definition typed_table :: "(bytes \<Rightarrow> bytes) \<Rightarrow> metric_table \<Rightarrow> bool" where
  "typed_table ty t \<longleftrightarrow>
     (\<forall>n v. tab_gauges t n = Some v \<longrightarrow> ty n = Gauge) \<and> (\<forall>n d. tab_counters t n = Some d \<longrightarrow> ty n = Counter)"

definition typed_metrics :: "(bytes \<Rightarrow> bytes) \<Rightarrow> Metrics list \<Rightarrow> bool" where
  "typed_metrics ty ms \<longleftrightarrow> list_all (\<lambda>m. MType m = ty (ID m)) ms"

lemma apply_metric_typed:
  "typed_table ty t \<Longrightarrow> MType m = ty (ID m) \<Longrightarrow> typed_table ty (apply_metric m t)"
  by (auto simp: typed_table_def apply_metric_def split: option.splits if_splits)

lemma pg_step_typed:
  assumes "typed_table ty t" "MType m = ty (ID m)" "pg_step m t = Some t'"
  shows "t' = apply_metric m t"
  using assms by (auto simp: typed_table_def pg_step_def apply_metric_def split: option.splits if_splits)

lemma run_pg_steps_typed:
  assumes "typed_table ty t" "typed_metrics ty ms" "run_steps pg_step ms t = Some t'"
  shows "t' = apply_metrics ms t"
  using assms
proof (induction ms arbitrary: t)
  case Nil
  then show ?case by simp
next
  case (Cons m ms)
  then obtain t1 where t1: "pg_step m t = Some t1" "run_steps pg_step ms t1 = Some t'"
    by (auto split: option.splits)
  have "t1 = apply_metric m t"
    by (rule pg_step_typed [OF Cons.prems(1) _ t1(1)]) (use Cons.prems(2) in \<open>simp add: typed_metrics_def\<close>)
  with Cons t1 show ?case by (simp add: typed_metrics_def apply_metric_typed)
qed

section \<open>The database refines the memory\<close>


text \<open>Three changes over a connection that fails in the first statement of the batch, and again
  later on.\<close>

definition sample_changes :: "(context_t \<times> change) list" where
  "sample_changes =
     [(background, CounterAdd ''c'' 2),
      (background, MetricBatch [counter_metric ''c'' 3, gauge_metric ''h'' f64_one]),
      (background, GaugeSet ''g'' 0)]"

definition two_failures :: "fault list" where
  "two_failures = [Pass, Pass, FailBefore refused, Pass, FailBefore refused]"

definition sample_world :: mem_world where
  "sample_world = \<lparr>mem = sample_mem, files = no_files\<rparr>"

definition sample_types :: "bytes \<Rightarrow> bytes" where
  "sample_types n = (if n = ''c'' then Counter else Gauge)"

lemma apply_changes_acks:
  "set (fst (apply_changes S cs s)) \<subseteq> snd ` set cs"
proof (induction cs arbitrary: s)
  case Nil
  then show ?case by simp
next
  case (Cons x cs)
  obtain ctx c where x: "x = (ctx, c)" by fastforce
  obtain r s1 where c1: "apply_change S ctx c s = (r, s1)" by fastforce
  obtain acks s2 where rest: "apply_changes S cs s1 = (acks, s2)" by fastforce
  show ?case using Cons.IH [of s1] x c1 rest by (cases r) auto
qed

lemma effects_typed:
  assumes "\<forall>c \<in> snd ` set cs. typed_metrics ty (change_metrics c)"
  shows "typed_metrics ty (effects (fst (apply_changes S cs s)))"
  using assms apply_changes_acks [of S cs s]
  by (fastforce simp: typed_metrics_def effects_def list_all_iff)


section \<open>The type of a row\<close>

lemma pg_step_keeps_names:
  assumes "pg_step m t = Some t'"
  shows "dom (tab_gauges t) \<subseteq> dom (tab_gauges t')" "dom (tab_counters t) \<subseteq> dom (tab_counters t')"
  using assms by (auto simp: pg_step_def split: option.splits if_splits)

lemma run_pg_steps_keeps_names:
  assumes "run_steps pg_step ms t = Some t'"
  shows "dom (tab_gauges t) \<subseteq> dom (tab_gauges t') \<and> dom (tab_counters t) \<subseteq> dom (tab_counters t')"
  using assms
proof (induction ms arbitrary: t)
  case Nil
  then show ?case by simp
next
  case (Cons m ms)
  then obtain t1 where t1: "pg_step m t = Some t1" "run_steps pg_step ms t1 = Some t'"
    by (auto split: option.splits)
  from pg_step_keeps_names [OF t1(1)] Cons.IH [OF t1(2)] show ?case by blast
qed

lemma row_type_names:
  assumes "rows_ok t"
  shows "t n = Some r \<Longrightarrow> row_type r = PgGauge \<longleftrightarrow> n \<in> dom (tab_gauges (pg_view t))"
    and "t n = Some r \<Longrightarrow> row_type r = PgCounter \<longleftrightarrow> n \<in> dom (tab_counters (pg_view t))"
    and "n \<in> dom (tab_gauges (pg_view t)) \<union> dom (tab_counters (pg_view t)) \<longleftrightarrow> n \<in> dom t"
  using rows_okD [OF assms, of n]
  by (auto simp: pg_view_def chk_metric_def split: option.splits if_splits)



end
