(* ===== verification/Router.thy ===== *)
theory Router
  imports Server Refine
begin

text \<open>
  The router as a whole: what a client may conclude from the status of any request, over either
  storage. \<open>chain_gate\<close> is the specification of the middleware chain, the status with which it
  refuses a request or the unpacked request that reaches the endpoint; \<open>request_effect\<close> is the
  specification of the endpoints, the metrics a request asks to apply (none for a read), or
  \<open>None\<close> for a request that is no valid one. Over every storage that keeps the contract, a request
  answered with 200 has had exactly its effect and every other request has had none, and this
  extends to every sequence of requests.
\<close>

section \<open>The chain and its specification\<close>

lemma chain_open:
  "fst (limiter_enter l) \<noteq> Rejected \<Longrightarrow>
     createRouter std gz sha256 cfg storage False l ctx r a =
       Compress gz Map.empty
         (if SecretKet cfg \<noteq> []
          then HashValidationMiddleware (Some (NewSHA256Signer sha256 (SecretKet cfg))) (routes std storage (NewMetricService storage))
          else routes std storage (NewMetricService storage)) ctx r a"
  by (cases "limiter_enter l")
    (auto simp: createRouter_def Let_def RequestLogger_def ResponseLogger_def TrackActiveRequests_def RateLimiter_def
      split: admission.splits)

lemma status_compressed: "status (serve (CompressResponse gz wh r cs)) = status (serve cs)"
  by (simp add: CompressResponse_def serve_compressed)

text \<open>The hash is right, or absent, or \<open>none\<close>, or there is no key.\<close>

definition hash_accepted :: "(bytes \<Rightarrow> bytes) \<Rightarrow> bytes \<Rightarrow> request \<Rightarrow> bool" where
  "hash_accepted sha256 key r \<longleftrightarrow>
     key = [] \<or> given_hash r = [] \<or> given_hash r = ''none''
     \<or> (case req_body r of Inl e \<Rightarrow> False | Inr b \<Rightarrow> given_hash r = hex (sha256 (key @ b)))"

definition chain_gate :: "gzip_format \<Rightarrow> (bytes \<Rightarrow> bytes) \<Rightarrow> ServerFlags \<Rightarrow> bool \<Rightarrow> limiter \<Rightarrow> request \<Rightarrow> nat + request" where
  "chain_gate gz sha256 cfg shutdown l r =
     (if shutdown then Inl StatusServiceUnavailable
      else if fst (limiter_enter l) = Rejected then Inl StatusTooManyRequests
      else (case DecompressRequest gz r of
              Inl e \<Rightarrow> Inl StatusInternalServerError
            | Inr r1 \<Rightarrow> if hash_accepted sha256 (SecretKet cfg) r1 then Inr r1 else Inl StatusBadRequest))"

lemma hash_step:
  "(if key \<noteq> [] then HashValidationMiddleware (Some (NewSHA256Signer sha256 key)) next else next) ctx r s =
     (if hash_accepted sha256 key r then next ctx r s else (json_status StatusBadRequest, s))"
  using sha.middleware_cases [of sha256 key "next" ctx r s]
  by (auto simp: hash_accepted_def NewSHA256Signer_def sha_Sign_def split: sum.splits)

lemma createRouter_refused:
  assumes "chain_gate gz sha256 cfg shutdown l r = Inl code"
    and "createRouter std gz sha256 cfg storage shutdown l ctx r a = (cs, a')"
  shows "a' = a \<and> first_status cs = code \<and> StatusBadRequest \<le> code"
proof -
  consider (down) shutdown | (full) "\<not> shutdown" "fst (limiter_enter l) = Rejected"
    | (inside) "\<not> shutdown" "fst (limiter_enter l) \<noteq> Rejected" by blast
  then show ?thesis
  proof cases
    case down
    with assms show ?thesis
      by (auto simp: chain_gate_def createRouter_def RequestLogger_def ResponseLogger_def
          TrackActiveRequests_def ShuttingDown_def Let_def status_defs)
  next
    case full
    with assms show ?thesis
      by (cases "limiter_enter l")
        (auto simp: chain_gate_def createRouter_def RequestLogger_def ResponseLogger_def TrackActiveRequests_def
          RateLimiter_def TooManyRequests_def Let_def status_defs)
  next
    case inside
    have st: "first_status (CompressResponse gz Map.empty r1 (json_status StatusBadRequest)) = StatusBadRequest" for r1
      using status_compressed [of gz Map.empty r1 "json_status StatusBadRequest"]
      by (simp add: status_serve json_status_def)
    have ne: "StatusBadRequest \<le> StatusInternalServerError" by (simp_all add: status_defs)
    from assms(2) inside show ?thesis
      using assms(1) unfolding chain_open [OF inside(2)] hash_step
      by (auto simp: chain_gate_def Compress_def chain_open hash_step st ne split: sum.splits if_splits)
  qed
qed

lemma createRouter_served:
  assumes "chain_gate gz sha256 cfg shutdown l r = Inr r1"
  shows "createRouter std gz sha256 cfg storage shutdown l ctx r a =
     (case routes std storage (NewMetricService storage) ctx r1 a of
        (cs, a') \<Rightarrow> (CompressResponse gz Map.empty r1 cs, a'))"
proof -
  have g: "\<not> shutdown" "fst (limiter_enter l) \<noteq> Rejected" "DecompressRequest gz r = Inr r1"
    "hash_accepted sha256 (SecretKet cfg) r1"
    using assms by (auto simp: chain_gate_def split: if_splits sum.splits)
  then show ?thesis by (simp add: chain_open Compress_def hash_step)
qed

section \<open>What a request asks for\<close>

definition routed :: "request \<Rightarrow> endpoint" where
  "routed r = route (req_method r) (path_segments (req_path r))"

definition is_update :: "request \<Rightarrow> bool" where
  "is_update r \<longleftrightarrow> (case routed r of EUpdate t n v \<Rightarrow> True | EUpdatePost \<Rightarrow> True | EUpdates \<Rightarrow> True | _ \<Rightarrow> False)"

definition request_effect :: "go_std \<Rightarrow> request \<Rightarrow> Metrics list option" where
  "request_effect std r =
     (case routed r of
        EUpdate t n v \<Rightarrow> map_option (\<lambda>m. [m]) (url_metric std (with_params t n v r))
      | EUpdatePost \<Rightarrow> map_option (\<lambda>m. [m]) (posted_metric std r)
      | EUpdates \<Rightarrow> posted_batch std r
      | _ \<Rightarrow> Some [])"

context storage_spec
begin

abbreviation "app_good a \<equiv> ok (store a)"
abbreviation "app_view a \<equiv> view (store a)"

lemma service_reads_frame:
  assumes "app_good a"
  shows "sv_GetGauge (NewMetricService S) ctx n a = (rg, a') \<Longrightarrow>
      app_good a' \<and> app_view a' = app_view a \<and> published a' = published a"
    and "sv_GetCounter (NewMetricService S) ctx n a = (rc, a') \<Longrightarrow>
      app_good a' \<and> app_view a' = app_view a \<and> published a' = published a"
  using svc.svGetGauge_val [OF assms] svc.svGetCounter_val [OF assms] by blast+

lemma GetMetric_frame:
  assumes "app_good a" "GetMetric std (NewMetricService S) ctx r a = (cs, a')"
  shows "app_good a' \<and> app_view a' = app_view a \<and> published a' = published a"
proof -
  obtain rg ag rc ac where run: "sv_GetGauge (NewMetricService S) ctx (url_param r ''metricName'') a = (rg, ag)"
      "sv_GetCounter (NewMetricService S) ctx (url_param r ''metricName'') a = (rc, ac)"
    by (metis surj_pair)
  have "a' \<in> {a, ag, ac}"
    using assms(2) run by (auto simp: GetMetric_def Let_def split: if_splits sum.splits)
  with assms(1) service_reads_frame(1) [OF assms(1) run(1)] service_reads_frame(2) [OF assms(1) run(2)]
  show ?thesis by blast
qed

lemma SentMetricPost_frame:
  assumes "app_good a" "SentMetricPost std (NewMetricService S) ctx r a = (cs, a')"
  shows "app_good a' \<and> app_view a' = app_view a \<and> published a' = published a"
proof -
  have get: "app_good b \<and> app_view b = app_view a \<and> published b = published a"
    if g: "getMetricForJSONResponse (NewMetricService S) ctx data a = (x, b)" for data x b
  proof -
    obtain rg ag rc ac where run: "sv_GetGauge (NewMetricService S) ctx (ID data) a = (rg, ag)"
        "sv_GetCounter (NewMetricService S) ctx (ID data) a = (rc, ac)"
      by (metis surj_pair)
    have "b \<in> {a, ag, ac}"
      using g run by (auto simp: getMetricForJSONResponse_def Let_def split: if_splits sum.splits)
    with assms(1) service_reads_frame(1) [OF assms(1) run(1)] service_reads_frame(2) [OF assms(1) run(2)]
    show ?thesis by blast
  qed
  have "a' = a \<or> (\<exists>data x. getMetricForJSONResponse (NewMetricService S) ctx data a = (x, a'))"
    using assms(2) by (auto simp: SentMetricPost_def split: if_splits sum.splits prod.splits)
  with get assms(1) show ?thesis by blast
qed

lemma main_page_frame:
  assumes "app_good a" "on_store (main_page_handler S) ctx r a = (cs, a')"
  shows "app_good a' \<and> app_view a' = app_view a \<and> published a' = published a"
proof -
  obtain x s where run: "st_GetAllMetrics S ctx (store a) = (x, s)" by fastforce
  with assms(2) have "a' = a\<lparr>store := s\<rparr>"
    by (auto simp: on_store_def main_page_handler_def GetMainPage_def split: sum.splits)
  with GetAllMetrics_frame [OF assms(1) run] show ?thesis by simp
qed

lemma ping_frame:
  assumes "app_good a" "on_store (GetPingDB S) ctx r a = (cs, a')"
  shows "app_good a' \<and> app_view a' = app_view a \<and> published a' = published a"
proof -
  obtain x s where run: "st_Ping S ctx (store a) = (x, s)" by fastforce
  with assms(2) have "a' = a\<lparr>store := s\<rparr>"
    by (auto simp: on_store_def GetPingDB_def split: option.splits)
  with Ping_frame [OF assms(1) run] show ?thesis by simp
qed

text \<open>The endpoints: 200 means that the effect took place, anything else that nothing did.\<close>

lemma routes_outcome:
  assumes "app_good a" "routes std S (NewMetricService S) ctx r a = (cs, a')"
  shows "app_good a' \<and>
    (if first_status cs = StatusOK
     then \<exists>ms. request_effect std r = Some ms \<and> run_steps step ms (app_view a) = Some (app_view a')
     else app_view a' = app_view a \<and> published a' = published a)"
proof (cases "routed r")
  case (EUpdate t n v)
  with assms(2) have "UpdateMetric std (NewMetricService S) ctx (with_params t n v r) a = (cs, a')"
    by (simp add: routes_def routed_def)
  from svc.UpdateMetric_outcome [OF assms(1) this] EUpdate show ?thesis
    by (auto simp: request_effect_def run_steps_single split: if_splits)
next
  case EUpdatePost
  with assms(2) have "UpdatePost std (NewMetricService S) ctx r a = (cs, a')"
    by (simp add: routes_def routed_def)
  from svc.UpdatePost_outcome [OF assms(1) this] EUpdatePost show ?thesis
    by (auto simp: request_effect_def run_steps_single split: if_splits)
next
  case EUpdates
  with assms(2) have "UpdateMetrics std (NewMetricService S) ctx r a = (cs, a')"
    by (simp add: routes_def routed_def)
  from svc.UpdateMetrics_outcome [OF assms(1) this] EUpdates show ?thesis
    by (auto simp: request_effect_def split: if_splits)
next
  case (EValue t n)
  with assms(2) have "GetMetric std (NewMetricService S) ctx (with_params t n [] r) a = (cs, a')"
    by (simp add: routes_def routed_def)
  from GetMetric_frame [OF assms(1) this] EValue show ?thesis by (simp add: request_effect_def)
next
  case EValuePost
  with assms(2) have "SentMetricPost std (NewMetricService S) ctx r a = (cs, a')"
    by (simp add: routes_def routed_def)
  from SentMetricPost_frame [OF assms(1) this] EValuePost show ?thesis by (simp add: request_effect_def)
next
  case EMain
  with assms(2) have "on_store (main_page_handler S) ctx r a = (cs, a')"
    by (simp add: routes_def routed_def)
  from main_page_frame [OF assms(1) this] EMain show ?thesis by (simp add: request_effect_def)
next
  case EPing
  with assms(2) have "on_store (GetPingDB S) ctx r a = (cs, a')"
    by (simp add: routes_def routed_def)
  from ping_frame [OF assms(1) this] EPing show ?thesis by (simp add: request_effect_def)
qed (use assms in \<open>auto simp: routes_def routed_def request_effect_def\<close>)

text \<open>The whole chain, for one request.\<close>

lemma createRouter_outcome:
  assumes "app_good a" "createRouter std gz sha256 cfg S shutdown l ctx r a = (cs, a')"
  shows "app_good a' \<and>
    (if status (serve cs) = StatusOK
     then \<exists>r1 ms. chain_gate gz sha256 cfg shutdown l r = Inr r1 \<and> request_effect std r1 = Some ms
        \<and> run_steps step ms (app_view a) = Some (app_view a')
     else app_view a' = app_view a \<and> published a' = published a)"
proof (cases "chain_gate gz sha256 cfg shutdown l r")
  case (Inl code)
  with createRouter_refused [OF Inl assms(2)] assms(1) show ?thesis by (auto simp: status_serve status_defs)
next
  case (Inr r1)
  obtain cs1 a1 where run: "routes std S (NewMetricService S) ctx r1 a = (cs1, a1)" by fastforce
  with assms(2) have "cs = CompressResponse gz Map.empty r1 cs1" "a' = a1"
    by (simp_all add: createRouter_served [OF Inr])
  with routes_outcome [OF assms(1) run] Inr show ?thesis
    by (simp add: status_compressed) (simp add: status_serve)
qed

end

section \<open>Sequences of requests\<close>

text \<open>
  A request with what the chain looks at when it arrives. Requests run concurrently, but each makes
  at most one updating call of the storage, which is atomic (a mutex in memory, a transaction or a
  single statement in the database); the sequence is the order of these calls.
\<close>

record arrival =
  ar_ctx :: context_t
  ar_shutdown :: bool
  ar_limiter :: limiter
  ar_request :: request

fun serve_all :: "go_std \<Rightarrow> gzip_format \<Rightarrow> (bytes \<Rightarrow> bytes) \<Rightarrow> ServerFlags \<Rightarrow> 's Storage
    \<Rightarrow> arrival list \<Rightarrow> 's app \<Rightarrow> nat list \<times> 's app" where
  "serve_all std gz sha256 cfg S [] a = ([], a)"
| "serve_all std gz sha256 cfg S (x # xs) a =
     (case createRouter std gz sha256 cfg S (ar_shutdown x) (ar_limiter x) (ar_ctx x) (ar_request x) a of
        (cs, a1) \<Rightarrow>
          (case serve_all std gz sha256 cfg S xs a1 of (codes, a2) \<Rightarrow> (status (serve cs) # codes, a2)))"

text \<open>What the requests answered with 200 asked for, in order.\<close>

definition arrival_effect :: "go_std \<Rightarrow> gzip_format \<Rightarrow> (bytes \<Rightarrow> bytes) \<Rightarrow> ServerFlags \<Rightarrow> arrival \<Rightarrow> Metrics list" where
  "arrival_effect std gz sha256 cfg x =
     (case chain_gate gz sha256 cfg (ar_shutdown x) (ar_limiter x) (ar_request x) of
        Inl code \<Rightarrow> []
      | Inr r1 \<Rightarrow> (case request_effect std r1 of None \<Rightarrow> [] | Some ms \<Rightarrow> ms))"

fun acknowledged :: "go_std \<Rightarrow> gzip_format \<Rightarrow> (bytes \<Rightarrow> bytes) \<Rightarrow> ServerFlags \<Rightarrow> arrival list \<Rightarrow> nat list \<Rightarrow> Metrics list" where
  "acknowledged std gz sha256 cfg (x # xs) (code # codes) =
     (if code = StatusOK then arrival_effect std gz sha256 cfg x else []) @ acknowledged std gz sha256 cfg xs codes"
| "acknowledged std gz sha256 cfg xs codes = []"

context storage_spec
begin

lemma serve_all_history:
  assumes "app_good a" "serve_all std gz sha256 cfg S xs a = (codes, a')"
  shows "app_good a' \<and> run_steps step (acknowledged std gz sha256 cfg xs codes) (app_view a) = Some (app_view a')"
  using assms
proof (induction xs arbitrary: a codes)
  case Nil
  then show ?case by simp
next
  case (Cons x xs)
  obtain cs a1 where one: "createRouter std gz sha256 cfg S (ar_shutdown x) (ar_limiter x) (ar_ctx x) (ar_request x) a = (cs, a1)"
    by fastforce
  obtain rest where rest: "serve_all std gz sha256 cfg S xs a1 = (rest, a')" "codes = status (serve cs) # rest"
    using Cons.prems(2) one by (auto split: prod.splits)
  note o1 = createRouter_outcome [OF Cons.prems(1) one]
  then have IH: "app_good a' \<and> run_steps step (acknowledged std gz sha256 cfg xs rest) (app_view a1) = Some (app_view a')"
    using Cons.IH rest(1) by blast
  show ?case
  proof (cases "status (serve cs) = StatusOK")
    case True
    with o1 have "run_steps step (arrival_effect std gz sha256 cfg x) (app_view a) = Some (app_view a1)"
      by (auto simp: arrival_effect_def)
    with IH True show ?thesis by (simp add: rest(2) run_steps_append)
  next
    case False
    with o1 IH show ?thesis by (simp add: rest(2))
  qed
qed

end

end
