(* ===== verification/RouterApi.thy ===== *)
theory RouterApi
  imports Router
begin

text \<open>
  What a client may conclude from the answer of the whole server: over the in-memory storage the
  status is determined by the request, over the database a 200 is a promise that survives failing
  connections.
\<close>

section \<open>Over the memory\<close>

lemma updates_answered:
  assumes "app_ok a" "UpdateMetrics std (mem_service std it) ctx r a = (cs, a')"
  shows "(first_status cs = StatusOK \<longleftrightarrow> posted_batch std r \<noteq> None)
    \<and> (case posted_batch std r of
         Some ms \<Rightarrow> table_of a' = apply_metrics ms (table_of a)
           \<and> (\<exists>ev. published a' = published a @ [ev] \<and> IPAddr ev = RemoteAddr r \<and> slice_elems (EvMetrics ev) = map ID ms)
       | None \<Rightarrow> table_of a' = table_of a \<and> published a' = published a)"
  using api.UpdateMetrics_outcome [OF assms] UpdateMetrics_mem_status [OF assms(2)]
  by (auto simp: memory_step_def split: option.splits)

lemma single_answered:
  assumes "app_ok a"
  shows "UpdateMetric std (mem_service std it) ctx r a = (cs, a') \<Longrightarrow>
      (first_status cs = StatusOK \<longleftrightarrow> url_metric std r \<noteq> None) \<and> published a' = published a
      \<and> table_of a' = (case url_metric std r of Some m \<Rightarrow> apply_metric m (table_of a) | None \<Rightarrow> table_of a)"
    and "UpdatePost std (mem_service std it) ctx r a = (cs, a') \<Longrightarrow>
      (first_status cs = StatusOK \<longleftrightarrow> posted_metric std r \<noteq> None) \<and> published a' = published a
      \<and> table_of a' = (case posted_metric std r of Some m \<Rightarrow> apply_metric m (table_of a) | None \<Rightarrow> table_of a)"
proof -
  assume run: "UpdateMetric std (mem_service std it) ctx r a = (cs, a')"
  show "(first_status cs = StatusOK \<longleftrightarrow> url_metric std r \<noteq> None) \<and> published a' = published a
      \<and> table_of a' = (case url_metric std r of Some m \<Rightarrow> apply_metric m (table_of a) | None \<Rightarrow> table_of a)"
    using api.UpdateMetric_outcome [OF assms run] UpdateMetric_mem_status [OF run]
    by (auto simp: status_defs memory_step_def split: option.splits)
next
  assume run: "UpdatePost std (mem_service std it) ctx r a = (cs, a')"
  show "(first_status cs = StatusOK \<longleftrightarrow> posted_metric std r \<noteq> None) \<and> published a' = published a
      \<and> table_of a' = (case posted_metric std r of Some m \<Rightarrow> apply_metric m (table_of a) | None \<Rightarrow> table_of a)"
    using api.UpdatePost_outcome [OF assms run] UpdatePost_mem_status [OF run]
    by (auto simp: memory_step_def split: option.splits)
qed

text \<open>The audit events that a request publishes.\<close>

definition audited :: "go_std \<Rightarrow> request \<Rightarrow> MetricProcessedEvent list \<Rightarrow> bool" where
  "audited std r evs \<longleftrightarrow>
     (case (routed r, request_effect std r) of
        (EUpdates, Some ms) \<Rightarrow> \<exists>ev. evs = [ev] \<and> IPAddr ev = RemoteAddr r \<and> slice_elems (EvMetrics ev) = map ID ms
      | _ \<Rightarrow> evs = [])"

lemma endpoint_reads:
  assumes "app_ok a" "\<not> is_update r"
    and "routes std (mem_storage std (fst it) (snd it)) (NewMetricService (mem_storage std (fst it) (snd it))) ctx r a = (cs, a')"
  shows "table_of a' = table_of a \<and> published a' = published a"
proof -
  let ?S = "mem_storage std (fst it) (snd it)"
  have ok: "mem_ok (store a)" using assms(1) by (simp add: app_ok_def)
  from assms(2) consider
      (by_url) t n where "routed r = EValue t n" | (as_json) "routed r = EValuePost" | (main) "routed r = EMain"
    | (ping) "routed r = EPing" | (other) "routed r \<in> {ENotFound, EMethodNotAllowed}"
    by (cases "routed r") (auto simp: is_update_def)
  then show ?thesis
  proof cases
    case by_url
    with assms(3) mem.GetMetric_frame [OF ok] show ?thesis by (simp add: routes_def routed_def table_of_def)
  next
    case as_json
    with assms(3) mem.SentMetricPost_frame [OF ok] show ?thesis by (simp add: routes_def routed_def table_of_def)
  next
    case main
    with assms(3) mem.main_page_frame [OF ok] show ?thesis by (simp add: routes_def routed_def table_of_def)
  next
    case ping
    with assms(3) mem.ping_frame [OF ok] show ?thesis by (simp add: routes_def routed_def table_of_def)
  qed (use assms in \<open>auto simp: routes_def routed_def\<close>)
qed

lemma endpoint_updates:
  assumes "app_ok a" "is_update r"
    and "routes std (mem_storage std (fst it) (snd it)) (NewMetricService (mem_storage std (fst it) (snd it))) ctx r a = (cs, a')"
  shows "(first_status cs = StatusOK \<longleftrightarrow> request_effect std r \<noteq> None)
    \<and> table_of a' = apply_metrics (case request_effect std r of Some ms \<Rightarrow> ms | None \<Rightarrow> []) (table_of a)
    \<and> (\<exists>evs. published a' = published a @ evs \<and> audited std r evs)"
proof (cases "routed r")
  case (EUpdate t n v)
  with assms(3) have "UpdateMetric std (mem_service std it) ctx (with_params t n v r) a = (cs, a')"
    by (simp add: routes_def routed_def mem_service_def)
  from single_answered(1) [OF assms(1) this] EUpdate show ?thesis
    by (auto simp: request_effect_def audited_def split: option.splits)
next
  case EUpdatePost
  with assms(3) have "UpdatePost std (mem_service std it) ctx r a = (cs, a')"
    by (simp add: routes_def routed_def mem_service_def)
  from single_answered(2) [OF assms(1) this] EUpdatePost show ?thesis
    by (auto simp: request_effect_def audited_def split: option.splits)
next
  case EUpdates
  with assms(3) have "UpdateMetrics std (mem_service std it) ctx r a = (cs, a')"
    by (simp add: routes_def routed_def mem_service_def)
  from updates_answered [OF assms(1) this] EUpdates show ?thesis
    by (auto simp: request_effect_def audited_def split: option.splits)
qed (use assms(2) in \<open>simp_all add: is_update_def\<close>)


definition idle_limiter :: limiter where
  "idle_limiter = \<lparr>maxConcurrent = 0, semaphore = 0\<rparr>"

text \<open>A plain request, as \<open>curl\<close> sends it.\<close>

definition plain_request :: "bytes \<Rightarrow> bytes \<Rightarrow> request" where
  "plain_request method path =
     \<lparr>req_method = method, req_path = path, req_header = Map.empty, req_body = Inr [], ContentLength = 0,
      RemoteAddr = ''10.0.0.1:4000'', url_param = (\<lambda>p. [])\<rparr>"

lemma plain_gate:
  "chain_gate gz sha256 cfg False idle_limiter (plain_request method path) = Inr (plain_request method path)"
  by (simp add: chain_gate_def plain_request_def idle_limiter_def limiter_enter_def DecompressRequest_def hget_def
      isGzipEncoding_def hash_accepted_def given_hash_def Let_def)

lemma counter_route:
  "routed (plain_request ''POST'' ''/update/counter/c/37'') = EUpdate Counter ''c'' ''37''"
  unfolding plain_request_def Counter_def by code_simp

lemma counter_effect:
  "request_effect std (plain_request ''POST'' ''/update/counter/c/37'') = Some [counter_metric ''c'' 37]"
proof -
  have "ParseInt ''37'' = Inr 37"
    by (simp add: ParseInt_def ParseUint_def digit_value_def)
  then show ?thesis
    by (simp add: request_effect_def counter_route url_metric_def with_params_def Let_def)
qed


section \<open>Over the database\<close>


definition pg_app :: "fault list \<Rightarrow> pg app" where
  "pg_app script = \<lparr>store = sample_pg script, clock_ms = 1000, published = []\<rparr>"

definition counter_arrival :: arrival where
  "counter_arrival =
     \<lparr>ar_ctx = background, ar_shutdown = False, ar_limiter = idle_limiter,
      ar_request = plain_request ''POST'' ''/update/counter/c/37''\<rparr>"

lemma retried_counter:
  "\<exists>d'. db_UpdateCounter (script_db pg_cfg) background ''c'' 37 (sample_pg [FailBefore refused]) = (None, d')"
proof -
  have "sql_exec (UpsertCounter ''c'' 37) sample_rows =
      Inr (sample_rows(''c'' \<mapsto> \<lparr>row_type = PgCounter, row_delta = Some 42, row_value = None\<rparr>))"
    by (simp add: upsert_counter_def put_row_def sample_rows_def chk_metric_def add_overflows_def)
  then have "\<exists>d'. with_fault Some (pg_exec (UpsertCounter ''c'' 37)) (sample_pg []) = (None, d')"
    by (simp add: with_fault_def pg_exec_def sample_pg_def)
  then obtain d' where two: "with_fault Some (pg_exec (UpsertCounter ''c'' 37)) (sample_pg []) = (None, d')" by blast
  have one: "with_fault Some (pg_exec (UpsertCounter ''c'' 37)) (sample_pg [FailBefore refused]) = (Some refused, sample_pg [])"
    by (simp add: with_fault_def sample_pg_def)
  have "retry_do background pg_cfg (with_fault Some (pg_exec (UpsertCounter ''c'' 37))) (sample_pg [FailBefore refused]) = (None, d')"
    by (rule retry_do_second [OF _ live_background _ one _ two]) (simp_all add: retryable_of_def)
  then show ?thesis by (simp add: db_UpdateCounter_def pool_def)
qed


end
