(* ===== verification/ServerRun.thy ===== *)
theory ServerRun
  imports MemSaver RouterApi
begin

text \<open>
  One life of the server over the in-memory storage, as a step relation: the requests
  (\<open>TrackActiveRequests\<close> and the rest of the chain), the goroutine that saves periodically, and the
  goroutine of \<open>Run\<close> in \<open>waitForShutdown\<close> with the final \<open>Close\<close> of the storage. It composes the
  tracker of \<open>Limits\<close>, the saver of \<open>MemSaver\<close> and the router.

  \<open>http.Server.Shutdown\<close> is known by its documentation: it returns nil when no request is in
  flight any more, and no request arrives after that; it returns the error of its context when the 30 seconds are
  over, and then requests may still be in their handlers.
\<close>

section \<open>The state\<close>

datatype run_stage = Serving | Draining | WaitingActive | ClosingAll

text \<open>\<open>drained\<close>: \<open>Shutdown\<close> returned nil. \<open>answers\<close>: the status of each request that was handled;
  \<open>acked\<close>: the metrics of the updates that were answered 200, in the order of their handling.\<close>

record server_run =
  svr :: saver_state
  tracked :: tracker
  stage :: run_stage
  drained :: bool
  clock :: int
  audit :: "MetricProcessedEvent list"
  answers :: "nat \<rightharpoonup> nat"
  acked :: "Metrics list"

definition server_start :: "mem_world \<Rightarrow> server_run" where
  "server_start w =
     \<lparr>svr = saver_start w, tracked = new_tracker, stage = Serving, drained = False, clock = 0, audit = [],
      answers = Map.empty, acked = []\<rparr>"

definition alive :: "server_run \<Rightarrow> bool" where
  "alive s \<longleftrightarrow> saver (svr s) \<noteq> Crashed"

definition run_app :: "server_run \<Rightarrow> mem_world app" where
  "run_app s = \<lparr>store = world (svr s), clock_ms = clock s, published = audit s\<rparr>"

definition requests_in_flight :: "server_run \<Rightarrow> nat set" where
  "requests_in_flight s = {i. phase_of (tracked s) i \<in> {Some Checked, Some Running}}"

section \<open>The steps\<close>

text \<open>\<open>req i\<close> is the \<open>i\<close>-th request. \<open>handled\<close> is the rest of the chain and the endpoint, which makes
  one call of the storage under its mutex.\<close>

inductive server_step :: "go_std \<Rightarrow> gzip_format \<Rightarrow> (bytes \<Rightarrow> bytes) \<Rightarrow> ServerFlags \<Rightarrow> iter_order
    \<Rightarrow> (nat \<Rightarrow> request) \<Rightarrow> server_run \<Rightarrow> server_run \<Rightarrow> bool"
  for std gz sha256 cfg it req where
  admit: "alive s \<Longrightarrow> \<not> drained s \<Longrightarrow> phase_of (tracked s) i = None \<Longrightarrow>
     server_step std gz sha256 cfg it req s
       (s\<lparr>tracked := (tracked s)\<lparr>phase_of := (phase_of (tracked s))(i \<mapsto>
            (if closed (tracked s) then TurnedAway else Checked))\<rparr>\<rparr>)"
| enter: "alive s \<Longrightarrow> phase_of (tracked s) i = Some Checked \<Longrightarrow>
     server_step std gz sha256 cfg it req s
       (s\<lparr>tracked := (tracked s)\<lparr>wg := wg (tracked s) + 1, phase_of := (phase_of (tracked s))(i \<mapsto> Running)\<rparr>\<rparr>)"
| handled: "alive s \<Longrightarrow> phase_of (tracked s) i = Some Running \<Longrightarrow> answers s i = None \<Longrightarrow>
     createRouter std gz sha256 cfg (mem_storage std (fst it) (snd it)) False l ctx (req i) (run_app s) = (cs, a) \<Longrightarrow>
     server_step std gz sha256 cfg it req s
       (s\<lparr>svr := (svr s)\<lparr>world := store a\<rparr>, audit := published a, answers := (answers s)(i \<mapsto> status (serve cs)),
          acked := acked s @ (if status (serve cs) = StatusOK
             then arrival_effect std gz sha256 cfg \<lparr>ar_ctx = ctx, ar_shutdown = False, ar_limiter = l, ar_request = req i\<rparr>
             else [])\<rparr>)"
| responded: "alive s \<Longrightarrow> phase_of (tracked s) i = Some Running \<Longrightarrow> answers s i \<noteq> None \<Longrightarrow>
     server_step std gz sha256 cfg it req s
       (s\<lparr>tracked := (tracked s)\<lparr>wg := wg (tracked s) - 1, phase_of := (phase_of (tracked s))(i \<mapsto> phase.Finished)\<rparr>\<rparr>)"
| time_passes: "alive s \<Longrightarrow> server_step std gz sha256 cfg it req s (s\<lparr>clock := clock s + 1\<rparr>)"
| background: "alive s \<Longrightarrow> saver_step std (svr s) v \<Longrightarrow> closer v = closer (svr s) \<Longrightarrow>
     mem_view (world v) = mem_view (world (svr s)) \<Longrightarrow>
     server_step std gz sha256 cfg it req s (s\<lparr>svr := v\<rparr>)"
| signalled: "alive s \<Longrightarrow> stage s = Serving \<Longrightarrow>
     server_step std gz sha256 cfg it req s (s\<lparr>tracked := (tracked s)\<lparr>closed := True\<rparr>, stage := Draining\<rparr>)"
| shutdown_nil: "alive s \<Longrightarrow> stage s = Draining \<Longrightarrow> requests_in_flight s = {} \<Longrightarrow>
     server_step std gz sha256 cfg it req s (s\<lparr>stage := WaitingActive, drained := True\<rparr>)"
| shutdown_timeout: "alive s \<Longrightarrow> stage s = Draining \<Longrightarrow>
     server_step std gz sha256 cfg it req s (s\<lparr>stage := WaitingActive\<rparr>)"
| all_done: "alive s \<Longrightarrow> stage s = WaitingActive \<Longrightarrow> wg (tracked s) = 0 \<Longrightarrow>
     server_step std gz sha256 cfg it req s (s\<lparr>tracked := (tracked s)\<lparr>waited := True\<rparr>, stage := ClosingAll\<rparr>)"
| wait_timeout: "alive s \<Longrightarrow> stage s = WaitingActive \<Longrightarrow>
     server_step std gz sha256 cfg it req s (s\<lparr>stage := ClosingAll\<rparr>)"
| close_storage: "alive s \<Longrightarrow> stage s = ClosingAll \<Longrightarrow> saver_step std (svr s) v \<Longrightarrow> closer v \<noteq> closer (svr s) \<Longrightarrow>
     server_step std gz sha256 cfg it req s (s\<lparr>svr := v\<rparr>)"

text \<open>The tracked part is a run of the tracker.\<close>

lemma server_tracker_step:
  assumes "server_step std gz sha256 cfg it req s s'" "stage s \<noteq> Serving \<longrightarrow> closed (tracked s)"
  shows "(tracker_step\<^sup>=\<^sup>=) (tracked s) (tracked s') \<and> (stage s' \<noteq> Serving \<longrightarrow> closed (tracked s'))"
  using assms
proof (induction rule: server_step.induct)
  case (admit s i)
  then show ?case using check_open [of "tracked s" i] check_closed [of "tracked s" i] by auto
next
  case (enter s i)
  then show ?case using add [of "tracked s" i] by auto
next
  case (responded s i)
  then show ?case using done_step [of "tracked s" i] by auto
next
  case (signalled s)
  then show ?case using shutdown [of "tracked s"] by auto
next
  case (all_done s)
  then show ?case using wait_returns [of "tracked s"] by auto
qed simp_all

lemma server_tracker_run:
  assumes "(server_step std gz sha256 cfg it req)\<^sup>*\<^sup>* (server_start w) s"
  shows "tracker_step\<^sup>*\<^sup>* new_tracker (tracked s) \<and> (stage s \<noteq> Serving \<longrightarrow> closed (tracked s))"
  using assms
proof (induction rule: rtranclp_induct)
  case base
  then show ?case by (simp add: server_start_def)
next
  case (step s s')
  with server_tracker_step [OF step.hyps(2)] show ?case by (auto intro: rtranclp.rtrancl_into_rtrancl)
qed

section \<open>What a life of the server keeps\<close>

definition life_inv :: "go_std \<Rightarrow> metric_table \<Rightarrow> server_run \<Rightarrow> bool" where
  "life_inv std t0 s \<longleftrightarrow>
     mem_ok (world (svr s)) \<and> mem_view (world (svr s)) = apply_metrics (acked s) t0
     \<and> (drained s \<longrightarrow> requests_in_flight s = {}) \<and> (drained s \<longrightarrow> stage s \<in> {WaitingActive, ClosingAll})
     \<and> (closer (svr s) \<noteq> Open \<longrightarrow> stage s = ClosingAll)
     \<and> (drained s \<longrightarrow> closer (svr s) = closer_pc.Finished None \<longrightarrow> file_has std (svr s))"

lemma saver_closing_view:
  "saver_step std v v' \<Longrightarrow> closer v' \<noteq> closer v \<Longrightarrow> mem_view (world v') = mem_view (world v)"
  by (erule saver_step.cases) (auto simp: set_mem_def mem_view_def dest: saves_mem)

lemma mem_ok_view: "mem_view w = mem_view w' \<Longrightarrow> mem_ok w = mem_ok w'"
  by (simp add: mem_view_def mem_ok_def)

lemma handled_view:
  assumes "mem_ok (world (svr s))"
    and "createRouter std gz sha256 cfg (mem_storage std (fst it) (snd it)) False l ctx r (run_app s) = (cs, a)"
  shows "mem_ok (store a) \<and> mem_view (store a) =
     apply_metrics (if status (serve cs) = StatusOK
       then arrival_effect std gz sha256 cfg \<lparr>ar_ctx = ctx, ar_shutdown = False, ar_limiter = l, ar_request = r\<rparr> else [])
       (mem_view (world (svr s)))"
proof -
  have "mem_ok (store (run_app s))" using assms(1) by (simp add: run_app_def)
  from mem.createRouter_outcome [OF this assms(2)] show ?thesis
    by (auto simp: arrival_effect_def run_app_def)
qed

lemma life_inv_step:
  assumes "server_step std gz sha256 cfg it req s s'" "life_inv std t0 s"
  shows "life_inv std t0 s'"
  using assms
proof (induction rule: server_step.induct)
  case (handled s i l ctx cs a)
  then have "mem_ok (world (svr s))" "i \<in> requests_in_flight s" by (simp_all add: life_inv_def requests_in_flight_def)
  with handled_view [OF _ handled.hyps(4)] handled.prems show ?case
    by (auto simp: life_inv_def apply_metrics_append requests_in_flight_def)
next
  case (background s v)
  have "closer v = closer_pc.Finished None \<longrightarrow> file_has std v" if "closer (svr s) = closer_pc.Finished None \<longrightarrow> file_has std (svr s)"
    by (rule finished_keeps [OF background.hyps(2) that])
  with background mem_ok_view [OF background.hyps(4)] show ?case by (auto simp: life_inv_def requests_in_flight_def)
next
  case (close_storage s v)
  note view = saver_closing_view [OF close_storage.hyps(3,4)]
  have "closer v = closer_pc.Finished None \<longrightarrow> file_has std v" if "closer (svr s) = closer_pc.Finished None \<longrightarrow> file_has std (svr s)"
    by (rule finished_keeps [OF close_storage.hyps(3) that])
  with close_storage view mem_ok_view [OF view] show ?case by (auto simp: life_inv_def requests_in_flight_def)
qed (auto simp: life_inv_def requests_in_flight_def split: if_splits)

lemma life_inv_reachable:
  assumes "(server_step std gz sha256 cfg it req)\<^sup>*\<^sup>* (server_start w) s" "mem_ok w"
  shows "life_inv std (mem_view w) s"
  using assms(1)
proof (induction rule: rtranclp_induct)
  case base
  from assms(2) show ?case by (simp add: life_inv_def server_start_def saver_start_def requests_in_flight_def new_tracker_def)
next
  case (step s s')
  show ?case by (rule life_inv_step [OF step.hyps(2) step.IH])
qed

text \<open>The rest of \<open>Close\<close>, when nothing comes in between.\<close>

lemma closing_run:
  assumes "alive s" "stage s = ClosingAll" "closer (svr s) = Open"
    and "map_order (counters (mem (world (svr s)))) ordc" "map_order (gauges (mem (world (svr s)))) ordg"
    and "mem_Close std ordc ordg (world (svr s)) = (res, w)"
  shows "\<exists>v. (server_step std gz sha256 cfg it req)\<^sup>*\<^sup>* s (s\<lparr>svr := v\<rparr>) \<and> world v = w
    \<and> closer v = closer_pc.Finished res \<and> saver v = saver (svr s)"
proof -
  let ?v0 = "svr s"
  let ?v1 = "(set_mem (\<lambda>m. m\<lparr>ticker := None\<rparr>) ?v0)\<lparr>pending := False, closer := TickerGone\<rparr>"
  let ?v2 = "(set_mem (\<lambda>m. m\<lparr>done_closed := True\<rparr>) ?v1)\<lparr>closer := DoneClosed\<rparr>"
  obtain r w3 where save: "mem_SaveToFile std ordc ordg (store_path ?v2) (world ?v2) = (r, w3)" by fastforce
  let ?v3 = "?v2\<lparr>world := w3, closer := closer_pc.Finished (map_option (WrapError ''failed to save on close: '') r)\<rparr>"
  have "world ?v2 = (world ?v0)\<lparr>mem := (mem (world ?v0))\<lparr>ticker := None, done_closed := True\<rparr>\<rparr>"
    by (simp add: set_mem_def)
  then have res: "res = map_option (WrapError ''failed to save on close: '') r" "w = w3"
    using assms(6) save by (auto simp: mem_Close_save store_path_def split: option.splits)
  have live: "saver ?v0 \<noteq> Crashed" using assms(1) by (simp add: alive_def)
  have 1: "saver_step std ?v0 ?v1" by (rule close_ticker [OF live assms(3)])
  have 2: "saver_step std ?v1 ?v2" by (rule close_done) (simp_all add: live set_mem_def)
  have "saves std ?v2 r w3" by (rule saves.intros [OF _ _ save]) (simp_all add: assms set_mem_def)
  then have 3: "saver_step std ?v2 ?v3" by (intro close_save) (simp_all add: live set_mem_def)
  let ?step = "server_step std gz sha256 cfg it req"
  have "?step s (s\<lparr>svr := ?v1\<rparr>)" by (rule close_storage [OF assms(1,2) 1]) (simp add: assms(3))
  moreover have "?step (s\<lparr>svr := ?v1\<rparr>) (s\<lparr>svr := ?v2\<rparr>)"
    using close_storage [of "s\<lparr>svr := ?v1\<rparr>" std ?v2 gz sha256 cfg it req] 2 assms(2) live
    by (simp add: alive_def set_mem_def)
  moreover have "?step (s\<lparr>svr := ?v2\<rparr>) (s\<lparr>svr := ?v3\<rparr>)"
    using close_storage [of "s\<lparr>svr := ?v2\<rparr>" std ?v3 gz sha256 cfg it req] 3 assms(2) live
    by (simp add: alive_def set_mem_def)
  ultimately have "?step\<^sup>*\<^sup>* s (s\<lparr>svr := ?v3\<rparr>)"
    by (meson rtranclp.rtrancl_into_rtrancl rtranclp.rtrancl_refl)
  moreover have "world ?v3 = w" "closer ?v3 = closer_pc.Finished res" "saver ?v3 = saver (svr s)"
    by (simp_all add: res set_mem_def)
  ultimately show ?thesis by blast
qed

section \<open>What survives\<close>


text \<open>A life with one request, \<open>POST /update/counter/c/37\<close>.\<close>

definition life_request :: "nat \<Rightarrow> request" where
  "life_request i = plain_request ''POST'' ''/update/counter/c/37''"

definition life_start :: server_run where
  "life_start = server_start \<lparr>mem = sample_mem, files = no_files\<rparr>"

abbreviation "life d \<equiv> server_step (sample_std d) marked toy_digest zero_ServerFlags no_order life_request"

lemma counter_served:
  "\<exists>cs. createRouter std marked toy_digest zero_ServerFlags (mem_storage std ic ig) False idle_limiter ctx (life_request i) a =
     (cs, a\<lparr>store := snd (mem_UpdateCounter ''c'' 37 (store a))\<rparr>) \<and> status (serve cs) = StatusOK"
proof -
  let ?S = "mem_storage std ic ig" and ?a = "a\<lparr>store := snd (mem_UpdateCounter ''c'' 37 (store a))\<rparr>"
  have pi: "ParseInt ''37'' = Inr 37" by (simp add: ParseInt_def ParseUint_def digit_value_def)
  have "sv_UpdateCounter (NewMetricService ?S) ctx ''c'' 37 a = (None, ?a)"
    by (simp add: NewMetricService_def svc_defs mem_storage_sel mem_UpdateCounter_def)
  then have rt: "routes std ?S (NewMetricService ?S) ctx (life_request i) a = ([WriteHeader StatusOK], ?a)"
    using pi counter_route
    by (simp add: life_request_def routes_def routed_def UpdateMetric_def updateMetricByType_def with_params_def)
  have "status (serve (CompressResponse gz Map.empty r [WriteHeader StatusOK])) = StatusOK" for gz r
    by (simp only: status_compressed) (simp add: status_serve)
  with rt show ?thesis by (simp add: life_request_def createRouter_served [OF plain_gate])
qed

lemma counter_life:
  assumes "alive s" "phase_of (tracked s) i = Some Running" "answers s i = None"
  shows "life d s (s\<lparr>svr := (svr s)\<lparr>world := snd (mem_UpdateCounter ''c'' 37 (world (svr s)))\<rparr>,
     answers := (answers s)(i \<mapsto> StatusOK), acked := acked s @ [counter_metric ''c'' 37]\<rparr>)"
proof -
  obtain cs where cs: "createRouter (sample_std d) marked toy_digest zero_ServerFlags (mem_storage (sample_std d) (fst no_order) (snd no_order))
      False idle_limiter background (life_request i) (run_app s) =
      (cs, (run_app s)\<lparr>store := snd (mem_UpdateCounter ''c'' 37 (store (run_app s)))\<rparr>)" "status (serve cs) = StatusOK"
    using counter_served by blast
  have eff: "arrival_effect (sample_std d) marked toy_digest zero_ServerFlags
      \<lparr>ar_ctx = background, ar_shutdown = False, ar_limiter = idle_limiter, ar_request = life_request i\<rparr> = [counter_metric ''c'' 37]"
    by (simp add: arrival_effect_def life_request_def plain_gate counter_effect)
  show ?thesis
    using handled [where req = life_request and i = i and it = no_order, OF assms cs(1)] cs(2) eff by (simp add: run_app_def)
qed

definition mem42 :: memStorage where
  "mem42 = sample_mem\<lparr>counters := [''c'' \<mapsto> 42]\<rparr>"

definition doc42 :: json where
  "doc42 = JArr
     [JObj [(''id'', JStr ''c''), (''type'', JStr ''counter''), (''delta'', JNum (FormatInt 42))],
      JObj [(''id'', JStr ''g''), (''type'', JStr ''gauge''), (''value'', JNum ''1'')]]"

lemma saved42: "saved_metrics [''c''] [''g''] mem42 = [counter_metric ''c'' 42, gauge_metric ''g'' f64_one]"
  by (simp add: mem42_def sample_mem_def saved_metrics_def)

lemma marshal42: "marshal_metrics (sample_std d) [counter_metric ''c'' 42, gauge_metric ''g'' f64_one] = Inr doc42"
  by (simp add: marshal_metrics_def marshal_metric_def doc42_def omitempty_def counter_metric_def gauge_metric_def
      Counter_def Gauge_def)

lemma orders42:
  "map_order (counters mem42) ordc \<longleftrightarrow> ordc = [''c'']" "map_order (gauges mem42) ordg \<longleftrightarrow> ordg = [''g'']"
  using sample_orders by (simp_all add: mem42_def map_order_def sample_mem_def)

lemma counted42: "mem_UpdateCounter ''c'' 37 \<lparr>mem = sample_mem, files = fs\<rparr> = (None, \<lparr>mem = mem42, files = fs\<rparr>)"
  by (simp add: mem_UpdateCounter_def sample_mem_def mem42_def)

definition closed42 :: mem_world where
  "closed42 = \<lparr>mem = mem42\<lparr>ticker := None, done_closed := True\<rparr>,
     files = no_files\<lparr>fs_file := [''m.json'' \<mapsto> json_write_indent (sample_std doc42) doc42]\<rparr>\<rparr>"

lemma Close42: "mem_Close (sample_std doc42) [''c''] [''g''] \<lparr>mem = mem42, files = no_files\<rparr> = (None, closed42)"
proof -
  have "saved_metrics [''c''] [''g''] (mem42\<lparr>ticker := None, done_closed := True\<rparr>) = saved_metrics [''c''] [''g''] mem42"
    by (simp add: saved_metrics_def)
  then show ?thesis
    using mem_SaveToFile_ok [of "''m.json''" "\<lparr>mem = mem42\<lparr>ticker := None, done_closed := True\<rparr>, files = no_files\<rparr>"
        "sample_std doc42" "[''c'']" "[''g'']" doc42]
    by (simp add: mem_Close_save closed42_def file_writable_def no_files_def saved42 marshal42)
      (simp add: mem42_def sample_mem_def sample_flags_def)
qed

text \<open>The request is served, then the server stops in order.\<close>

lemma orderly_life:
  "\<exists>s. (life doc42)\<^sup>*\<^sup>* life_start s \<and> drained s \<and> closer (svr s) = closer_pc.Finished None
     \<and> world (svr s) = closed42 \<and> acked s = [counter_metric ''c'' 37]"
proof -
  let ?s0 = "life_start"
  let ?s1 = "?s0\<lparr>tracked := (tracked ?s0)\<lparr>phase_of := [0 \<mapsto> Checked]\<rparr>\<rparr>"
  let ?s2 = "?s1\<lparr>tracked := (tracked ?s1)\<lparr>wg := 1, phase_of := [0 \<mapsto> Running]\<rparr>\<rparr>"
  let ?s3 = "?s2\<lparr>svr := (svr ?s2)\<lparr>world := \<lparr>mem = mem42, files = no_files\<rparr>\<rparr>,
     answers := [0 \<mapsto> StatusOK], acked := [counter_metric ''c'' 37]\<rparr>"
  let ?s4 = "?s3\<lparr>tracked := (tracked ?s3)\<lparr>wg := 0, phase_of := [0 \<mapsto> phase.Finished]\<rparr>\<rparr>"
  let ?s5 = "?s4\<lparr>tracked := (tracked ?s4)\<lparr>closed := True\<rparr>, stage := Draining\<rparr>"
  let ?s6 = "?s5\<lparr>stage := WaitingActive, drained := True\<rparr>"
  let ?s7 = "?s6\<lparr>tracked := (tracked ?s6)\<lparr>waited := True\<rparr>, stage := ClosingAll\<rparr>"
  note start = life_start_def server_start_def saver_start_def new_tracker_def alive_def
  have "life doc42 ?s0 ?s1"
    using admit [of ?s0 0 "sample_std doc42" marked toy_digest zero_ServerFlags no_order life_request] by (simp add: start)
  moreover have "life doc42 ?s1 ?s2"
    using enter [of ?s1 0 "sample_std doc42" marked toy_digest zero_ServerFlags no_order life_request] by (simp add: start)
  moreover have "life doc42 ?s2 ?s3"
    using counter_life [of ?s2 0 doc42] by (simp add: start counted42)
  moreover have "life doc42 ?s3 ?s4"
    using responded [of ?s3 0 "sample_std doc42" marked toy_digest zero_ServerFlags no_order life_request] by (simp add: start)
  moreover have "life doc42 ?s4 ?s5" by (rule signalled) (simp_all add: start)
  moreover have "life doc42 ?s5 ?s6" by (rule shutdown_nil) (simp_all add: start requests_in_flight_def)
  moreover have "life doc42 ?s6 ?s7" by (rule all_done) (simp_all add: start)
  ultimately have run: "(life doc42)\<^sup>*\<^sup>* ?s0 ?s7"
    by (meson rtranclp.rtrancl_into_rtrancl rtranclp.rtrancl_refl)
  have c: "alive ?s7" "stage ?s7 = ClosingAll" "closer (svr ?s7) = Open" "world (svr ?s7) = \<lparr>mem = mem42, files = no_files\<rparr>"
    by (simp_all add: start)
  obtain v where v: "(life doc42)\<^sup>*\<^sup>* ?s7 (?s7\<lparr>svr := v\<rparr>)" "world v = closed42" "closer v = closer_pc.Finished None"
    using closing_run [OF c(1-3), of "[''c'']" "[''g'']" "sample_std doc42" None closed42 marked toy_digest zero_ServerFlags no_order life_request]
    by (auto simp: c(4) orders42 Close42)
  show ?thesis
    by (rule exI [of _ "?s7\<lparr>svr := v\<rparr>"]) (use run v in \<open>simp add: rtranclp_trans\<close>)
qed


section \<open>What may be lost\<close>

lemma restored_sample:
  "\<exists>w2. NewMemStorage (sample_std sample_doc) sample_flags (files closed_world) = Return (Some w2)
     \<and> tab_counters (mem_view w2) ''c'' = Some 5"
proof -
  have um: "unmarshal_metrics (sample_std sample_doc) sample_doc = Inr (saved_metrics [''c''] [''g''] sample_mem)"
  proof -
    have "gauges_read_back (sample_std sample_doc) sample_mem"
      by (simp add: gauges_read_back_def float_reads_back_def sample_mem_def)
    from save_load_document [OF this, of "[''c'']" "[''g'']"] sample_saved [of sample_doc] show ?thesis by auto
  qed
  have l: "mem_LoadFromFile (sample_std sample_doc) (FileStoragePath sample_flags)
      \<lparr>mem = fresh_memStorage sample_flags, files = files closed_world\<rparr> =
      (None, \<lparr>mem = load_all (saved_metrics [''c''] [''g''] sample_mem) (fresh_memStorage sample_flags), files = files closed_world\<rparr>)"
    using mem_LoadFromFile_ok [of _ "FileStoragePath sample_flags" "sample_std sample_doc" sample_doc, OF _ _ _ um,
        of "\<lparr>mem = fresh_memStorage sample_flags, files = files closed_world\<rparr>"]
    by (simp add: closed_world_def no_files_def sample_flags_def text_reads_back_def)
  have o1: "map_order (counters sample_mem) [''c'']" "map_order (gauges sample_mem) [''g'']"
    by (simp_all add: sample_orders)
  have f: "Restore sample_flags" "interval_ok sample_flags"
    by (simp_all add: sample_flags_def interval_ok_def Second_def)
  from NewMemStorage_restored [OF f l [unfolded load_saved [OF o1]]] show ?thesis
    by (auto simp: fresh_memStorage_def mem_view_def sample_mem_def)
qed

text \<open>
  C25. When \<open>http.Server.Shutdown\<close> gives up, an acknowledged update can be lost: the request has
  passed the check for shutdown but is not yet counted in the wait group, so \<open>Wait\<close> returns at once,
  \<open>Close\<close> writes the file without an error, and only then the update is applied and answered 200. It
  is in no file, and a server started with \<open>Restore\<close> does not have it.
\<close>

theorem late_update_is_lost:
  "\<exists>s w2. (life sample_doc)\<^sup>*\<^sup>* life_start s \<and> waited (tracked s) \<and> closer (svr s) = closer_pc.Finished None
     \<and> answers s 0 = Some StatusOK \<and> acked s = [counter_metric ''c'' 37]
     \<and> tab_counters (mem_view (world (svr s))) ''c'' = Some 42
     \<and> NewMemStorage (sample_std sample_doc) sample_flags (files (world (svr s))) = Return (Some w2)
     \<and> tab_counters (mem_view w2) ''c'' = Some 5"
proof -
  let ?s0 = "life_start"
  let ?s1 = "?s0\<lparr>tracked := (tracked ?s0)\<lparr>phase_of := [0 \<mapsto> Checked]\<rparr>\<rparr>"
  let ?s2 = "?s1\<lparr>tracked := (tracked ?s1)\<lparr>closed := True\<rparr>, stage := Draining\<rparr>"
  let ?s3 = "?s2\<lparr>stage := WaitingActive\<rparr>"
  let ?s4 = "?s3\<lparr>tracked := (tracked ?s3)\<lparr>waited := True\<rparr>, stage := ClosingAll\<rparr>"
  note start = life_start_def server_start_def saver_start_def new_tracker_def alive_def
  have "life sample_doc ?s0 ?s1"
    using admit [of ?s0 0 "sample_std sample_doc" marked toy_digest zero_ServerFlags no_order life_request] by (simp add: start)
  moreover have "life sample_doc ?s1 ?s2" by (rule signalled) (simp_all add: start)
  moreover have "life sample_doc ?s2 ?s3" by (rule shutdown_timeout) (simp_all add: start)
  moreover have "life sample_doc ?s3 ?s4" by (rule all_done) (simp_all add: start)
  ultimately have run: "(life sample_doc)\<^sup>*\<^sup>* ?s0 ?s4"
    by (meson rtranclp.rtrancl_into_rtrancl rtranclp.rtrancl_refl)
  have c: "alive ?s4" "stage ?s4 = ClosingAll" "closer (svr ?s4) = Open" "world (svr ?s4) = \<lparr>mem = sample_mem, files = no_files\<rparr>"
    by (simp_all add: start)
  have w0: "world (svr ?s0) = \<lparr>mem = sample_mem, files = no_files\<rparr>" "saver (svr ?s0) = AtSelect"
    by (simp_all add: start)
  obtain v where v: "(life sample_doc)\<^sup>*\<^sup>* ?s4 (?s4\<lparr>svr := v\<rparr>)" "world v = closed_world"
      "closer v = closer_pc.Finished None" "saver v = AtSelect"
    using closing_run [OF c(1-3), of "[''c'']" "[''g'']" "sample_std sample_doc" None closed_world marked toy_digest zero_ServerFlags no_order life_request]
    using c(4) w0 by (auto simp: sample_orders sample_Close)
  let ?s5 = "?s4\<lparr>svr := v\<rparr>"
  let ?s6 = "?s5\<lparr>tracked := (tracked ?s5)\<lparr>wg := 1, phase_of := [0 \<mapsto> Running]\<rparr>\<rparr>"
  let ?s7 = "?s6\<lparr>svr := v\<lparr>world := snd (mem_UpdateCounter ''c'' 37 closed_world)\<rparr>,
     answers := [0 \<mapsto> StatusOK], acked := [counter_metric ''c'' 37]\<rparr>"
  have "life sample_doc ?s5 ?s6"
    using enter [of ?s5 0 "sample_std sample_doc" marked toy_digest zero_ServerFlags no_order life_request] v(4) by (simp add: start)
  moreover have "life sample_doc ?s6 ?s7"
    using counter_life [of ?s6 0 sample_doc] v(2,4) by (simp add: start)
  ultimately have "(life sample_doc)\<^sup>*\<^sup>* ?s0 ?s7"
    using run v(1) by (meson rtranclp.rtrancl_into_rtrancl rtranclp_trans)
  moreover have w: "snd (mem_UpdateCounter ''c'' 37 closed_world) = closed_world\<lparr>mem := (mem closed_world)\<lparr>counters := [''c'' \<mapsto> 42]\<rparr>\<rparr>"
    by (simp add: mem_UpdateCounter_def closed_world_def sample_mem_def)
  moreover obtain w2 where "NewMemStorage (sample_std sample_doc) sample_flags (files (world (svr ?s7))) = Return (Some w2)"
    "tab_counters (mem_view w2) ''c'' = Some 5"
    using restored_sample by (auto simp: w)
  ultimately show ?thesis
    using v(3) by (intro exI [of _ ?s7] exI [of _ w2]) (simp add: w, simp add: mem_view_def start)
qed

end
