(* ===== verification/EndToEnd.thy ===== *)
theory EndToEnd
  imports Router AgentApp
begin

text \<open>
  The agent and the server together, and the properties of the server's request chain. The wire
  between them is the server itself: a request of the client is served by the chain of
  \<open>createRouter\<close>, and the response is what the client receives. A second wire loses responses.
\<close>

section \<open>The wire\<close>

definition server_request :: "bytes \<Rightarrow> bytes \<Rightarrow> client_request \<Rightarrow> request" where
  "server_request base remote cr =
     \<lparr>req_method = cr_method cr, req_path = drop (length base) (cr_url cr), req_header = cr_header cr,
      req_body = Inr (case cr_body cr of None \<Rightarrow> [] | Some b \<Rightarrow> b),
      ContentLength = (case cr_body cr of None \<Rightarrow> 0 | Some b \<Rightarrow> int (length b)),
      RemoteAddr = remote, url_param = (\<lambda>p. [])\<rparr>"

definition server_wire :: "bytes \<Rightarrow> bytes \<Rightarrow> 's handler \<Rightarrow> 's wire" where
  "server_wire base remote h =
     \<lparr>new_request_error = (\<lambda>url. None),
      http_Do = (\<lambda>cr a.
        (case h background (server_request base remote cr) a of
           (cs, a') \<Rightarrow>
             (Inr \<lparr>rs_status = status (serve cs), rs_header = resp_header (serve cs),
                   rs_body = Inr (body (serve cs))\<rparr>, a')))\<rparr>"

section \<open>The chain\<close>

lemma updates_route: "route ''POST'' (path_segments ''/updates/'') = EUpdates"
  by code_simp

lemma gzip_name: "isGzipEncoding ''gzip''" "client_isGzipEncoding ''gzip''"
proof -
  show "isGzipEncoding ''gzip''" unfolding isGzipEncoding_def gzip_scan_list scan_list_any by code_simp
  show "client_isGzipEncoding ''gzip''" by code_simp
qed

lemma UpdateMetrics_mem:
  assumes "app_ok a" "posted_batch std r = Some ms"
  shows "\<exists>a'. UpdateMetrics std (mem_service std it) ctx r a = ([WriteHeader StatusOK], a')
     \<and> app_ok a' \<and> table_of a' = apply_metrics ms (table_of a)
     \<and> (\<exists>ev. published a' = published a @ [ev] \<and> slice_elems (EvMetrics ev) = map ID ms)"
proof -
  obtain a' where sv: "sv_UpdateMetrics (mem_service std it) ctx ms (RemoteAddr r) a = (None, a')"
    using mem_service_never_fails(3) by blast
  have run: "UpdateMetrics std (mem_service std it) ctx r a = ([WriteHeader StatusOK], a')"
    using assms(2) sv by (auto simp: UpdateMetrics_def posted_batch_def split: if_splits sum.splits)
  from api.svUpdateMetrics_ok [OF assms(1) sv] run show ?thesis by (auto split: if_splits)
qed

lemma routes_updates:
  assumes "req_method r = ''POST''" "req_path r = ''/updates/''"
  shows "routes std storage service ctx r a = UpdateMetrics std service ctx r a"
  using assms by (simp add: routes_def updates_route)

text \<open>A batch request that unpacks to a plain body, and whose hash is right or absent.\<close>

lemma chain_batch:
  assumes "app_ok a" "fst (limiter_enter l) \<noteq> Rejected"
    and "req_method r = ''POST''" "req_path r = ''/updates/''"
    and "DecompressRequest gz r = Inr r1" "req_body r1 = Inr plain"
    and "SecretKet cfg = [] \<or> given_hash r = [] \<or> given_hash r = hex (sha256 (SecretKet cfg @ plain))"
    and "posted_batch std r1 = Some ms"
  shows "\<exists>a'. createRouter std gz sha256 cfg (mem_storage std (fst it) (snd it)) False l ctx r a =
        (CompressResponse gz Map.empty r1 [WriteHeader StatusOK], a')
     \<and> app_ok a' \<and> table_of a' = apply_metrics ms (table_of a)
     \<and> (\<exists>ev. published a' = published a @ [ev] \<and> slice_elems (EvMetrics ev) = map ID ms)"
proof -
  let ?S = "mem_storage std (fst it) (snd it)"
  have frame: "req_method r1 = req_method r" "req_path r1 = req_path r" "req_header r1 = req_header r"
    using assms(5) by (auto simp: DecompressRequest_def split: if_splits sum.splits)
  then have gh: "given_hash r1 = given_hash r" by (simp add: given_hash_def Let_def)
  obtain a' where a': "UpdateMetrics std (mem_service std it) ctx r1 a = ([WriteHeader StatusOK], a')"
      "app_ok a'" "table_of a' = apply_metrics ms (table_of a)"
      "\<exists>ev. published a' = published a @ [ev] \<and> slice_elems (EvMetrics ev) = map ID ms"
    using UpdateMetrics_mem [OF assms(1,8), of it ctx] by blast
  have inner: "routes std ?S (NewMetricService ?S) ctx r1 a = ([WriteHeader StatusOK], a')"
    using a'(1) frame assms(3,4) by (simp add: routes_updates mem_service_def)
  have "(if SecretKet cfg \<noteq> []
         then HashValidationMiddleware (Some (NewSHA256Signer sha256 (SecretKet cfg))) (routes std ?S (NewMetricService ?S))
         else routes std ?S (NewMetricService ?S)) ctx r1 a = ([WriteHeader StatusOK], a')"
    using inner assms(6,7) gh sha.middleware_cases [of sha256 "SecretKet cfg" "routes std ?S (NewMetricService ?S)" ctx r1 a]
    by (auto simp: NewSHA256Signer_def sha_Sign_def)
  then have "createRouter std gz sha256 cfg ?S False l ctx r a = (CompressResponse gz Map.empty r1 [WriteHeader StatusOK], a')"
    using assms(5) by (simp add: chain_open [OF assms(2)] Compress_def)
  with a' show ?thesis by blast
qed

section \<open>From the agent to the table\<close>

text \<open>The laws of the libraries on both sides: gzip streams unpack, the JSON text of the batch
  reads back, and the floats in it do.\<close>

definition codecs_agree :: "go_std \<Rightarrow> gzip_format \<Rightarrow> (int \<Rightarrow> bytes \<Rightarrow> bytes) \<Rightarrow> Metrics list \<Rightarrow> bool" where
  "codecs_agree std gz pack ms \<longleftrightarrow>
     (\<forall>b. gz_open gz (Inr (gz_pack gz b)) = Inr (Inr b))
     \<and> (\<forall>b. gz_open gz (Inr (pack (-1) b)) = Inr (Inr b))
     \<and> (\<forall>doc. marshal_metrics std ms = Inr doc \<longrightarrow> json_read_first std (json_write std doc) = Inr doc)
     \<and> (\<forall>m \<in> set ms. metric_reads_back std m)"

lemma codecsD:
  assumes "codecs_agree std gz pack ms"
  shows "gz_open gz (Inr (gz_pack gz b)) = Inr (Inr b)" "gz_open gz (Inr (pack (-1) b)) = Inr (Inr b)"
    "\<exists>doc. marshal_metrics std ms = Inr doc \<and> json_read_first std (json_write std doc) = Inr doc
       \<and> unmarshal_metrics std doc = Inr ms"
  using assms unmarshal_marshal_metrics [of ms std] by (auto simp: codecs_agree_def)

lemma NewClient_fields:
  assumes "NewClient url signer cfg = Inr c"
  shows "cl_headers c = []" "cl_cfg c = cfg" "rp_signer (requestProcessor c) = signer"
    "compressionLevel (requestProcessor c) = -1" "useGzip (requestProcessor c)" "minSizeToCompress (requestProcessor c) = 32"
  using assms by (auto simp: NewClient_def NewRequestProcessor_def)

lemma ok_response:
  assumes "codecs_agree std gz pack ms" "hget (req_header r1) ''Accept-Encoding'' = ''gzip''"
    "cs = CompressResponse gz Map.empty r1 [WriteHeader StatusOK]"
  shows "status (serve cs) = StatusOK"
    "ProcessResponse gz \<lparr>rs_status = st, rs_header = resp_header (serve cs), rs_body = Inr (body (serve cs))\<rparr> = Inr []"
proof -
  have cs: "cs = cw_calls gz [WriteHeader StatusOK] fresh_cw"
    using assms(2,3) gzip_name(1) by (simp add: CompressResponse_def hget_def isGzipAccepted_def)
  have plain: "serve [WriteHeader StatusOK] = \<lparr>status = StatusOK, resp_header = Map.empty, body = []\<rparr>"
    by (simp add: serve_def Let_def fresh_writer_def rw_WriteHeader_def)
  have sv: "serve cs = \<lparr>status = StatusOK, resp_header = hset ''Content-Encoding'' ''gzip'' Map.empty, body = gz_pack gz []\<rparr>"
    unfolding cs serve_compressed plain by (simp add: gzip_header_def status_defs)
  then show "status (serve cs) = StatusOK" by simp
  show "ProcessResponse gz \<lparr>rs_status = st, rs_header = resp_header (serve cs), rs_body = Inr (body (serve cs))\<rparr> = Inr []"
    using gzip_name(2) codecsD(1) [OF assms(1), of "[]"]
    by (simp add: sv ProcessResponse_def svc_Decompress_def hget_def hset_def)
qed

lemma sent_request:
  assumes "NewClient url (agent_signer sha256 acfg) acfg = Inr c" "codecs_agree std gz pack ms"
  obtains reader plain hv doc where
    "ProcessRequest std pack (requestProcessor c) (Some ms) = Inr (Some reader, Some plain, hv)"
    "marshal_metrics std ms = Inr doc" "plain = json_write std doc"
    "SecretKey acfg \<noteq> [] \<Longrightarrow> hv = hex (sha256 (SecretKey acfg @ plain))"
    "if shouldCompress (requestProcessor c) plain then gz_open gz (Inr reader) = Inr (Inr plain) else reader = plain"
proof -
  note f = NewClient_fields [OF assms(1)]
  from codecsD(3) [OF assms(2)] obtain doc where doc: "marshal_metrics std ms = Inr doc" by blast
  let ?b = "json_write std doc"
  let ?hv = "case rp_signer (requestProcessor c) of None \<Rightarrow> [] | Some sg \<Rightarrow> Sign sg ?b"
  let ?reader = "if shouldCompress (requestProcessor c) ?b then pack (-1) ?b else ?b"
  have ne: "shouldCompress (requestProcessor c) ?b \<Longrightarrow> ?b \<noteq> []"
    using f(6) by (auto simp: shouldCompress_def)
  have "ProcessRequest std pack (requestProcessor c) (Some ms) = Inr (Some ?reader, Some ?b, ?hv)"
    using doc ne f(4) by (simp add: ProcessRequest_def Let_def svc_Compress_def)
  moreover have "SecretKey acfg \<noteq> [] \<Longrightarrow> ?hv = hex (sha256 (SecretKey acfg @ ?b))"
    by (simp add: f(3) agent_signer_def NewSHA256Signer_def sha_Sign_def)
  moreover have "if shouldCompress (requestProcessor c) ?b then gz_open gz (Inr ?reader) = Inr (Inr ?b) else ?reader = ?b"
    using codecsD(2) [OF assms(2)] by simp
  ultimately show thesis using that doc by blast
qed

text \<open>The request that carries a batch, and what an attempt to send it makes of the answer.\<close>

definition judge_answer :: "gzip_format \<Rightarrow> (goerr + client_response) \<times> 'n \<Rightarrow> (goerr + bytes) \<times> 'n" where
  "judge_answer gz ans =
     (case ans of
        (Inl err, n') \<Rightarrow> (Inl (WrapError ''executing request failed: '' err), n')
      | (Inr resp, n') \<Rightarrow>
          (case ProcessResponse gz resp of
             Inl err \<Rightarrow> (Inl err, n')
           | Inr b \<Rightarrow>
               if rs_status resp \<ge> StatusBadRequest then (Inl (status_error (rs_status resp) b), n') else (Inr b, n')))"

lemma posted_request:
  fixes W :: "'n wire"
  assumes "NewClient url (agent_signer sha256 acfg) acfg = Inr c" "codecs_agree std gz pack ms"
    and "new_request_error W = (\<lambda>url. None)"
  obtains cr r1 plain where
    "\<And>n. doRequest std gz pack W c ''POST'' ''/updates/'' (Some ms) n = judge_answer gz (http_Do W cr n)"
    "req_method (server_request (baseURL c) remote cr) = ''POST''"
    "req_path (server_request (baseURL c) remote cr) = ''/updates/''"
    "DecompressRequest gz (server_request (baseURL c) remote cr) = Inr r1"
    "req_body r1 = Inr plain"
    "given_hash (server_request (baseURL c) remote cr) = (if SecretKey acfg = [] then [] else hex (sha256 (SecretKey acfg @ plain)))"
    "posted_batch std r1 = Some ms" "hget (req_header r1) ''Accept-Encoding'' = ''gzip''"
proof -
  note f = NewClient_fields [OF assms(1)]
  obtain reader plain hv doc where
    p: "ProcessRequest std pack (requestProcessor c) (Some ms) = Inr (Some reader, Some plain, hv)"
    and doc: "marshal_metrics std ms = Inr doc" "plain = json_write std doc"
    and hv: "SecretKey acfg \<noteq> [] \<Longrightarrow> hv = hex (sha256 (SecretKey acfg @ plain))"
    and rd: "if shouldCompress (requestProcessor c) plain then gz_open gz (Inr reader) = Inr (Inr plain) else reader = plain"
    using sent_request [OF assms(1,2)] by metis
  define cr where "cr = \<lparr>cr_method = ''POST'', cr_url = baseURL c @ ''/updates/'',
      cr_header = setRequestHeaders c (Some plain) hv Map.empty, cr_body = Some reader\<rparr>"
  define r where "r = server_request (baseURL c) remote cr"
  define r1 where "r1 = r\<lparr>req_body := Inr plain\<rparr>"
  note hd = sent_headers [OF f(1), of plain hv]
  have r: "req_method r = ''POST''" "req_path r = ''/updates/''" "req_body r = Inr reader"
    "req_header r = setRequestHeaders c (Some plain) hv Map.empty"
    by (simp_all add: r_def server_request_def cr_def)
  have dec: "DecompressRequest gz r = Inr r1"
  proof (cases "shouldCompress (requestProcessor c) plain")
    case True
    with rd hd(3) gzip_name(1) show ?thesis by (simp add: DecompressRequest_def r r1_def)
  next
    case False
    then have "r1 = r" using rd r(3) by (cases r) (simp add: r1_def)
    with False hd(3) show ?thesis by (simp add: DecompressRequest_def r isGzipEncoding_def)
  qed
  have gh: "given_hash r = (if SecretKey acfg = [] then [] else hex (sha256 (SecretKey acfg @ plain)))"
    using hd(4,5) hv f(3) by (auto simp: given_hash_def r Let_def agent_signer_def)
  have posted: "posted_batch std r1 = Some ms"
    using codecsD(3) [OF assms(2)] doc hd(1)
    by (auto simp: posted_batch_def json_content_def decode_body_def r1_def r)
  have req: "doRequest std gz pack W c ''POST'' ''/updates/'' (Some ms) n = judge_answer gz (http_Do W cr n)" for n
    by (simp add: doRequest_def p assms(3) cr_def judge_answer_def Let_def)
  show thesis
    by (rule that [of cr r1 plain]) (use req r dec gh posted hd(2) in \<open>simp_all add: r_def r1_def\<close>)
qed

lemma server_wire_sel [simp]:
  "new_request_error (server_wire base remote h) = (\<lambda>url. None)"
  "http_Do (server_wire base remote h) cr a =
     (case h background (server_request base remote cr) a of
        (cs, a') \<Rightarrow> (Inr \<lparr>rs_status = status (serve cs), rs_header = resp_header (serve cs), rs_body = Inr (body (serve cs))\<rparr>, a'))"
  by (simp_all add: server_wire_def)

lemma request_arrives:
  assumes "NewClient url (agent_signer sha256 acfg) acfg = Inr c" "codecs_agree std gz pack ms"
    and "SecretKet scfg = [] \<or> SecretKey acfg = [] \<or> SecretKet scfg = SecretKey acfg"
    and "app_ok a" "fst (limiter_enter l) \<noteq> Rejected"
  shows "\<exists>a'. doRequest std gz pack
        (server_wire (baseURL c) remote (createRouter std gz sha256 scfg (mem_storage std (fst it) (snd it)) False l))
        c ''POST'' ''/updates/'' (Some ms) a = (Inr [], a')
     \<and> app_ok a' \<and> table_of a' = apply_metrics ms (table_of a)
     \<and> (\<exists>ev. published a' = published a @ [ev] \<and> slice_elems (EvMetrics ev) = map ID ms)"
proof -
  let ?h = "createRouter std gz sha256 scfg (mem_storage std (fst it) (snd it)) False l"
  let ?W = "server_wire (baseURL c) remote ?h"
  obtain cr r1 plain where
    req: "\<And>n. doRequest std gz pack ?W c ''POST'' ''/updates/'' (Some ms) n = judge_answer gz (http_Do ?W cr n)"
    and r: "req_method (server_request (baseURL c) remote cr) = ''POST''"
      "req_path (server_request (baseURL c) remote cr) = ''/updates/''"
      "DecompressRequest gz (server_request (baseURL c) remote cr) = Inr r1" "req_body r1 = Inr plain"
    and gh: "given_hash (server_request (baseURL c) remote cr) = (if SecretKey acfg = [] then [] else hex (sha256 (SecretKey acfg @ plain)))"
    and r1: "posted_batch std r1 = Some ms" "hget (req_header r1) ''Accept-Encoding'' = ''gzip''"
    using posted_request [OF assms(1,2) server_wire_sel(1), of "baseURL c" remote ?h remote] by metis
  have hash: "SecretKet scfg = [] \<or> given_hash (server_request (baseURL c) remote cr) = []
      \<or> given_hash (server_request (baseURL c) remote cr) = hex (sha256 (SecretKet scfg @ plain))"
    using assms(3) gh by auto
  obtain a' where run: "?h background (server_request (baseURL c) remote cr) a = (CompressResponse gz Map.empty r1 [WriteHeader StatusOK], a')"
    and a': "app_ok a'" "table_of a' = apply_metrics ms (table_of a)"
      "\<exists>ev. published a' = published a @ [ev] \<and> slice_elems (EvMetrics ev) = map ID ms"
    using chain_batch [of a l _ gz r1 plain scfg sha256 std ms it background, OF assms(4,5) r hash r1(1)] by blast
  have "doRequest std gz pack ?W c ''POST'' ''/updates/'' (Some ms) a = (Inr [], a')"
    using ok_response [OF assms(2) r1(2) refl] by (simp add: req run judge_answer_def status_defs)
  with a' show ?thesis by blast
qed

text \<open>One successful attempt is a successful \<open>Post\<close>.\<close>

lemma post_once:
  assumes "parse_delays std (ag_RetryDelays (cl_cfg c)) = Inr ds" "sint (ag_MaxRetries (cl_cfg c)) < 2 ^ 63 - 1"
    and "doRequest std gz pack W c ''POST'' endpoint (Some ms) n = (Inr b, n')"
  shows "client_Post std gz pack W c ctx endpoint ms n = (Inr b, n')"
proof -
  have "retry_do ctx \<lparr>MaxRetries = ag_MaxRetries (cl_cfg c), Delays = Some ds, IsRetryableFn = Some (\<lambda>err. isNetworkError (Some err))\<rparr>
      (request_attempt std gz pack W c ''POST'' endpoint (Some ms)) ([], n) = (None, (b, n'))"
    by (rule retry_do_once) (use assms(2,3) in \<open>simp_all add: retries_bounded_def request_attempt_def\<close>)
  then show ?thesis by (simp add: client_Post_def doRequestWithRetry_def agent_GetRetryDelaysAsDuration_def assms(1))
qed

text \<open>A network error and then a success, too.\<close>

lemma post_second:
  assumes "parse_delays std (ag_RetryDelays (cl_cfg c)) = Inr ds"
    and "1 \<le> sint (ag_MaxRetries (cl_cfg c))" "sint (ag_MaxRetries (cl_cfg c)) < 2 ^ 63 - 1" "live_context ctx"
    and "doRequest std gz pack W c ''POST'' endpoint (Some ms) n = (Inl e, n1)" "isNetworkError (Some e)"
    and "doRequest std gz pack W c ''POST'' endpoint (Some ms) n1 = (Inr b, n2)"
  shows "client_Post std gz pack W c ctx endpoint ms n = (Inr b, n2)"
proof -
  have "request_attempt std gz pack W c ''POST'' endpoint (Some ms) ([], n) = (Some e, ([], n1))"
    "request_attempt std gz pack W c ''POST'' endpoint (Some ms) ([], n1) = (None, (b, n2))"
    using assms(5,7) by (simp_all add: request_attempt_def)
  then have "retry_do ctx \<lparr>MaxRetries = ag_MaxRetries (cl_cfg c), Delays = Some ds, IsRetryableFn = Some (\<lambda>err. isNetworkError (Some err))\<rparr>
      (request_attempt std gz pack W c ''POST'' endpoint (Some ms)) ([], n) = (None, (b, n2))"
    by (intro retry_do_second [OF _ assms(4)])
      (use assms(2,3,6) in \<open>simp_all add: retries_bounded_def max_retries_def retryable_of_def\<close>)
  then show ?thesis by (simp add: client_Post_def doRequestWithRetry_def agent_GetRetryDelaysAsDuration_def assms(1))
qed

text \<open>The table after a snapshot: its gauges over the old ones, and the polls added.\<close>

lemma apply_gauges: "apply_metrics (map (\<lambda>(k, v). gauge_metric k v) kvs) t =
    t\<lparr>tab_gauges := tab_gauges t ++ map_of (rev kvs)\<rparr>"
proof (induction kvs arbitrary: t)
  case (Cons kv kvs)
  then show ?case by (cases kv) (auto simp: table_eq_iff fun_eq_iff map_add_def split: option.splits)
qed simp

lemma apply_snapshot:
  assumes "map_order (ToMap m) ord"
  shows "tab_gauges (apply_metrics (snapshot_batch ord [] m d) t) = tab_gauges t ++ ToMap m"
    and "tab_counters (apply_metrics (snapshot_batch ord [] m d) t) =
      (if d = 0 then tab_counters t
       else (tab_counters t)(PollCount \<mapsto> (case tab_counters t PollCount of None \<Rightarrow> d | Some x \<Rightarrow> x + d)))"
proof -
  show "tab_gauges (apply_metrics (snapshot_batch ord [] m d) t) = tab_gauges t ++ ToMap m"
    using map_of_rev_range [OF assms] by (simp add: snapshot_batch_def apply_metrics_append apply_gauges)
  show "tab_counters (apply_metrics (snapshot_batch ord [] m d) t) =
      (if d = 0 then tab_counters t
       else (tab_counters t)(PollCount \<mapsto> (case tab_counters t PollCount of None \<Rightarrow> d | Some x \<Rightarrow> x + d)))"
    by (simp add: snapshot_batch_def apply_metrics_append apply_gauges fun_eq_iff)
qed

text \<open>
  C6. From the agent to the table: when the agent sends a snapshot with \<open>delta\<close> polls to a server
  over the in-memory storage, both with the same key (or one of them without), the send succeeds, and afterwards
  the server's gauges are the old ones overwritten by exactly the metrics of the snapshot, the
  counter \<open>PollCount\<close> has grown by \<open>delta\<close>, no other counter changed, and one audit event was
  published. This goes through JSON, signature, gzip, the whole middleware chain, the handler and
  the service, and back through the compressed response.
\<close>

theorem agent_snapshot_reaches_table:
  assumes "NewClient url (agent_signer sha256 acfg) acfg = Inr c"
    and "codecs_agree std gz pack (snapshot_batch ord [] metrics delta)"
    and "parse_delays std (ag_RetryDelays acfg) = Inr ds" "sint (ag_MaxRetries acfg) < 2 ^ 63 - 1"
    and "SecretKet scfg = [] \<or> SecretKey acfg = [] \<or> SecretKet scfg = SecretKey acfg"
    and "app_ok a" "fst (limiter_enter l) \<noteq> Rejected"
    and "map_order (ToMap metrics) ord" "slices.clean_pool p"
  shows "\<exists>p' a'. send std gz pack
        (server_wire (baseURL c) remote (createRouter std gz sha256 scfg (mem_storage std (fst it) (snd it)) False l))
        c choice ord ctx metrics delta (p, a) = (None, (p', a'))
     \<and> tab_gauges (table_of a') = tab_gauges (table_of a) ++ ToMap metrics
     \<and> tab_counters (table_of a') =
         (if delta = 0 then tab_counters (table_of a)
          else (tab_counters (table_of a))(PollCount \<mapsto>
                 (case tab_counters (table_of a) PollCount of None \<Rightarrow> delta | Some x \<Rightarrow> x + delta)))
     \<and> length (published a') = length (published a) + 1"
proof -
  let ?W = "server_wire (baseURL c) remote (createRouter std gz sha256 scfg (mem_storage std (fst it) (snd it)) False l)"
  note f = NewClient_fields [OF assms(1)]
  obtain a' where once: "doRequest std gz pack ?W c ''POST'' ''/updates/'' (Some (snapshot_batch ord [] metrics delta)) a = (Inr [], a')"
    and a': "table_of a' = apply_metrics (snapshot_batch ord [] metrics delta) (table_of a)"
      "\<exists>ev. published a' = published a @ [ev]"
    using request_arrives [OF assms(1,2,5-7), of remote it] by blast
  have post: "client_Post std gz pack ?W c ctx ''/updates/'' (snapshot_batch ord [] metrics delta) a = (Inr [], a')"
    by (rule post_once [OF _ _ once]) (use assms(3,4) in \<open>simp_all add: f(2)\<close>)
  from send_posts [OF assms(9,8) post, of choice] obtain p' where
    "send std gz pack ?W c choice ord ctx metrics delta (p, a) = (None, (p', a'))" by auto
  with a' apply_snapshot [OF assms(8), of delta "table_of a"] show ?thesis by auto
qed

text \<open>An instance: libraries that read back what they wrote, and a snapshot that is all zero but
  for the map form of the batch.\<close>

definition toy_pack :: "int \<Rightarrow> bytes \<Rightarrow> bytes" where
  "toy_pack level b = gz_pack marked b"

definition demo_snapshot :: MemoryMetrics where
  "demo_snapshot = \<lparr>Alloc = f64_one, BuckHashSys = f64_one, Frees = f64_one, GCCPUFraction = f64_one, GCSys = f64_one,
      HeapAlloc = f64_one, HeapIdle = f64_one, HeapInuse = f64_one, HeapObjects = f64_one, HeapReleased = f64_one,
      HeapSys = f64_one, LastGC = f64_one, Lookups = f64_one, MCacheInuse = f64_one, MCacheSys = f64_one,
      MSpanInuse = f64_one, MSpanSys = f64_one, Mallocs = f64_one, NextGC = f64_one, NumForcedGC = f64_one,
      NumGC = f64_one, OtherSys = f64_one, PauseTotalNs = f64_one, StackInuse = f64_one, StackSys = f64_one,
      Sys = f64_one, TotalAlloc = f64_one, RandomValue = f64_one, TotalMemory = f64_one, FreeMemory = f64_one,
      CPUutilization = None\<rparr>"

definition demo_order :: "bytes list" where
  "demo_order = map fst (metric_fields demo_snapshot)"

lemma demo_map: "ToMap demo_snapshot = map_of (metric_fields demo_snapshot)"
  by (simp add: ToMap_def demo_snapshot_def)

lemma demo_values: "v \<in> ran (map_of (metric_fields demo_snapshot)) \<Longrightarrow> v = f64_one"
proof -
  assume "v \<in> ran (map_of (metric_fields demo_snapshot))"
  then obtain k where "(k, v) \<in> set (metric_fields demo_snapshot)" by (auto simp: ran_def dest: map_of_SomeD)
  then show ?thesis by (auto simp: metric_fields_def demo_snapshot_def)
qed

lemma demo_order_ok: "map_order (ToMap demo_snapshot) demo_order"
proof -
  have "distinct demo_order"
    unfolding demo_order_def metric_fields_def by simp
  then show ?thesis
    by (simp add: map_order_def demo_map demo_order_def dom_map_of_conv_image_fst)
qed

definition demo_batch :: "Metrics list" where
  "demo_batch = snapshot_batch demo_order [] demo_snapshot 3"

lemma demo_batch_values: "m \<in> set demo_batch \<Longrightarrow> metric_reads_back (sample_std d) m"
proof -
  have one: "float_reads_back (sample_std d) f64_one" by (simp add: float_reads_back_def)
  assume "m \<in> set demo_batch"
  then consider k v where "m = gauge_metric k v" "(k, v) \<in> set (map_range (ToMap demo_snapshot) demo_order)"
    | "m = counter_metric PollCount 3"
    by (auto simp: demo_batch_def snapshot_batch_def)
  then show ?thesis
  proof cases
    case 1
    then have "v \<in> ran (ToMap demo_snapshot)" by (auto simp: set_map_range ran_def)
    with demo_values have "v = f64_one" by (simp add: demo_map)
    with 1 one show ?thesis by (simp add: metric_reads_back_def)
  qed (simp add: metric_reads_back_def)
qed

definition demo_doc :: json where
  "demo_doc = projr (marshal_metrics (sample_std JNull) demo_batch)"

definition demo_std :: go_std where
  "demo_std = sample_std demo_doc"

lemma marshal_sample: "marshal_metrics (sample_std d) ms = marshal_metrics (sample_std d') ms"
proof -
  have "marshal_metric (sample_std d) m = marshal_metric (sample_std d') m" for m
    by (simp add: marshal_metric_def split: option.split)
  then show ?thesis by (simp add: marshal_metrics_def ext [of "marshal_metric (sample_std d)" "marshal_metric (sample_std d')"])
qed

lemma demo_codecs: "codecs_agree demo_std marked toy_pack demo_batch"
proof -
  have "json_read_first demo_std (json_write demo_std doc) = Inr doc"
    if "marshal_metrics demo_std demo_batch = Inr doc" for doc
  proof -
    have "marshal_metrics (sample_std JNull) demo_batch = Inr doc"
      using that marshal_sample [of demo_doc demo_batch JNull] by (simp only: demo_std_def)
    then show ?thesis by (simp add: demo_std_def demo_doc_def)
  qed
  moreover have "gz_open marked (Inr (gz_pack marked b)) = Inr (Inr b)" for b by (simp add: marked_def)
  ultimately show ?thesis
    using demo_batch_values [of _ demo_doc] by (simp add: codecs_agree_def toy_pack_def demo_std_def)
qed

definition demo_agent :: AgentFlags where
  "demo_agent = zero_AgentFlags\<lparr>SecretKey := ''key'', ag_MaxRetries := 3, ag_RetryDelays := [''1s'']\<rparr>"

definition demo_server :: ServerFlags where
  "demo_server = zero_ServerFlags\<lparr>SecretKet := ''key''\<rparr>"

theorem agent_snapshot_reaches_table_witness:
  "\<exists>c p' a'. NewClient '':8080'' (agent_signer toy_digest demo_agent) demo_agent = Inr c
     \<and> send demo_std marked toy_pack
        (server_wire (baseURL c) ''10.0.0.1:4000''
           (createRouter demo_std marked toy_digest demo_server (mem_storage demo_std (fst no_order) (snd no_order)) False
              \<lparr>maxConcurrent = 0, semaphore = 0\<rparr>))
        c 0 demo_order background demo_snapshot 3 (NewMetricsBatchPool, sample_app) = (None, (p', a'))
     \<and> tab_counters (table_of a') PollCount = Some 3 \<and> tab_counters (table_of a') ''c'' = Some 5"
proof -
  obtain c where c: "NewClient '':8080'' (agent_signer toy_digest demo_agent) demo_agent = Inr c"
    by (simp add: NewClient_def NewRequestProcessor_def)
  have delays: "parse_delays demo_std (ag_RetryDelays demo_agent) = Inr [Second]"
    by (simp add: demo_agent_def demo_std_def)
  have pl: "slices.clean_pool NewMetricsBatchPool"
    unfolding NewMetricsBatchPool_def by (rule slices.New_clean) simp
  have "PollCount \<noteq> ''c''" by (simp add: PollCount_def)
  moreover note agent_snapshot_reaches_table [OF c demo_codecs [unfolded demo_batch_def] delays _ _ sample_app_ok _ demo_order_ok pl,
      of demo_server "\<lparr>maxConcurrent = 0, semaphore = 0\<rparr>" "''10.0.0.1:4000''" no_order 0 background]
  ultimately show ?thesis
    using c by (fastforce simp: demo_agent_def demo_server_def limiter_enter_def sample_table PollCount_def)
qed

section \<open>A lost response\<close>

text \<open>A wire that loses the next \<open>k\<close> responses, each after the server has served its request.\<close>

definition lossy_wire :: "goerr \<Rightarrow> 's wire \<Rightarrow> (nat \<times> 's) wire" where
  "lossy_wire e W =
     \<lparr>new_request_error = new_request_error W,
      http_Do = (\<lambda>cr (k, a).
        (case http_Do W cr a of
           (res, a') \<Rightarrow> (case k of 0 \<Rightarrow> (res, (0, a')) | Suc k' \<Rightarrow> (Inl e, (k', a')))))\<rparr>"

lemma lossy_lost:
  assumes "doRequest std gz pack W c method endpoint payload a = (Inr b, a')"
  shows "doRequest std gz pack (lossy_wire e W) c method endpoint payload (Suc k, a) =
    (Inl (WrapError ''executing request failed: '' e), (k, a'))"
  using assms by (auto simp: doRequest_def lossy_wire_def Let_def split: sum.splits prod.splits option.splits if_splits)

lemma lossy_through:
  assumes "doRequest std gz pack W c method endpoint payload a = (res, a')"
  shows "doRequest std gz pack (lossy_wire e W) c method endpoint payload (0, a) = (res, (0, a'))"
  using assms by (auto simp: doRequest_def lossy_wire_def Let_def split: sum.splits prod.splits option.splits if_splits)

text \<open>
  C16. A lost response counts the polls twice: when the server has applied a batch but its response
  is lost with what the client takes for a network error, the client posts the batch again, \<open>send\<close>
  reports success, and \<open>PollCount\<close> has grown by twice the polls, with two audit events; the gauges
  are those of the snapshot all the same.
\<close>

theorem lost_response_counts_twice:
  assumes "NewClient url (agent_signer sha256 acfg) acfg = Inr c"
    and "codecs_agree std gz pack (snapshot_batch ord [] metrics delta)"
    and "parse_delays std (ag_RetryDelays acfg) = Inr ds"
    and "1 \<le> sint (ag_MaxRetries acfg)" "sint (ag_MaxRetries acfg) < 2 ^ 63 - 1" "live_context ctx"
    and "SecretKet scfg = [] \<or> SecretKey acfg = [] \<or> SecretKet scfg = SecretKey acfg"
    and "app_ok a" "fst (limiter_enter l) \<noteq> Rejected"
    and "map_order (ToMap metrics) ord" "slices.clean_pool p" "delta \<noteq> 0"
    and "isNetworkError (Some (WrapError ''executing request failed: '' e))"
  shows "\<exists>p' a'. send std gz pack
        (lossy_wire e (server_wire (baseURL c) remote (createRouter std gz sha256 scfg (mem_storage std (fst it) (snd it)) False l)))
        c choice ord ctx metrics delta (p, (1, a)) = (None, (p', (0, a')))
     \<and> tab_gauges (table_of a') = tab_gauges (table_of a) ++ ToMap metrics
     \<and> tab_counters (table_of a') PollCount = Some (case_option 0 id (tab_counters (table_of a) PollCount) + delta + delta)
     \<and> length (published a') = length (published a) + 2"
proof -
  let ?V = "server_wire (baseURL c) remote (createRouter std gz sha256 scfg (mem_storage std (fst it) (snd it)) False l)"
  let ?ms = "snapshot_batch ord [] metrics delta"
  note f = NewClient_fields [OF assms(1)]
  obtain a1 where one: "doRequest std gz pack ?V c ''POST'' ''/updates/'' (Some ?ms) a = (Inr [], a1)"
    and a1: "app_ok a1" "table_of a1 = apply_metrics ?ms (table_of a)" "\<exists>ev. published a1 = published a @ [ev]"
    using request_arrives [OF assms(1,2,7-9), of remote it] by blast
  obtain a2 where two: "doRequest std gz pack ?V c ''POST'' ''/updates/'' (Some ?ms) a1 = (Inr [], a2)"
    and a2: "table_of a2 = apply_metrics ?ms (table_of a1)" "\<exists>ev. published a2 = published a1 @ [ev]"
    using request_arrives [OF assms(1,2,7) a1(1) assms(9), of remote it] by blast
  have "client_Post std gz pack (lossy_wire e ?V) c ctx ''/updates/'' ?ms (1, a) = (Inr [], (0, a2))"
    using lossy_lost [OF one, of e 0] assms(3-5)
    by (intro post_second [OF _ _ _ assms(6) _ assms(13) lossy_through [OF two]]) (simp_all add: f(2))
  from send_posts [OF assms(11,10) this, of choice] obtain p' where
    "send std gz pack (lossy_wire e ?V) c choice ord ctx metrics delta (p, (1, a)) = (None, (p', (0, a2)))" by auto
  moreover have "tab_gauges (table_of a2) = tab_gauges (table_of a) ++ ToMap metrics"
    by (simp add: a2(1) a1(2) apply_snapshot(1) [OF assms(10)] map_add_def fun_eq_iff split: option.split)
  moreover have "tab_counters (table_of a2) PollCount = Some (case_option 0 id (tab_counters (table_of a) PollCount) + delta + delta)"
    using assms(12) by (simp add: a2(1) a1(2) apply_snapshot(2) [OF assms(10)] split: option.split)
  moreover have "length (published a2) = length (published a) + 2"
    using a1(3) a2(2) by auto
  ultimately show ?thesis by blast
qed

definition awaiting :: goerr where
  "awaiting = ErrorString ''net/http: timeout awaiting response headers''"

theorem lost_response_counts_twice_witness:
  "\<exists>c p' a'. NewClient '':8080'' (agent_signer toy_digest demo_agent) demo_agent = Inr c
     \<and> send demo_std marked toy_pack
        (lossy_wire awaiting (server_wire (baseURL c) ''10.0.0.1:4000''
           (createRouter demo_std marked toy_digest demo_server (mem_storage demo_std (fst no_order) (snd no_order)) False
              \<lparr>maxConcurrent = 0, semaphore = 0\<rparr>)))
        c 0 demo_order background demo_snapshot 3 (NewMetricsBatchPool, (1, sample_app)) = (None, (p', (0, a')))
     \<and> tab_counters (table_of a') PollCount = Some 6"
proof -
  obtain c where c: "NewClient '':8080'' (agent_signer toy_digest demo_agent) demo_agent = Inr c"
    by (simp add: NewClient_def NewRequestProcessor_def)
  have delays: "parse_delays demo_std (ag_RetryDelays demo_agent) = Inr [Second]"
    by (simp add: demo_agent_def demo_std_def)
  have pl: "slices.clean_pool NewMetricsBatchPool"
    unfolding NewMetricsBatchPool_def by (rule slices.New_clean) simp
  have net: "isNetworkError (Some (WrapError ''executing request failed: '' awaiting))"
    unfolding awaiting_def by code_simp
  have live: "live_context background" by (simp add: live_context_def background_def)
  have no: "tab_counters (table_of sample_app) PollCount = None" by (simp add: sample_table PollCount_def)
  note lost_response_counts_twice [OF c demo_codecs [unfolded demo_batch_def] delays _ _ live _ sample_app_ok _ demo_order_ok pl _ net,
      of demo_server "\<lparr>maxConcurrent = 0, semaphore = 0\<rparr>" "''10.0.0.1:4000''" no_order 0]
  then show ?thesis
    using c no by (fastforce simp: demo_agent_def demo_server_def limiter_enter_def)
qed

section \<open>What the chain refuses\<close>

text \<open>
  C11. With a key configured, a request that carries a hash other than \<open>none\<close> which is not the
  signature of its (unpacked) body changes nothing, whatever its route: the chain answers it 400,
  or 503 while the server shuts down.
\<close>

theorem tampered_request_changes_nothing:
  assumes "SecretKet cfg \<noteq> []" "DecompressRequest gz r = Inr r1"
    and "given_hash r \<noteq> []" "given_hash r \<noteq> ''none''"
    and "\<And>b. req_body r1 = Inr b \<Longrightarrow> given_hash r \<noteq> hex (sha256 (SecretKet cfg @ b))"
    and "fst (limiter_enter l) \<noteq> Rejected"
    and "createRouter std gz sha256 cfg storage shutdown l ctx r a = (cs, a')"
  shows "a' = a \<and> status (serve cs) = (if shutdown then StatusServiceUnavailable else StatusBadRequest)"
proof (cases shutdown)
  case True
  with assms(7) show ?thesis
    by (auto simp: createRouter_def RequestLogger_def ResponseLogger_def TrackActiveRequests_def Let_def
        ShuttingDown_def status_serve)
next
  case False
  have "given_hash r1 = given_hash r"
    using assms(2) by (auto simp: DecompressRequest_def given_hash_def Let_def split: if_splits sum.splits)
  then have "HashValidationMiddleware (Some (NewSHA256Signer sha256 (SecretKet cfg)))
      (routes std storage (NewMetricService storage)) ctx r1 a = (json_status StatusBadRequest, a)"
    using sha.middleware_cases [of sha256 "SecretKet cfg" "routes std storage (NewMetricService storage)" ctx r1 a] assms(3-5)
    by (auto simp: NewSHA256Signer_def sha_Sign_def)
  then have "cs = CompressResponse gz Map.empty r1 (json_status StatusBadRequest)" "a' = a"
    using assms(1,2,7) False by (simp_all add: chain_open [OF assms(6)] Compress_def)
  then have "status (serve cs) = status (serve (json_status StatusBadRequest))"
    by (simp only: status_compressed)
  with \<open>a' = a\<close> False show ?thesis by (simp add: status_serve json_status_def)
qed

definition forged_request :: request where
  "forged_request = signed_request ''00'' ''ab''"

theorem tampered_request_changes_nothing_witness:
  "snd (createRouter demo_std marked toy_digest demo_server (mem_storage demo_std (fst no_order) (snd no_order)) False
      \<lparr>maxConcurrent = 0, semaphore = 0\<rparr> background forged_request sample_app) = sample_app"
proof -
  have gh: "given_hash forged_request = ''00''"
    by (simp add: given_hash_def forged_request_def signed_request_def hget_def header_names Let_def)
  have d: "DecompressRequest marked forged_request = Inr forged_request"
    by (simp add: DecompressRequest_def forged_request_def signed_request_def hget_def header_names isGzipEncoding_def)
  have h: "hex (toy_digest b) \<noteq> ''00''" for b
  proof -
    have "hex_byte CHR 0xA7 = ''a7''" by code_simp
    then show ?thesis by (simp add: hex_def toy_digest_def)
  qed
  have k: "SecretKet demo_server \<noteq> []" by (simp add: demo_server_def)
  have l: "fst (limiter_enter \<lparr>maxConcurrent = 0, semaphore = 0\<rparr>) \<noteq> Rejected" by (simp add: limiter_enter_def)
  show ?thesis
    by (rule tampered_request_changes_nothing [OF k d _ _ _ l surjective_pairing, THEN conjunct1])
      (simp_all add: gh h [THEN not_sym])
qed

end
