(* ===== verification/AgentDatabase.thy ===== *)
theory AgentDatabase
  imports EndToEnd RouterApi
begin

text \<open>
  The agent and the server over any storage, in particular the database, with a network that loses
  requests on the way to the server: whatever fails and is tried again, by the client or inside the
  storage, the result of \<open>send\<close> tells whether the batch was applied.
\<close>

section \<open>A network that loses requests\<close>

text \<open>The script says for each exchange whether it fails before the request reaches the server.\<close>

definition flaky_wire :: "'s wire \<Rightarrow> (goerr option list \<times> 's) wire" where
  "flaky_wire W =
     \<lparr>new_request_error = new_request_error W,
      http_Do = (\<lambda>cr (script, a).
        (case script of
           Some e # rest \<Rightarrow> (Inl e, (rest, a))
         | None # rest \<Rightarrow> (case http_Do W cr a of (res, a') \<Rightarrow> (res, (rest, a')))
         | [] \<Rightarrow> (case http_Do W cr a of (res, a') \<Rightarrow> (res, ([], a')))))\<rparr>"

lemma flaky_cases:
  assumes "http_Do (flaky_wire W) cr (script, a) = (res, (script', a'))"
  obtains e where "res = Inl e" "a' = a" | "http_Do W cr a = (res, a')"
  using assms by (auto simp: flaky_wire_def split: list.splits option.splits prod.splits)

section \<open>One batch request\<close>

lemma batch_statuses:
  assumes "UpdateMetrics std V ctx r a = (cs, a')"
  shows "cs = [WriteHeader StatusOK] \<or> StatusBadRequest \<le> first_status cs"
  using assms by (auto simp: UpdateMetrics_def logAndWriteError_def status_defs split: if_splits sum.splits prod.splits option.splits)

context storage_spec
begin

text \<open>A batch request that unpacks to \<open>ms\<close> is answered with an empty 200 when the batch was
  applied, and with at least 400 when it was not.\<close>

lemma batch_answer:
  assumes "app_good a" "createRouter std gz sha256 cfg S shutdown l ctx r a = (cs, a')"
    and "req_method r = ''POST''" "req_path r = ''/updates/''" "DecompressRequest gz r = Inr r1" "posted_batch std r1 = Some ms"
  shows "app_good a' \<and>
    (if status (serve cs) = StatusOK
     then cs = CompressResponse gz Map.empty r1 [WriteHeader StatusOK] \<and> run_steps step ms (app_view a) = Some (app_view a')
     else StatusBadRequest \<le> status (serve cs) \<and> app_view a' = app_view a)"
proof (cases "chain_gate gz sha256 cfg shutdown l r")
  case (Inl code)
  with createRouter_refused [OF Inl assms(2)] assms(1) show ?thesis by (auto simp: status_serve status_defs)
next
  case (Inr r2)
  with assms(5) have r2: "r2 = r1" by (auto simp: chain_gate_def split: if_splits sum.splits)
  have frame: "req_method r1 = ''POST''" "req_path r1 = ''/updates/''"
    using assms(3-5) by (auto simp: DecompressRequest_def split: if_splits sum.splits)
  then have rt: "routed r1 = EUpdates" by (simp add: routed_def updates_route)
  obtain cs1 where run: "UpdateMetrics std (NewMetricService S) ctx r1 a = (cs1, a')"
    and cs: "cs = CompressResponse gz Map.empty r1 cs1"
    using assms(2) by (auto simp: createRouter_served [OF Inr [unfolded r2]] routes_updates [OF frame] split: prod.splits)
  have st: "status (serve cs) = first_status cs1"
    unfolding cs by (simp only: status_compressed) (simp only: status_serve)
  note out = createRouter_outcome [OF assms(1,2)]
  have "cs1 = [WriteHeader StatusOK] \<or> StatusBadRequest \<le> first_status cs1"
    by (rule batch_statuses [OF run])
  then show ?thesis
  proof
    assume ok: "cs1 = [WriteHeader StatusOK]"
    with out st Inr r2 rt assms(6) show ?thesis by (auto simp: cs request_effect_def)
  next
    assume bad: "StatusBadRequest \<le> first_status cs1"
    then have "first_status cs1 \<noteq> StatusOK" by (auto simp: status_defs)
    with bad out st show ?thesis by simp
  qed
qed

text \<open>One attempt of the client.\<close>

lemma attempt_tells:
  assumes "NewClient url (agent_signer sha256 acfg) acfg = Inr c" "codecs_agree std gz pack ms" "app_good a"
    and run: "doRequest std gz pack
        (flaky_wire (server_wire (baseURL c) remote (createRouter std gz sha256 scfg S shutdown l)))
        c ''POST'' ''/updates/'' (Some ms) (script, a) = (res, (script', a'))"
  shows "app_good a' \<and>
    (case res of Inr b \<Rightarrow> run_steps step ms (app_view a) = Some (app_view a') | Inl e \<Rightarrow> app_view a' = app_view a)"
proof -
  let ?V = "server_wire (baseURL c) remote (createRouter std gz sha256 scfg S shutdown l)"
  have ne: "new_request_error (flaky_wire ?V) = (\<lambda>url. None)" by (simp add: flaky_wire_def)
  obtain cr r1 where
    req: "\<And>n. doRequest std gz pack (flaky_wire ?V) c ''POST'' ''/updates/'' (Some ms) n = judge_answer gz (http_Do (flaky_wire ?V) cr n)"
    and r: "req_method (server_request (baseURL c) remote cr) = ''POST''"
      "req_path (server_request (baseURL c) remote cr) = ''/updates/''"
      "DecompressRequest gz (server_request (baseURL c) remote cr) = Inr r1" "posted_batch std r1 = Some ms"
    and ae: "hget (req_header r1) ''Accept-Encoding'' = ''gzip''"
    using posted_request [OF assms(1,2) ne, of remote] by metis
  obtain ans s1 where ans: "http_Do (flaky_wire ?V) cr (script, a) = (ans, s1)" by (metis surj_pair)
  with run have s1: "s1 = (script', a')" and j: "judge_answer gz (ans, (script', a')) = (res, (script', a'))"
    by (auto simp: req judge_answer_def split: sum.splits if_splits)
  from ans [unfolded s1] show ?thesis
  proof (cases rule: flaky_cases)
    case (1 e)
    with j assms(3) show ?thesis by (auto simp: judge_answer_def)
  next
    case 2
    obtain cs where h: "createRouter std gz sha256 scfg S shutdown l background (server_request (baseURL c) remote cr) a = (cs, a')"
      and an: "ans = Inr \<lparr>rs_status = status (serve cs), rs_header = resp_header (serve cs), rs_body = Inr (body (serve cs))\<rparr>"
      using 2 by (auto split: prod.splits)
    note out = batch_answer [OF assms(3) h r]
    show ?thesis
    proof (cases "status (serve cs) = StatusOK")
      case True
      with out have cs: "cs = CompressResponse gz Map.empty r1 [WriteHeader StatusOK]" by simp
      from j an ok_response(2) [OF assms(2) ae cs] True out show ?thesis
        by (auto simp: judge_answer_def status_defs)
    next
      case False
      with j an out show ?thesis by (auto simp: judge_answer_def split: sum.splits if_splits)
    qed
  qed
qed

section \<open>Sending with retries\<close>

lemma post_tells:
  assumes "NewClient url (agent_signer sha256 acfg) acfg = Inr c" "codecs_agree std gz pack ms" "app_good a"
    and "sint (ag_MaxRetries acfg) < 2 ^ 63 - 1"
    and run: "client_Post std gz pack
        (flaky_wire (server_wire (baseURL c) remote (createRouter std gz sha256 scfg S shutdown l)))
        c ctx ''/updates/'' ms (script, a) = (res, (script', a'))"
  shows "app_good a' \<and>
    (case res of Inr b \<Rightarrow> run_steps step ms (app_view a) = Some (app_view a') | Inl e \<Rightarrow> app_view a' = app_view a)"
proof (cases "agent_GetRetryDelaysAsDuration std (cl_cfg c)")
  case (Inl err)
  with run assms(3) show ?thesis by (auto simp: client_Post_def doRequestWithRetry_def)
next
  case (Inr ds)
  let ?W = "flaky_wire (server_wire (baseURL c) remote (createRouter std gz sha256 scfg S shutdown l))"
  let ?cfg = "\<lparr>MaxRetries = ag_MaxRetries (cl_cfg c), Delays = Some ds, IsRetryableFn = Some (\<lambda>err. isNetworkError (Some err))\<rparr>"
  let ?I = "\<lambda>s :: bytes \<times> goerr option list \<times> 's app. app_good (snd (snd s)) \<and> app_view (snd (snd s)) = app_view a"
  let ?Q = "\<lambda>s :: bytes \<times> goerr option list \<times> 's app. app_good (snd (snd s)) \<and> run_steps step ms (app_view a) = Some (app_view (snd (snd s)))"
  obtain r b sc a1 where rd: "retry_do ctx ?cfg (request_attempt std gz pack ?W c ''POST'' ''/updates/'' (Some ms)) ([], (script, a))
      = (r, (b, (sc, a1)))" by (metis prod_cases4)
  have bnd: "retries_bounded ?cfg"
    using assms(4) NewClient_fields(2) [OF assms(1)] by (simp add: retries_bounded_def)
  have "case r of None \<Rightarrow> ?Q (b, (sc, a1)) | Some e \<Rightarrow> ?I (b, (sc, a1))"
  proof (rule retry_do_inv [where I = ?I, OF _ bnd _ rd])
    show "?I ([], (script, a))" using assms(3) by simp
    fix s q s'
    assume i: "?I s" and st: "request_attempt std gz pack ?W c ''POST'' ''/updates/'' (Some ms) s = (q, s')"
    obtain b0 sc0 a0 where s: "s = (b0, (sc0, a0))" by (cases s)
    obtain x sc1 a2 where d: "doRequest std gz pack ?W c ''POST'' ''/updates/'' (Some ms) (sc0, a0) = (x, (sc1, a2))"
      by (metis prod_cases3)
    have good: "app_good a0" using i s by simp
    from attempt_tells [OF assms(1,2) good d] i s st d
    show "case q of None \<Rightarrow> ?Q s' | Some e \<Rightarrow> ?I s'"
      by (auto simp: request_attempt_def split: sum.splits)
  qed
  with run Inr rd show ?thesis
    by (auto simp: client_Post_def doRequestWithRetry_def split: option.splits)
qed

lemma send_tells:
  assumes "NewClient url (agent_signer sha256 acfg) acfg = Inr c"
    and "codecs_agree std gz pack (snapshot_batch ord [] metrics delta)" "app_good a"
    and "sint (ag_MaxRetries acfg) < 2 ^ 63 - 1" "map_order (ToMap metrics) ord" "slices.clean_pool p"
    and "send std gz pack
        (flaky_wire (server_wire (baseURL c) remote (createRouter std gz sha256 scfg S shutdown l)))
        c choice ord ctx metrics delta (p, (script, a)) = (res, (p', (script', a')))"
  shows "app_good a' \<and>
    (case res of
       None \<Rightarrow> run_steps step (snapshot_batch ord [] metrics delta) (app_view a) = Some (app_view a')
     | Some e \<Rightarrow> app_view a' = app_view a)"
proof -
  let ?W = "flaky_wire (server_wire (baseURL c) remote (createRouter std gz sha256 scfg S shutdown l))"
  obtain x sc a1 where post: "client_Post std gz pack ?W c ctx ''/updates/'' (snapshot_batch ord [] metrics delta) (script, a) = (x, (sc, a1))"
    by (metis prod_cases3)
  from send_posts [OF assms(6,5) post, of choice] assms(7)
  have "res = (case x of Inl err \<Rightarrow> Some err | Inr b \<Rightarrow> None)" "a' = a1" by auto
  with post_tells [OF assms(1-4) post] show ?thesis by (auto split: sum.splits)
qed

end

section \<open>The database\<close>

text \<open>A snapshot in the table of the database: a gauge update that is executed overwrites, and the
  name \<open>PollCount\<close> must not be that of a gauge.\<close>

lemma run_pg_gauges:
  "run_steps pg_step (map (\<lambda>(k, v). gauge_metric k v) kvs) t = Some t' \<Longrightarrow>
     t' = apply_metrics (map (\<lambda>(k, v). gauge_metric k v) kvs) t"
proof (induction kvs arbitrary: t)
  case Nil
  then show ?case by simp
next
  case (Cons kv kvs)
  then show ?case by (cases kv) (auto simp: pg_step_def split: if_splits option.splits)
qed

lemma PollCount_not_in_snapshot: "PollCount \<notin> dom (ToMap m)"
proof -
  have "PollCount \<notin> dom (map_of (metric_fields m))"
    by (simp add: metric_fields_def PollCount_def)
  moreover have "PollCount \<noteq> cpu_key i" for i
    by (simp add: PollCount_def cpu_key_def)
  ultimately show ?thesis by (auto simp: ToMap_def dom_add_cpu)
qed

lemma pg_snapshot:
  assumes "map_order (ToMap m) ord" "run_steps pg_step (snapshot_batch ord [] m d) t = Some t'"
  shows "tab_gauges t' = tab_gauges t ++ ToMap m
    \<and> tab_counters t' =
        (if d = 0 \<or> PollCount \<in> dom (tab_gauges t) then tab_counters t
         else (tab_counters t)(PollCount \<mapsto> (case tab_counters t PollCount of None \<Rightarrow> d | Some x \<Rightarrow> x + d)))"
proof -
  let ?gs = "map (\<lambda>(name, v). gauge_metric name v) (map_range (ToMap m) ord)"
  obtain t1 where t1: "run_steps pg_step ?gs t = Some t1"
    "run_steps pg_step (if d \<noteq> 0 then [counter_metric PollCount d] else []) t1 = Some t'"
    using assms(2) by (auto simp: snapshot_batch_def run_steps_append bind_eq_Some_conv simp del: run_steps.simps)
  have e1: "tab_gauges t1 = tab_gauges t ++ ToMap m" "tab_counters t1 = tab_counters t"
    using run_pg_gauges [OF t1(1)] map_of_rev_range [OF assms(1)] by (simp_all add: apply_gauges)
  have pc: "tab_gauges t1 PollCount = tab_gauges t PollCount"
    using PollCount_not_in_snapshot [of m] by (simp add: e1(1) map_add_dom_app_simps(3))
  show ?thesis
  proof (cases "d = 0")
    case True
    with t1(2) e1 show ?thesis by simp
  next
    case False
    with t1(2) have "pg_step (counter_metric PollCount d) t1 = Some t'"
      by (simp add: run_steps_single del: run_steps.simps)
    then have "t' = (if tab_gauges t1 PollCount = None then add_counter PollCount d t1 else t1)"
      by (auto simp: pg_step_def split: if_splits option.splits)
    with False e1 pc show ?thesis by (auto simp: fun_eq_iff)
  qed
qed


text \<open>An instance: the first exchange and the first statement of the transaction fail.\<close>

definition demo_client :: Client where
  "demo_client = projr (NewClient '':8080'' (agent_signer toy_digest demo_agent) demo_agent)"

lemma demo_client_made: "NewClient '':8080'' (agent_signer toy_digest demo_agent) demo_agent = Inr demo_client"
  by (simp add: demo_client_def NewClient_def NewRequestProcessor_def)

definition demo_send :: "goerr option \<times> MetricsSlice Pool \<times> goerr option list \<times> pg app" where
  "demo_send =
     send demo_std marked toy_pack
       (flaky_wire (server_wire (baseURL demo_client) ''10.0.0.1:4000''
          (createRouter demo_std marked toy_digest demo_server (db_storage demo_std (script_db pg_cfg)) False idle_limiter)))
       demo_client 0 demo_order background demo_snapshot 3
       (NewMetricsBatchPool, ([Some awaiting], pg_app [Pass, FailBefore refused]))"


end
