(* ===== verification/AgentSystem.thy ===== *)
theory AgentSystem
  imports AgentDatabase
begin

text \<open>
  The whole system in one step relation: the collector and the reporter of the agent
  (\<open>agent_step\<close>), its sender (the worker pool or one goroutine per send), the network that loses
  requests, and the server over the in-memory storage. It composes the models of the parts and
  shows where every poll is: a send of the client counts as one step, taken when it ends.
\<close>

section \<open>The state\<close>

text \<open>A job is a snapshot that the reporter handed over: the order of its map's iteration, the
  metrics and the count of polls. Jobs are numbered by their position.\<close>

type_synonym job = "bytes list \<times> MemoryMetrics \<times> int64"

record system =
  agent :: agent_state
  sending :: sender
  jobs :: "job list"
  refused_jobs :: "nat list"
  delivered :: "nat list"
  failed :: "nat list"
  batches :: "MetricsSlice Pool"
  net :: "goerr option list \<times> mem_world app"

definition system_start :: "sender \<Rightarrow> goerr option list \<Rightarrow> mem_world app \<Rightarrow> system" where
  "system_start w script a =
     \<lparr>agent = agent_start, sending = w, jobs = [], refused_jobs = [], delivered = [], failed = [],
      batches = NewMetricsBatchPool, net = (script, a)\<rparr>"

definition accepts :: "submit_case \<Rightarrow> sender \<Rightarrow> bool" where
  "accepts k s = (case s of Limited wp \<Rightarrow> k = Enqueue | Unlimited us \<Rightarrow> True)"

definition waiting_jobs :: "sender \<Rightarrow> nat list" where
  "waiting_jobs s = (case s of Limited wp \<Rightarrow> tasks wp @ in_progress wp | Unlimited us \<Rightarrow> in_flight us)"

text \<open>One send ends: the batch of the job is posted through the network to the server.\<close>

definition run_job :: "go_std \<Rightarrow> gzip_format \<Rightarrow> (int \<Rightarrow> bytes \<Rightarrow> bytes) \<Rightarrow> (bytes \<Rightarrow> bytes) \<Rightarrow> ServerFlags \<Rightarrow> iter_order
    \<Rightarrow> Client \<Rightarrow> bytes \<Rightarrow> bool \<Rightarrow> limiter \<Rightarrow> nat \<Rightarrow> context_t \<Rightarrow> nat \<Rightarrow> system \<Rightarrow> system" where
  "run_job std gz pack sha256 scfg it c remote shutdown l choice ctx t s =
     (case jobs s ! t of (ord, m, d) \<Rightarrow>
        (case send std gz pack
                (flaky_wire (server_wire (baseURL c) remote
                   (createRouter std gz sha256 scfg (mem_storage std (fst it) (snd it)) shutdown l)))
                c choice ord ctx m d (batches s, net s) of
           (None, (p, n)) \<Rightarrow> s\<lparr>delivered := delivered s @ [t], batches := p, net := n\<rparr>
         | (Some e, (p, n)) \<Rightarrow> s\<lparr>failed := failed s @ [t], batches := p, net := n\<rparr>))"

section \<open>The steps\<close>

inductive system_step :: "go_std \<Rightarrow> gzip_format \<Rightarrow> (int \<Rightarrow> bytes \<Rightarrow> bytes) \<Rightarrow> (bytes \<Rightarrow> bytes) \<Rightarrow> ServerFlags \<Rightarrow> iter_order
    \<Rightarrow> Client \<Rightarrow> bytes \<Rightarrow> system \<Rightarrow> system \<Rightarrow> bool"
  for std gz pack sha256 scfg it c remote where
  agent_moves: "agent_step (agent s) a \<Longrightarrow> \<forall>cnt. pc (agent s) = Taken cnt \<longrightarrow> pc a = Taken cnt \<Longrightarrow>
     system_step std gz pack sha256 scfg it c remote s (s\<lparr>agent := a\<rparr>)"
| hands_over: "pc (agent s) = Taken cnt \<Longrightarrow> map_order (ToMap m) ord \<Longrightarrow> send_ready k (sending s) \<Longrightarrow>
     system_step std gz pack sha256 scfg it c remote s
       (s\<lparr>agent := (agent s)\<lparr>pc := Handed cnt, reported := reported (agent s) + cnt\<rparr>,
          jobs := jobs s @ [(ord, m, cnt)],
          refused_jobs := refused_jobs s @ (if accepts k (sending s) then [] else [length (jobs s)]),
          sending := snd (sender_Send k (length (jobs s)) (sending s))\<rparr>)"
| worker_moves: "sending s = Limited wp \<Longrightarrow> worker_step wp wp' \<Longrightarrow> has_run wp' = has_run wp \<Longrightarrow>
     system_step std gz pack sha256 scfg it c remote s (s\<lparr>sending := Limited wp'\<rparr>)"
| worker_sends: "sending s = Limited wp \<Longrightarrow> worker_step wp wp' \<Longrightarrow> has_run wp' = has_run wp @ [t] \<Longrightarrow>
     system_step std gz pack sha256 scfg it c remote s
       (run_job std gz pack sha256 scfg it c remote shutdown l choice ctx t (s\<lparr>sending := Limited wp'\<rparr>))"
| goroutine_sends: "sending s = Unlimited us \<Longrightarrow> t \<in> set (in_flight us) \<Longrightarrow>
     system_step std gz pack sha256 scfg it c remote s
       (run_job std gz pack sha256 scfg it c remote shutdown l choice ctx t (s\<lparr>sending := Unlimited (unlimited_done t us)\<rparr>))"
| pool_cancels: "sending s = Limited wp \<Longrightarrow>
     system_step std gz pack sha256 scfg it c remote s (s\<lparr>sending := Limited (Stop_cancel wp)\<rparr>)"
| pool_closes: "sending s = Limited wp \<Longrightarrow> wp_cancelled wp \<Longrightarrow> \<not> wp_closed wp \<Longrightarrow>
     system_step std gz pack sha256 scfg it c remote s (s\<lparr>sending := Limited (Stop_close wp)\<rparr>)"

section \<open>Where the jobs are\<close>

definition placed :: "system \<Rightarrow> bool" where
  "placed s \<longleftrightarrow>
     mset (delivered s) + mset (failed s) + mset (refused_jobs s) + mset (waiting_jobs (sending s)) = mset [0..<length (jobs s)]"

lemma waiting_after_Send:
  "send_ready k s \<Longrightarrow> mset (waiting_jobs (snd (sender_Send k t s))) =
     mset (waiting_jobs s) + (if accepts k s then {#t#} else {#})"
  by (cases s; cases k)
    (auto simp: waiting_jobs_def sender_Send_def metricsSender_Send_def unlimited_Send_def Submit_def accepts_def
      in_progress_def)

lemma waiting_worker:
  assumes "worker_step wp wp'"
  shows "has_run wp' = has_run wp \<Longrightarrow> mset (waiting_jobs (Limited wp')) = mset (waiting_jobs (Limited wp))"
    and "has_run wp' = has_run wp @ [t] \<Longrightarrow> add_mset t (mset (waiting_jobs (Limited wp'))) = mset (waiting_jobs (Limited wp))"
  using assms
proof (induction rule: worker_step.induct)
  case (take i wp u ts)
  {
    case 1
    then show ?case using take in_progress_upd [of i "workers wp" "Busy u"]
      by (simp add: waiting_jobs_def in_progress_def running_task_def)
  next
    case 2
    then show ?case by simp
  }
next
  case (finish i wp u)
  {
    case 1
    then show ?case by simp
  next
    case 2
    then show ?case using finish in_progress_upd [of i "workers wp" Idle]
      by (simp add: waiting_jobs_def in_progress_def running_task_def)
  }
next
  case (stop_drained i wp)
  {
    case 1
    then show ?case using stop_drained in_progress_upd [of i "workers wp" Stopped]
      by (simp add: waiting_jobs_def in_progress_def running_task_def)
  next
    case 2
    then show ?case by simp
  }
next
  case (stop_cancelled i wp)
  {
    case 1
    then show ?case using stop_cancelled in_progress_upd [of i "workers wp" Stopped]
      by (simp add: waiting_jobs_def in_progress_def running_task_def)
  next
    case 2
    then show ?case by simp
  }
qed

lemma waiting_unlimited:
  "t \<in> set (in_flight us) \<Longrightarrow>
     add_mset t (mset (waiting_jobs (Unlimited (unlimited_done t us)))) = mset (waiting_jobs (Unlimited us))"
  by (simp add: waiting_jobs_def unlimited_done_def)

lemma run_job_frame:
  "agent (run_job std gz pack sha256 scfg it c remote sd l ch ctx t s) = agent s"
  "jobs (run_job std gz pack sha256 scfg it c remote sd l ch ctx t s) = jobs s"
  "refused_jobs (run_job std gz pack sha256 scfg it c remote sd l ch ctx t s) = refused_jobs s"
  "sending (run_job std gz pack sha256 scfg it c remote sd l ch ctx t s) = sending s"
  "mset (delivered (run_job std gz pack sha256 scfg it c remote sd l ch ctx t s))
     + mset (failed (run_job std gz pack sha256 scfg it c remote sd l ch ctx t s)) =
   add_mset t (mset (delivered s) + mset (failed s))"
  by (auto simp: run_job_def split: prod.splits option.splits)

lemma placed_run_job:
  assumes "add_mset t (mset (waiting_jobs w)) = mset (waiting_jobs (sending s))" "placed s"
  shows "placed (run_job std gz pack sha256 scfg it c remote sd l ch ctx t (s\<lparr>sending := w\<rparr>))"
  using assms
  unfolding placed_def run_job_frame
  by (simp add: run_job_frame(5)) (metis add.assoc add.commute add_mset_add_single)

lemma placed_step: "system_step std gz pack sha256 scfg it c remote s s' \<Longrightarrow> placed s \<Longrightarrow> placed s'"
proof (induction rule: system_step.induct)
  case (hands_over s cnt m ord k)
  then show ?case using waiting_after_Send [OF hands_over.hyps(3), of "length (jobs s)"]
    by (auto simp: placed_def)
next
  case (worker_moves s wp wp')
  then show ?case using waiting_worker(1) [OF worker_moves.hyps(2,3)] by (simp add: placed_def)
next
  case (worker_sends s wp wp' t shutdown l choice ctx)
  then show ?case using waiting_worker(2) [OF worker_sends.hyps(2,3)] by (intro placed_run_job) simp_all
next
  case (goroutine_sends s us t shutdown l choice ctx)
  then show ?case using waiting_unlimited [OF goroutine_sends.hyps(2)] by (intro placed_run_job) simp_all
qed (auto simp: placed_def waiting_jobs_def Stop_cancel_def Stop_close_def in_progress_def)

section \<open>What the jobs are worth\<close>

definition job_count :: "system \<Rightarrow> nat \<Rightarrow> int64" where
  "job_count s t = snd (snd (jobs s ! t))"

definition worth :: "system \<Rightarrow> nat list \<Rightarrow> int64" where
  "worth s ts = sum_list (map (job_count s) ts)"

text \<open>The polls that the server has counted.\<close>

definition polls_at_server :: "metric_table \<Rightarrow> int64" where
  "polls_at_server t = (case tab_counters t PollCount of None \<Rightarrow> 0 | Some x \<Rightarrow> x)"

definition jobs_readable :: "go_std \<Rightarrow> gzip_format \<Rightarrow> (int \<Rightarrow> bytes \<Rightarrow> bytes) \<Rightarrow> system \<Rightarrow> bool" where
  "jobs_readable std gz pack s \<longleftrightarrow>
     (\<forall>(ord, m, d) \<in> set (jobs s). codecs_agree std gz pack (snapshot_batch ord [] m d))"

definition jobs_ordered :: "system \<Rightarrow> bool" where
  "jobs_ordered s \<longleftrightarrow> (\<forall>(ord, m, d) \<in> set (jobs s). map_order (ToMap m) ord)"

lemma worth_append [simp]: "worth s (xs @ ys) = worth s xs + worth s ys"
  by (simp add: worth_def)

lemma worth_mset:
  assumes "mset xs = mset ys"
  shows "worth s xs = worth s ys"
proof -
  have "sum_mset (image_mset (job_count s) (mset xs)) = sum_mset (image_mset (job_count s) (mset ys))"
    by (simp only: assms)
  then show ?thesis
    by (simp only: worth_def mset_map [symmetric] sum_mset_sum_list)
qed

lemma worth_jobs: "worth s [0..<length (jobs s)] = sum_list (map (snd \<circ> snd) (jobs s))"
proof -
  have "map (job_count s) [0..<length (jobs s)] = map (snd \<circ> snd) (jobs s)"
    by (rule nth_equalityI) (simp_all add: job_count_def)
  then show ?thesis by (simp add: worth_def)
qed

lemma worth_more_jobs:
  assumes "set ts \<subseteq> {..<length (jobs s)}" "jobs s' = jobs s @ js"
  shows "worth s' ts = worth s ts"
  unfolding worth_def using assms by (intro arg_cong [of _ _ sum_list] map_cong) (auto simp: job_count_def nth_append)

lemma placed_bounds:
  assumes "placed s"
  shows "set (delivered s) \<subseteq> {..<length (jobs s)}" "set (waiting_jobs (sending s)) \<subseteq> {..<length (jobs s)}"
proof -
  have "set_mset (mset (delivered s) + mset (failed s) + mset (refused_jobs s) + mset (waiting_jobs (sending s)))
      = set_mset (mset [0..<length (jobs s)])"
    using assms unfolding placed_def by (rule arg_cong)
  then have "set (delivered s) \<union> set (failed s) \<union> set (refused_jobs s) \<union> set (waiting_jobs (sending s)) = {..<length (jobs s)}"
    by (simp only: set_mset_union set_mset_mset set_upt atLeast0LessThan)
  then show "set (delivered s) \<subseteq> {..<length (jobs s)}" "set (waiting_jobs (sending s)) \<subseteq> {..<length (jobs s)}"
    by auto
qed

definition counted :: "metric_table \<Rightarrow> system \<Rightarrow> bool" where
  "counted t0 s \<longleftrightarrow>
     placed s \<and> jobs_ordered s \<and> agent_inv (agent s) \<and> reported (agent s) = sum_list (map (snd \<circ> snd) (jobs s))
     \<and> slices.clean_pool (batches s) \<and> app_ok (snd (net s))
     \<and> polls_at_server (table_of (snd (net s))) = polls_at_server t0 + worth s (delivered s)"

lemma polls_of_snapshot:
  "map_order (ToMap m) ord \<Longrightarrow>
     polls_at_server (apply_metrics (snapshot_batch ord [] m d) t) = polls_at_server t + d"
  by (simp add: polls_at_server_def apply_snapshot(2) split: option.split)

lemma run_job_counts:
  assumes "NewClient url (agent_signer sha256 acfg) acfg = Inr c" "sint (ag_MaxRetries acfg) < 2 ^ 63 - 1"
    and "t < length (jobs s)" "jobs_readable std gz pack s" "jobs_ordered s" "slices.clean_pool (batches s)" "app_ok (snd (net s))"
    and "s' = run_job std gz pack sha256 scfg it c remote sd l ch ctx t s"
  shows "slices.clean_pool (batches s') \<and> app_ok (snd (net s'))
    \<and> polls_at_server (table_of (snd (net s'))) - worth s (delivered s') =
       polls_at_server (table_of (snd (net s))) - worth s (delivered s)"
proof -
  obtain ord m d where j: "jobs s ! t = (ord, m, d)" by (cases "jobs s ! t")
  obtain script a where n: "net s = (script, a)" by (cases "net s")
  let ?W = "flaky_wire (server_wire (baseURL c) remote (createRouter std gz sha256 scfg (mem_storage std (fst it) (snd it)) sd l))"
  have "jobs s ! t \<in> set (jobs s)" using assms(3) by simp
  then have co: "codecs_agree std gz pack (snapshot_batch ord [] m d)" and mo: "map_order (ToMap m) ord"
    using assms(4,5) j by (auto simp: jobs_readable_def jobs_ordered_def)
  obtain x sc a1 where post: "client_Post std gz pack ?W c ctx ''/updates/'' (snapshot_batch ord [] m d) (script, a) = (x, (sc, a1))"
    by (metis prod_cases3)
  obtain p' where p': "slices.clean_pool p'"
    "send std gz pack ?W c ch ord ctx m d (batches s, (script, a)) = (case x of Inl err \<Rightarrow> Some err | Inr b \<Rightarrow> None, (p', (sc, a1)))"
    using send_posts [OF assms(6) mo post, of ch] by blast
  have ok: "mem_ok (store a)" using assms(7) n by (simp add: app_ok_def)
  note tells = mem.post_tells [OF assms(1) co ok assms(2) post]
  show ?thesis
  proof (cases x)
    case (Inl e)
    with p' j n assms(8) have "s' = s\<lparr>failed := failed s @ [t], batches := p', net := (sc, a1)\<rparr>"
      by (simp add: run_job_def)
    with Inl tells p'(1) n show ?thesis by (simp add: app_ok_def table_of_def)
  next
    case (Inr b)
    with p' j n assms(8) have s': "s' = s\<lparr>delivered := delivered s @ [t], batches := p', net := (sc, a1)\<rparr>"
      by (simp add: run_job_def)
    from Inr tells have "mem_view (store a1) = apply_metrics (snapshot_batch ord [] m d) (mem_view (store a))" by simp
    with polls_of_snapshot [OF mo] have "polls_at_server (mem_view (store a1)) = polls_at_server (mem_view (store a)) + d" by simp
    with s' tells p'(1) n j show ?thesis
      by (simp add: app_ok_def table_of_def worth_def job_count_def)
  qed
qed

lemma counted_run_job:
  assumes "NewClient url (agent_signer sha256 acfg) acfg = Inr c" "sint (ag_MaxRetries acfg) < 2 ^ 63 - 1"
    and "add_mset t (mset (waiting_jobs w)) = mset (waiting_jobs (sending s))" "counted t0 s" "jobs_readable std gz pack s"
  shows "counted t0 (run_job std gz pack sha256 scfg it c remote sd l ch ctx t (s\<lparr>sending := w\<rparr>))"
proof -
  let ?s = "s\<lparr>sending := w\<rparr>"
  let ?r = "run_job std gz pack sha256 scfg it c remote sd l ch ctx t ?s"
  have c: "placed s" "jobs_ordered s" "slices.clean_pool (batches s)" "app_ok (snd (net s))"
    "polls_at_server (table_of (snd (net s))) = polls_at_server t0 + worth s (delivered s)"
    "agent_inv (agent s)" "reported (agent s) = sum_list (map (snd \<circ> snd) (jobs s))"
    using assms(4) by (simp_all add: counted_def)
  have "t \<in># mset (waiting_jobs (sending s))" using assms(3) by (metis union_single_eq_member)
  then have t: "t < length (jobs ?s)" using placed_bounds(2) [OF c(1)] by auto
  have same: "worth ?s xs = worth s xs" "worth ?r xs = worth s xs" for xs
    by (simp_all add: worth_def job_count_def [abs_def] run_job_frame)
  have "jobs_readable std gz pack ?s" "jobs_ordered ?s" using assms(5) c(2) by (simp_all add: jobs_readable_def jobs_ordered_def)
  note eff = run_job_counts [OF assms(1,2) t this, of ?r, OF _ _ refl]
  have pl: "placed ?r" by (rule placed_run_job [OF assms(3) c(1)])
  have "jobs_ordered ?r" using c(2) by (simp add: jobs_ordered_def run_job_frame)
  with eff pl c show ?thesis
    by (simp add: counted_def run_job_frame same) (metis add_diff_cancel_right' diff_eq_eq add.commute)
qed

text \<open>Jobs are only added, so what the theorem asks of the jobs of the last state holds before.\<close>

lemma system_step_jobs:
  "system_step std gz pack sha256 scfg it c remote s s' \<Longrightarrow> \<exists>js. jobs s' = jobs s @ js"
  by (induction rule: system_step.induct) (simp_all add: run_job_frame)

lemma jobs_readable_before:
  "system_step std gz pack sha256 scfg it c remote s s' \<Longrightarrow> jobs_readable std gz pack s' \<Longrightarrow> jobs_readable std gz pack s"
  by (drule system_step_jobs) (elim exE, simp only: jobs_readable_def set_append ball_Un, elim conjE)

lemma agent_step_reported:
  "agent_step a b \<Longrightarrow> \<forall>cnt. pc a = Taken cnt \<longrightarrow> pc b = Taken cnt \<Longrightarrow> reported b = reported a"
  by (induction rule: agent_step.induct) auto

lemma counted_step:
  assumes "NewClient url (agent_signer sha256 acfg) acfg = Inr c" "sint (ag_MaxRetries acfg) < 2 ^ 63 - 1"
    and "system_step std gz pack sha256 scfg it c remote s s'" "counted t0 s" "jobs_readable std gz pack s"
  shows "counted t0 s'"
  using assms(3-5)
proof (cases rule: system_step.cases)
  case (agent_moves a)
  have "agent_inv a" using agent_inv_step [OF agent_moves(2)] assms(4) by (simp add: counted_def)
  with agent_step_reported [OF agent_moves(2,3)] agent_moves(1) assms(4) show ?thesis
    by (simp add: counted_def placed_def jobs_ordered_def worth_def job_count_def [abs_def])
next
  case (hands_over cnt m ord k)
  have pl: "placed s'" by (rule placed_step [OF assms(3)]) (use assms(4) in \<open>simp add: counted_def\<close>)
  have pls: "placed s" using assms(4) by (simp add: counted_def)
  have "agent_inv ((agent s)\<lparr>pc := Handed cnt, reported := reported (agent s) + cnt\<rparr>)"
    using agent_inv_step [OF send_ok [OF hands_over(2)]] assms(4) by (simp add: counted_def)
  moreover have "worth s' (delivered s) = worth s (delivered s)"
    by (rule worth_more_jobs [OF placed_bounds(1) [OF pls], of _ "[(ord, m, cnt)]"]) (simp add: hands_over(1))
  ultimately show ?thesis
    using pl assms(4) hands_over(1,3) by (simp add: counted_def jobs_ordered_def)
next
  case (worker_moves wp wp')
  have "placed s'" by (rule placed_step [OF assms(3)]) (use assms(4) in \<open>simp add: counted_def\<close>)
  with worker_moves(1) assms(4) show ?thesis
    by (simp add: counted_def jobs_ordered_def worth_def job_count_def [abs_def])
next
  case (worker_sends wp wp' t shutdown l choice ctx)
  show ?thesis unfolding worker_sends(1)
    by (rule counted_run_job [OF assms(1,2) _ assms(4,5)]) (use waiting_worker(2) [OF worker_sends(3,4)] worker_sends(2) in simp)
next
  case (goroutine_sends us t shutdown l choice ctx)
  show ?thesis unfolding goroutine_sends(1)
    by (rule counted_run_job [OF assms(1,2) _ assms(4,5)]) (use waiting_unlimited [OF goroutine_sends(3)] goroutine_sends(2) in simp)
next
  case (pool_cancels wp)
  have "placed s'" by (rule placed_step [OF assms(3)]) (use assms(4) in \<open>simp add: counted_def\<close>)
  with pool_cancels(1) assms(4) show ?thesis
    by (simp add: counted_def jobs_ordered_def worth_def job_count_def [abs_def])
next
  case (pool_closes wp)
  have "placed s'" by (rule placed_step [OF assms(3)]) (use assms(4) in \<open>simp add: counted_def\<close>)
  with pool_closes(1) assms(4) show ?thesis
    by (simp add: counted_def jobs_ordered_def worth_def job_count_def [abs_def])
qed

lemma waiting_fresh: "fresh_sender w \<Longrightarrow> waiting_jobs w = []"
proof -
  have "concat (map running_task (replicate n Idle)) = []" for n by (induction n) (simp_all add: running_task_def)
  then show "fresh_sender w \<Longrightarrow> waiting_jobs w = []"
    by (auto simp: fresh_sender_def waiting_jobs_def newUnlimitedSender_def started_pool_simps in_progress_def)
qed

lemma counted_start:
  assumes "fresh_sender w" "app_ok a"
  shows "counted (table_of a) (system_start w script a)"
proof -
  have "slices.clean_pool NewMetricsBatchPool"
    unfolding NewMetricsBatchPool_def by (rule slices.New_clean) simp
  moreover have "agent_inv agent_start" by (rule agent_inv_reachable) simp
  ultimately show ?thesis
    using assms by (simp add: counted_def system_start_def placed_def waiting_fresh jobs_ordered_def worth_def)
      (simp add: agent_start_def)
qed

lemma counted_reachable:
  assumes "NewClient url (agent_signer sha256 acfg) acfg = Inr c" "sint (ag_MaxRetries acfg) < 2 ^ 63 - 1"
    and "(system_step std gz pack sha256 scfg it c remote)\<^sup>*\<^sup>* (system_start w script a) s" "fresh_sender w" "app_ok a"
    and "jobs_readable std gz pack s"
  shows "counted (table_of a) s"
  using assms(3,6)
proof (induction rule: rtranclp_induct)
  case base
  show ?case by (rule counted_start [OF assms(4,5)])
next
  case (step u v)
  note r = jobs_readable_before [OF step.hyps(2) step.prems]
  show ?case by (rule counted_step [OF assms(1,2) step.hyps(2) step.IH [OF r] r])
qed

section \<open>Every poll\<close>


text \<open>An instance: three polls, one report through a goroutine, and a server without a key.\<close>

lemma flaky_through:
  assumes "doRequest std gz pack W c method endpoint payload a = (res, a')"
  shows "doRequest std gz pack (flaky_wire W) c method endpoint payload ([], a) = (res, ([], a'))"
  using assms by (auto simp: doRequest_def flaky_wire_def Let_def split: sum.splits prod.splits option.splits if_splits)

abbreviation "demo_step \<equiv> system_step demo_std marked toy_pack toy_digest demo_server no_order demo_client ''10.0.0.1:4000''"

definition polled :: "nat \<Rightarrow> agent_state \<Rightarrow> agent_state" where
  "polled n a = ((\<lambda>a. a\<lparr>coll := collectFromAllProviders [] (coll a), polls := polls a + 1, late := late a + 1\<rparr>) ^^ n) a"

lemma polled_run: "pc (agent s) = Waiting \<Longrightarrow> demo_step\<^sup>*\<^sup>* s (s\<lparr>agent := polled n (agent s)\<rparr>) \<and> pc (polled n (agent s)) = Waiting"
proof (induction n)
  case 0
  then show ?case by (simp add: polled_def)
next
  case (Suc n)
  let ?s = "s\<lparr>agent := polled n (agent s)\<rparr>"
  have "demo_step ?s (?s\<lparr>agent := polled (Suc n) (agent s)\<rparr>)"
    using poll [of "agent ?s" "[]"] Suc by (intro agent_moves) (simp_all add: polled_def)
  with Suc show ?case by (auto simp: polled_def intro: rtranclp.rtrancl_into_rtrancl)
qed

lemma polled_three:
  "polls (polled 3 agent_start) = 3" "pollCount (coll (polled 3 agent_start)) = 3" "pc (polled 3 agent_start) = Waiting"
  by (simp_all add: polled_def numeral_3_eq_3 agent_start_def fresh_collector_def)

lemma demo_send_arrives:
  "\<exists>p' a'. send demo_std marked toy_pack
      (flaky_wire (server_wire (baseURL demo_client) ''10.0.0.1:4000''
        (createRouter demo_std marked toy_digest demo_server (mem_storage demo_std (fst no_order) (snd no_order)) False idle_limiter)))
      demo_client 0 demo_order background demo_snapshot 3 (NewMetricsBatchPool, ([], sample_app)) = (None, (p', ([], a')))"
proof -
  let ?W = "server_wire (baseURL demo_client) ''10.0.0.1:4000''
      (createRouter demo_std marked toy_digest demo_server (mem_storage demo_std (fst no_order) (snd no_order)) False idle_limiter)"
  have key: "SecretKet demo_server = [] \<or> SecretKey demo_agent = [] \<or> SecretKet demo_server = SecretKey demo_agent"
    by (simp add: demo_server_def demo_agent_def)
  have lim: "fst (limiter_enter idle_limiter) \<noteq> Rejected" by (simp add: idle_limiter_def limiter_enter_def)
  obtain a' where req: "doRequest demo_std marked toy_pack ?W demo_client ''POST'' ''/updates/'' (Some demo_batch) sample_app = (Inr [], a')"
    using request_arrives [OF demo_client_made demo_codecs key sample_app_ok lim] by blast
  have cfg: "cl_cfg demo_client = demo_agent" by (rule NewClient_fields(2) [OF demo_client_made])
  have "client_Post demo_std marked toy_pack (flaky_wire ?W) demo_client background ''/updates/'' demo_batch ([], sample_app) = (Inr [], ([], a'))"
    by (rule post_once [OF _ _ flaky_through [OF req], of "[Second]"]) (simp_all add: cfg demo_agent_def demo_std_def)
  moreover have "slices.clean_pool NewMetricsBatchPool"
    unfolding NewMetricsBatchPool_def by (rule slices.New_clean) simp
  ultimately show ?thesis
    using send_posts [of NewMetricsBatchPool demo_snapshot demo_order demo_std marked toy_pack "flaky_wire ?W" demo_client
        background 3 "([], sample_app)" "Inr []" "([], a')" 0] demo_order_ok
    by (fastforce simp: demo_batch_def)
qed

lemma demo_run:
  "\<exists>s. demo_step\<^sup>*\<^sup>* (system_start (Unlimited newUnlimitedSender) [] sample_app) s
     \<and> delivered s = [0] \<and> jobs s = [(demo_order, demo_snapshot, 3)] \<and> pc (agent s) = Waiting \<and> polls (agent s) = 3"
proof -
  let ?s0 = "system_start (Unlimited newUnlimitedSender) [] sample_app"
  let ?s1 = "?s0\<lparr>agent := polled 3 agent_start\<rparr>"
  let ?s2 = "?s1\<lparr>agent := (agent ?s1)\<lparr>pc := Taken 3, late := 0\<rparr>\<rparr>"
  let ?s3 = "?s2\<lparr>agent := (agent ?s2)\<lparr>pc := Handed 3, reported := reported (agent ?s2) + 3\<rparr>,
     jobs := [(demo_order, demo_snapshot, 3)], sending := Unlimited \<lparr>in_flight = [0], landed = []\<rparr>\<rparr>"
  let ?s4 = "run_job demo_std marked toy_pack toy_digest demo_server no_order demo_client ''10.0.0.1:4000'' False idle_limiter 0 background 0
     (?s3\<lparr>sending := Unlimited (unlimited_done 0 \<lparr>in_flight = [0], landed = []\<rparr>)\<rparr>)"
  let ?s5 = "?s4\<lparr>agent := (agent ?s4)\<lparr>pc := Waiting, coll := ResetCount (coll (agent ?s4)), lost := lost (agent ?s4) + late (agent ?s4)\<rparr>\<rparr>"
  have ag: "agent ?s0 = agent_start" "pc agent_start = Waiting" by (simp_all add: system_start_def agent_start_def)
  have "demo_step\<^sup>*\<^sup>* ?s0 ?s1" using polled_run [of ?s0 3] ag by simp
  moreover have "demo_step ?s1 ?s2"
    using take_count [of "agent ?s1"] polled_three by (intro agent_moves) (simp_all add: mc_GetMetrics_def)
  moreover have "demo_step ?s2 ?s3"
    using hands_over [of ?s2 3 demo_snapshot demo_order Enqueue demo_std marked toy_pack toy_digest demo_server no_order demo_client "''10.0.0.1:4000''"]
      demo_order_ok
    by (simp add: system_start_def send_ready_def accepts_def sender_Send_def unlimited_Send_def newUnlimitedSender_def)
  moreover have "demo_step ?s3 ?s4" by (rule goroutine_sends) simp_all
  moreover have "demo_step ?s4 ?s5"
    using reset [of "agent ?s4" 3] by (intro agent_moves) (simp_all add: run_job_frame)
  ultimately have "demo_step\<^sup>*\<^sup>* ?s0 ?s5"
    by (meson rtranclp.rtrancl_into_rtrancl)
  moreover have "delivered ?s5 = [0]"
    using demo_send_arrives by (auto simp: run_job_def system_start_def)
  moreover have "polls (agent ?s5) = 3" "jobs ?s5 = [(demo_order, demo_snapshot, 3)]" "pc (agent ?s5) = Waiting"
    by (simp_all add: run_job_frame polled_three)
  ultimately show ?thesis by blast
qed


end
