(* ===== verification/AuditRun.thy ===== *)
theory AuditRun
  imports Observers
begin

text \<open>
  The audit of a running server as a step relation: the goroutine that each accepted batch starts to
  publish its event, the goroutines that \<open>Publish\<close> starts for the observers, the attempts of
  the HTTP observer (one at a time, by its mutex, but those of different events in any order), and
  \<open>Close\<close> of the file observer at shutdown. Nothing waits for these goroutines: the wait group of
  the server counts requests only. Here the file observer is the one shared object that the code has, so a task that runs
  after \<open>Close\<close> finds it closed.
\<close>

section \<open>The state\<close>

text \<open>\<open>requested\<close>: the events of all accepted batches; \<open>written\<close> and \<open>missed\<close>: those whose file task
  has run, with and without a line in the file; \<open>sent\<close>: those the HTTP observer has finished with;
  \<open>tries\<close>: its attempts so far.\<close>

record 'n audit_run =
  requested :: "MetricProcessedEvent list"
  publishing :: "MetricProcessedEvent list"
  file_tasks :: "MetricProcessedEvent list"
  http_tasks :: "(MetricProcessedEvent \<times> nat) list"
  file_observer :: FileObserver
  disk :: filesystem
  written :: "MetricProcessedEvent list"
  missed :: "MetricProcessedEvent list"
  receiver :: 'n
  sent :: "(MetricProcessedEvent \<times> goerr option) list"
  tries :: nat

definition audit_begin :: "FileObserver \<Rightarrow> filesystem \<Rightarrow> 'n \<Rightarrow> 'n audit_run" where
  "audit_begin f fs n =
     \<lparr>requested = [], publishing = [], file_tasks = [], http_tasks = [], file_observer = f, disk = fs,
      written = [], missed = [], receiver = n, sent = [], tries = 0\<rparr>"

section \<open>The steps\<close>

text \<open>The write of one event under the lock of the file observer.\<close>

definition file_task :: "go_std \<Rightarrow> MetricProcessedEvent \<Rightarrow> 'n audit_run \<Rightarrow> 'n audit_run" where
  "file_task std ev s =
     (let done = fo_open (file_observer s) \<and> fs_fault (disk s) (fo_path (file_observer s)) = None in
      s\<lparr>file_tasks := remove1 ev (file_tasks s), disk := fo_OnMetricProcessed std (file_observer s) ev (disk s),
        written := written s @ (if done then [ev] else []), missed := missed s @ (if done then [] else [ev])\<rparr>)"

text \<open>One attempt of the HTTP observer, after \<open>k\<close> others for this event.\<close>

definition http_task :: "go_std \<Rightarrow> 'n http_out \<Rightarrow> HTTPObserver \<Rightarrow> MetricProcessedEvent \<Rightarrow> nat \<Rightarrow> 'n audit_run \<Rightarrow> 'n audit_run" where
  "http_task std H h ev k s =
     (case audit_attempt H (ho_url h) (json_write std (marshal_event ev)) (receiver s) of
        (res, n) \<Rightarrow>
          (let s1 = s\<lparr>http_tasks := remove1 (ev, k) (http_tasks s), receiver := n, tries := tries s + 1\<rparr> in
           case res of
             None \<Rightarrow> s1\<lparr>sent := sent s @ [(ev, None)]\<rparr>
           | Some e \<Rightarrow>
               if retryable_of (ho_retryCfg h) e \<and> k < max_retries (ho_retryCfg h)
               then s1\<lparr>http_tasks := http_tasks s1 @ [(ev, k + 1)]\<rparr>
               else s1\<lparr>sent := sent s @ [(ev, Some e)]\<rparr>))"

inductive audit_step :: "go_std \<Rightarrow> 'n http_out \<Rightarrow> HTTPObserver \<Rightarrow> 'n audit_run \<Rightarrow> 'n audit_run \<Rightarrow> bool" for std H h where
  batch_accepted: "audit_step std H h s (s\<lparr>requested := requested s @ [ev], publishing := publishing s @ [ev]\<rparr>)"
| publishes: "ev \<in> set (publishing s) \<Longrightarrow>
     audit_step std H h s (s\<lparr>publishing := remove1 ev (publishing s), file_tasks := file_tasks s @ [ev],
       http_tasks := http_tasks s @ [(ev, 0)]\<rparr>)"
| file_writes: "ev \<in> set (file_tasks s) \<Longrightarrow> audit_step std H h s (file_task std ev s)"
| http_attempts: "(ev, k) \<in> set (http_tasks s) \<Longrightarrow> audit_step std H h s (http_task std H h ev k s)"
| file_closes: "fo_Close close_err (file_observer s) = (res, f) \<Longrightarrow> audit_step std H h s (s\<lparr>file_observer := f\<rparr>)"

section \<open>The invariant\<close>

definition audit_inv :: "go_std \<Rightarrow> HTTPObserver \<Rightarrow> bytes \<Rightarrow> bytes \<Rightarrow> 'n audit_run \<Rightarrow> bool" where
  "audit_inv std h path d s \<longleftrightarrow>
     fo_path (file_observer s) = path \<and> fs_fault (disk s) path = None
     \<and> fs_file (disk s) path = Some (d @ concat (map (event_line std) (written s)))
     \<and> mset (requested s) = mset (publishing s) + mset (file_tasks s) + mset (written s) + mset (missed s)
     \<and> (fo_open (file_observer s) \<longrightarrow> missed s = [])
     \<and> mset (requested s) = mset (publishing s) + mset (map fst (http_tasks s)) + mset (map fst (sent s))
     \<and> list_all (\<lambda>(ev, k). k \<le> max_retries (ho_retryCfg h)) (http_tasks s)
     \<and> tries s \<le> (max_retries (ho_retryCfg h) + 1) * length (sent s) + sum_list (map snd (http_tasks s))"

lemma mset_remove1_fst: "(ev, k) \<in> set xs \<Longrightarrow> add_mset ev (mset (map fst (remove1 (ev, k) xs))) = mset (map fst xs)"
  by (induction xs) auto

lemma sum_remove1_snd: "(ev, k) \<in> set xs \<Longrightarrow> sum_list (map snd (remove1 (ev, k) xs)) + k = sum_list (map snd xs)" for k :: nat
  by (induction xs) auto

lemma list_all_remove1: "list_all P xs \<Longrightarrow> list_all P (remove1 x xs)"
  unfolding list_all_iff using set_remove1_subset [of x xs] by blast

text \<open>Taking a task out of a list, as a sum.\<close>

lemma mset_taken:
  assumes "x \<in> set xs"
  obtains M where "mset xs = add_mset x M" "mset (remove1 x xs) = M"
  using assms by (metis insert_DiffM mset_remove1 set_mset_mset)

lemma file_task_inv:
  assumes "ev \<in> set (file_tasks s)" "audit_inv std h path d s"
  shows "audit_inv std h path d (file_task std ev s)"
proof -
  have i: "fo_path (file_observer s) = path" "fs_fault (disk s) path = None"
    "fs_file (disk s) path = Some (d @ concat (map (event_line std) (written s)))"
    using assms(2) by (simp_all add: audit_inv_def)
  obtain M where ms: "mset (file_tasks s) = add_mset ev M" "mset (remove1 ev (file_tasks s)) = M"
    using mset_taken [OF assms(1)] .
  show ?thesis
    using assms(2) fo_file [OF i(2,3), of std "file_observer s" ev] i ms
    by (auto simp: audit_inv_def file_task_def Let_def simp del: mset_remove1)
qed

lemma http_task_inv:
  assumes "(ev, k) \<in> set (http_tasks s)" "audit_inv std h path d s"
  shows "audit_inv std h path d (http_task std H h ev k s)"
proof -
  obtain res n where a: "audit_attempt H (ho_url h) (json_write std (marshal_event ev)) (receiver s) = (res, n)" by fastforce
  have ms: "mset (map fst (http_tasks s)) = add_mset ev (mset (map fst (remove1 (ev, k) (http_tasks s))))"
    using mset_remove1_fst [OF assms(1)] by simp
  have su: "sum_list (map snd (http_tasks s)) = sum_list (map snd (remove1 (ev, k) (http_tasks s))) + k"
    using sum_remove1_snd [OF assms(1)] by simp
  have al: "list_all (\<lambda>(ev, k). k \<le> max_retries (ho_retryCfg h)) (http_tasks s)"
    using assms(2) by (simp add: audit_inv_def)
  then have k: "k \<le> max_retries (ho_retryCfg h)" using assms(1) by (auto simp: list_all_iff)
  note rest = list_all_remove1 [OF al, of "(ev, k)"]
  show ?thesis
  proof (cases "\<exists>e. res = Some e \<and> retryable_of (ho_retryCfg h) e \<and> k < max_retries (ho_retryCfg h)")
    case True
    then show ?thesis
      using assms(2) a ms su rest by (auto simp: audit_inv_def http_task_def Let_def)
  next
    case False
    then have "\<exists>x. http_task std H h ev k s =
        s\<lparr>http_tasks := remove1 (ev, k) (http_tasks s), receiver := n, tries := tries s + 1, sent := sent s @ [(ev, x)]\<rparr>"
      using a by (auto simp: http_task_def Let_def split: option.split)
    then show ?thesis
      using assms(2) ms su rest k by (auto simp: audit_inv_def)
  qed
qed

lemma audit_inv_step: "audit_step std H h s s' \<Longrightarrow> audit_inv std h path d s \<Longrightarrow> audit_inv std h path d s'"
proof (induction rule: audit_step.induct)
  case (publishes ev s)
  obtain M where "mset (publishing s) = add_mset ev M" "mset (remove1 ev (publishing s)) = M"
    using mset_taken [OF publishes.hyps] .
  with publishes.prems show ?case unfolding audit_inv_def by (elim conjE) (auto simp del: mset_remove1)
next
  case (file_writes ev s)
  then show ?case by (blast intro: file_task_inv)
next
  case (http_attempts ev k s)
  then show ?case by (blast intro: http_task_inv)
next
  case (file_closes close_err s res f)
  then show ?case by (auto simp: audit_inv_def fo_Close_def split: if_splits option.splits)
qed (auto simp: audit_inv_def)

lemma audit_inv_reachable:
  assumes "(audit_step std H h)\<^sup>*\<^sup>* (audit_begin f fs n) s" "fs_fault fs (fo_path f) = None" "fs_file fs (fo_path f) = Some d"
  shows "audit_inv std h (fo_path f) d s"
  using assms(1)
proof (induction rule: rtranclp_induct)
  case base
  from assms(2,3) show ?case by (simp add: audit_inv_def audit_begin_def)
next
  case (step s s')
  show ?case by (rule audit_inv_step [OF step.hyps(2) step.IH])
qed


text \<open>A life with one accepted batch.\<close>

definition audit_life :: "nat audit_run" where
  "audit_life = audit_begin \<lparr>fo_open = True, fo_path = ''audit''\<rparr> (aw_files audit_start) 0"

definition audit_http :: HTTPObserver where
  "audit_http = \<lparr>ho_url = ''http://audit'',
     ho_retryCfg = \<lparr>MaxRetries = 3, Delays = Some [Second], IsRetryableFn = Some (\<lambda>err. isNetworkError (Some err))\<rparr>\<rparr>"

abbreviation "audit_run_step \<equiv> audit_step (sample_std JNull) dead_http audit_http"

lemma audit_published:
  "audit_run_step\<^sup>*\<^sup>* audit_life (audit_life\<lparr>requested := [sample_event 1], file_tasks := [sample_event 1],
     http_tasks := [(sample_event 1, 0)]\<rparr>)"
proof -
  let ?s1 = "audit_life\<lparr>requested := requested audit_life @ [sample_event 1], publishing := publishing audit_life @ [sample_event 1]\<rparr>"
  let ?s2 = "?s1\<lparr>publishing := remove1 (sample_event 1) (publishing ?s1), file_tasks := file_tasks ?s1 @ [sample_event 1],
     http_tasks := http_tasks ?s1 @ [(sample_event 1, 0)]\<rparr>"
  have "audit_run_step audit_life ?s1" by (rule batch_accepted)
  moreover have "audit_run_step ?s1 ?s2" by (rule publishes) simp
  ultimately have "audit_run_step\<^sup>*\<^sup>* audit_life ?s2"
    by (meson rtranclp.rtrancl_into_rtrancl rtranclp.rtrancl_refl)
  then show ?thesis by (simp add: audit_life_def audit_begin_def)
qed


section \<open>What a shutdown misses\<close>

text \<open>
  A shutdown may miss the event of an accepted batch: nothing waits for the goroutines, so the
  file observer can be closed, without an error, before the task of the event runs; its line is then
  in no file, although the batch was answered 200.
\<close>

theorem shutdown_misses_audit:
  "\<exists>s. audit_run_step\<^sup>*\<^sup>* audit_life s \<and> requested s = [sample_event 1] \<and> publishing s = [] \<and> file_tasks s = []
     \<and> missed s = [sample_event 1] \<and> \<not> fo_open (file_observer s) \<and> fs_file (disk s) ''audit'' = Some ''old''"
proof -
  let ?s2 = "audit_life\<lparr>requested := [sample_event 1], file_tasks := [sample_event 1], http_tasks := [(sample_event 1, 0)]\<rparr>"
  let ?s3 = "?s2\<lparr>file_observer := \<lparr>fo_open = False, fo_path = ''audit''\<rparr>\<rparr>"
  let ?s4 = "file_task (sample_std JNull) (sample_event 1) ?s3"
  have "audit_run_step ?s2 ?s3"
    by (rule file_closes [of None _ None]) (simp add: fo_Close_def audit_life_def audit_begin_def)
  moreover have "audit_run_step ?s3 ?s4" by (rule file_writes) simp
  ultimately have "audit_run_step\<^sup>*\<^sup>* audit_life ?s4"
    using audit_published by (meson rtranclp.rtrancl_into_rtrancl)
  moreover have "requested ?s4 = [sample_event 1] \<and> publishing ?s4 = [] \<and> file_tasks ?s4 = [] \<and> missed ?s4 = [sample_event 1]
     \<and> \<not> fo_open (file_observer ?s4) \<and> fs_file (disk ?s4) ''audit'' = Some ''old''"
    by (simp add: file_task_def fo_OnMetricProcessed_def audit_life_def audit_begin_def audit_start_def Let_def)
  ultimately show ?thesis by blast
qed

end
