(* ===== verification/GzipPool.thy ===== *)
theory GzipPool
  imports Gzip
begin

text \<open>
  The pool of gzip writers behind \<open>CompressResponse\<close> (\<open>gzipWriterPool\<close>, a \<open>sync.Pool\<close>) under
  concurrent requests. Writers are shared mutable objects, so they live in a store under addresses;
  a request holds the address of its writer until its \<open>Close\<close>. The theory \<open>Gzip\<close> gives every
  response a writer of its own; here that is proved: whatever the interleaving and the reuse,
  each response's stream is that of exactly the bytes its own handler wrote.
\<close>

section \<open>The store\<close>

text \<open>A writer: where it writes to (\<open>None\<close> is \<open>io.Discard\<close>), and the data since its last \<open>Reset\<close>.\<close>

record gz_writer =
  gw_target :: "nat option"
  gw_data :: bytes

definition gw_Reset :: "nat option \<Rightarrow> gz_writer \<Rightarrow> gz_writer" where
  "gw_Reset target z = \<lparr>gw_target = target, gw_data = []\<rparr>"

definition discarding_writer :: gz_writer where
  "discarding_writer = \<lparr>gw_target = None, gw_data = []\<rparr>"

text \<open>A \<open>gzip.Writer\<close> may hand over parts of its stream before its \<open>Close\<close>; here the whole stream arrives at
  \<open>Close\<close>, which is what a response has received in the end. The errors of the writes below are those of the response.

  \<open>free\<close>: the addresses in the pool; \<open>zw\<close>: the writer of each response, nil after \<open>Close\<close>;
  \<open>stream\<close>: the bytes that reached the response. \<open>handed_in\<close> and \<open>finished\<close> observe what the handler
  wrote, and that the response was closed.\<close>

record gz_pool =
  objects :: "nat \<Rightarrow> gz_writer"
  next_address :: nat
  free :: "nat list"
  zw :: "nat \<rightharpoonup> nat"
  stream :: "nat \<Rightarrow> bytes"
  handed_in :: "nat \<Rightarrow> bytes"
  finished :: "nat set"

definition gz_empty :: gz_pool where
  "gz_empty = \<lparr>objects = (\<lambda>a. discarding_writer), next_address = 0, free = [], zw = Map.empty,
     stream = (\<lambda>i. []), handed_in = (\<lambda>i. []), finished = {}\<rparr>"

section \<open>The operations\<close>

text \<open>\<open>gzipWriterPool.Get()\<close> gives any pooled object, or a new one.\<close>

definition pool_take :: "nat \<Rightarrow> gz_pool \<Rightarrow> gz_pool" where
  "pool_take x s = s\<lparr>free := remove1 x (free s)\<rparr>"

definition pool_make :: "gz_pool \<Rightarrow> gz_pool" where
  "pool_make s = s\<lparr>objects := (objects s)(next_address s := discarding_writer), next_address := next_address s + 1\<rparr>"

text \<open>\<open>zw.Reset(w)\<close> for the response \<open>i\<close>, and the \<open>compressWriter\<close> that holds \<open>zw\<close>.\<close>

definition open_response :: "nat \<Rightarrow> nat \<Rightarrow> gz_pool \<Rightarrow> gz_pool" where
  "open_response i x s =
     s\<lparr>objects := (objects s)(x := gw_Reset (Some i) (objects s x)), zw := (zw s)(i \<mapsto> x)\<rparr>"

definition zw_Write :: "nat \<Rightarrow> bytes \<Rightarrow> gz_pool \<Rightarrow> gz_pool" where
  "zw_Write i p s =
     (case zw s i of
        None \<Rightarrow> s
      | Some x \<Rightarrow>
          s\<lparr>objects := (objects s)(x := (objects s x)\<lparr>gw_data := gw_data (objects s x) @ p\<rparr>),
            handed_in := (handed_in s)(i := handed_in s i @ p)\<rparr>)"

text \<open>\<open>Close\<close>: the stream is flushed to the target, the writer is reset and put back, and \<open>c.zw\<close> is
  nil, so a second \<open>Close\<close> does nothing.\<close>

definition flush :: "gzip_format \<Rightarrow> gz_writer \<Rightarrow> (nat \<Rightarrow> bytes) \<Rightarrow> nat \<Rightarrow> bytes" where
  "flush gz z out =
     (case gw_target z of None \<Rightarrow> out | Some j \<Rightarrow> out(j := out j @ gz_pack gz (gw_data z)))"

definition zw_Close :: "gzip_format \<Rightarrow> nat \<Rightarrow> gz_pool \<Rightarrow> gz_pool" where
  "zw_Close gz i s =
     (case zw s i of
        None \<Rightarrow> s
      | Some x \<Rightarrow>
          s\<lparr>stream := flush gz (objects s x) (stream s),
            objects := (objects s)(x := gw_Reset None (objects s x)),
            free := x # free s, zw := (zw s)(i := None), finished := insert i (finished s)\<rparr>)"

inductive gz_step :: "gzip_format \<Rightarrow> gz_pool \<Rightarrow> gz_pool \<Rightarrow> bool" for gz where
  reuse: "i \<notin> finished s \<Longrightarrow> zw s i = None \<Longrightarrow> x \<in> set (free s) \<Longrightarrow>
     gz_step gz s (open_response i x (pool_take x s))"
| make_new: "i \<notin> finished s \<Longrightarrow> zw s i = None \<Longrightarrow>
     gz_step gz s (open_response i (next_address s) (pool_make s))"
| writes: "gz_step gz s (zw_Write i p s)"
| closes: "gz_step gz s (zw_Close gz i s)"
| collected: "gz_step gz s (s\<lparr>free := remove1 x (free s)\<rparr>)"

section \<open>No writer is shared\<close>

definition gz_inv :: "gzip_format \<Rightarrow> gz_pool \<Rightarrow> bool" where
  "gz_inv gz s \<longleftrightarrow>
     distinct (free s) \<and> (\<forall>x \<in> set (free s). x < next_address s)
     \<and> (\<forall>i x. zw s i = Some x \<longrightarrow> x < next_address s \<and> x \<notin> set (free s) \<and> i \<notin> finished s
          \<and> objects s x = \<lparr>gw_target = Some i, gw_data = handed_in s i\<rparr> \<and> stream s i = [])
     \<and> (\<forall>i j x. zw s i = Some x \<longrightarrow> zw s j = Some x \<longrightarrow> i = j)
     \<and> (\<forall>i. zw s i = None \<longrightarrow>
          (if i \<in> finished s then stream s i = gz_pack gz (handed_in s i) else stream s i = [] \<and> handed_in s i = []))"

lemma gz_invD:
  assumes "gz_inv gz s"
  shows "distinct (free s)" "x \<in> set (free s) \<Longrightarrow> x < next_address s"
    "zw s i = Some x \<Longrightarrow> x < next_address s" "zw s i = Some x \<Longrightarrow> x \<notin> set (free s)" "zw s i = Some x \<Longrightarrow> i \<notin> finished s"
    "zw s i = Some x \<Longrightarrow> objects s x = \<lparr>gw_target = Some i, gw_data = handed_in s i\<rparr>"
    "zw s i = Some x \<Longrightarrow> stream s i = []" "zw s i = Some x \<Longrightarrow> zw s j = Some x \<Longrightarrow> i = j"
    "zw s i = None \<Longrightarrow> i \<in> finished s \<Longrightarrow> stream s i = gz_pack gz (handed_in s i)"
    "zw s i = None \<Longrightarrow> i \<notin> finished s \<Longrightarrow> stream s i = [] \<and> handed_in s i = []"
  using assms unfolding gz_inv_def by (blast, blast, blast, blast, blast, blast, blast, blast, metis, metis)

lemma open_inv:
  assumes "gz_inv gz s" "i \<notin> finished s" "zw s i = None"
    and "x < next_address t" "\<And>j. zw s j \<noteq> Some x" "next_address s \<le> next_address t"
    and "zw t = zw s" "stream t = stream s" "handed_in t = handed_in s" "finished t = finished s"
    and "free t = remove1 x (free s)" "\<And>j y. zw s j = Some y \<Longrightarrow> objects t y = objects s y"
  shows "gz_inv gz (open_response i x t)"
proof -
  note d = gz_invD [OF assms(1)]
  have "x \<notin> set (remove1 x (free s))" using d(1) by simp
  moreover have "distinct (remove1 x (free s))" using d(1) by simp
  moreover have "set (remove1 x (free s)) \<subseteq> set (free s)" by (rule set_remove1_subset)
  moreover have "y < next_address t" if "y \<in> set (free s) \<or> zw s j = Some y" for y j
    using that d(2,3) assms(6) by (metis less_le_trans)
  moreover have "stream s i = []" "handed_in s i = []" using d(10) [OF assms(3,2)] by simp_all
  ultimately show ?thesis
    using d assms(2-5,12)
    by (auto simp: gz_inv_def open_response_def gw_Reset_def assms(7-11))
qed

lemma write_inv:
  assumes "gz_inv gz s"
  shows "gz_inv gz (zw_Write i p s)"
proof (cases "zw s i")
  case None
  with assms show ?thesis by (simp add: zw_Write_def)
next
  case (Some x)
  note d = gz_invD [OF assms]
  have "y \<noteq> x" if "zw s j = Some y" "j \<noteq> i" for j y using d(8) [OF that(1), of i] that(2) Some by blast
  then show ?thesis
    using d Some by (auto simp: gz_inv_def zw_Write_def)
qed

lemma close_inv:
  assumes "gz_inv gz s"
  shows "gz_inv gz (zw_Close gz i s)"
proof (cases "zw s i")
  case None
  with assms show ?thesis by (simp add: zw_Close_def)
next
  case (Some x)
  note d = gz_invD [OF assms]
  have "y \<noteq> x" if "zw s j = Some y" "j \<noteq> i" for j y using d(8) [OF that(1), of i] that(2) Some by blast
  moreover have "flush gz (objects s x) (stream s) = (stream s)(i := gz_pack gz (handed_in s i))"
    using d(6,7) [OF Some] by (simp add: flush_def)
  ultimately show ?thesis
    using d Some by (auto simp: gz_inv_def zw_Close_def)
qed

lemma gz_inv_step: "gz_step gz s s' \<Longrightarrow> gz_inv gz s \<Longrightarrow> gz_inv gz s'"
proof (induction rule: gz_step.induct)
  case (reuse i s x)
  note d = gz_invD [OF reuse.prems]
  show ?case
    by (rule open_inv [OF reuse.prems reuse.hyps(1,2)])
      (use d(2) [OF reuse.hyps(3)] d(4) reuse.hyps(3) in \<open>auto simp: pool_take_def\<close>)
next
  case (make_new i s)
  note d = gz_invD [OF make_new.prems]
  have "next_address s \<notin> set (free s)" using d(2) by blast
  then have "remove1 (next_address s) (free s) = free s" by (rule remove1_idem)
  moreover have "zw s j \<noteq> Some (next_address s)" for j using d(3) [of j] by fastforce
  ultimately show ?case
    by (intro open_inv [OF make_new.prems make_new.hyps]) (auto simp: pool_make_def)
next
  case (writes s i p)
  then show ?case by (rule write_inv)
next
  case (closes s i)
  then show ?case by (rule close_inv)
next
  case (collected s x)
  then show ?case using set_remove1_subset [of x "free s"] by (auto simp: gz_inv_def)
qed

lemma gz_inv_reachable: "(gz_step gz)\<^sup>*\<^sup>* gz_empty s \<Longrightarrow> gz_inv gz s"
proof (induction rule: rtranclp_induct)
  case base
  show ?case by (simp add: gz_inv_def gz_empty_def)
next
  case (step s s')
  show ?case by (rule gz_inv_step [OF step.hyps(2) step.IH])
qed

text \<open>
  C15. Pooled writers are as good as fresh ones: in every interleaving of concurrent responses,
  whichever pooled writer each of them gets, no two open responses share a writer and none is in
  the pool while it is in use; a closed response has received exactly one gzip stream, that of the
  bytes its own handler wrote, which is the body that \<open>CompressResponse\<close> with a writer of its own
  gives.
\<close>

theorem pooled_writers_are_private:
  assumes "(gz_step gz)\<^sup>*\<^sup>* gz_empty s"
  shows "(zw s i = Some x \<longrightarrow> x \<notin> set (free s) \<and> (\<forall>j. zw s j = Some x \<longrightarrow> j = i))
    \<and> (i \<in> finished s \<longrightarrow> (\<forall>cs. written cs = handed_in s i \<longrightarrow> stream s i = body (serve (cw_calls gz cs fresh_cw))))"
proof -
  note d = gz_invD [OF gz_inv_reachable [OF assms]]
  have "zw s i = None" if "i \<in> finished s" using d(5) that by fastforce
  with d(4,8,9) show ?thesis by (auto simp: serve_compressed body_serve)
qed

text \<open>Two responses after each other, with the same writer.\<close>

definition reused_pool :: gz_pool where
  "reused_pool = zw_Close marked 1 (zw_Write 1 ''two'' (open_response 1 0 (pool_take 0
     (zw_Close marked 0 (zw_Write 0 ''one'' (open_response 0 0 (pool_make gz_empty)))))))"

lemmas pool_ops = zw_Close_def zw_Write_def open_response_def pool_take_def pool_make_def gz_empty_def
  gw_Reset_def discarding_writer_def flush_def

lemma reused_pool_reachable: "(gz_step marked)\<^sup>*\<^sup>* gz_empty reused_pool"
proof -
  let ?a = "open_response 0 0 (pool_make gz_empty)"
  let ?c = "zw_Close marked 0 (zw_Write 0 ''one'' ?a)"
  have "gz_step marked gz_empty ?a" using make_new [of 0 gz_empty marked] by (simp add: gz_empty_def)
  moreover have "gz_step marked ?a (zw_Write 0 ''one'' ?a)" by (rule writes)
  moreover have "gz_step marked (zw_Write 0 ''one'' ?a) ?c" by (rule closes)
  moreover have "gz_step marked ?c (open_response 1 0 (pool_take 0 ?c))" by (rule reuse) (simp_all add: pool_ops)
  moreover have "gz_step marked (open_response 1 0 (pool_take 0 ?c)) (zw_Write 1 ''two'' (open_response 1 0 (pool_take 0 ?c)))"
    by (rule writes)
  moreover have "gz_step marked (zw_Write 1 ''two'' (open_response 1 0 (pool_take 0 ?c))) reused_pool"
    unfolding reused_pool_def by (rule closes)
  ultimately show ?thesis by (meson rtranclp.rtrancl_into_rtrancl rtranclp.rtrancl_refl)
qed

theorem pooled_writers_are_private_witness:
  "stream reused_pool 1 = body (serve (cw_calls marked [WriteHeader StatusOK, Write ''two''] fresh_cw))"
proof -
  have "1 \<in> finished reused_pool" "written [WriteHeader StatusOK, Write ''two''] = handed_in reused_pool 1"
    by (simp_all add: reused_pool_def pool_ops)
  with pooled_writers_are_private [OF reused_pool_reachable, of 1] show ?thesis by blast
qed

end
