(* ===== verification/CollectorLoop.thy ===== *)
theory CollectorLoop
  imports AgentCollect
begin

text \<open>
  The goroutine of \<open>metricsCollector.Start\<close> with its ticker, the cancellation of the context and
  \<open>Stop\<close>, together with the reporter (\<open>agent_step\<close>). The ticker holds at most one tick: one that
  fires while another waits is dropped. A \<open>select\<close> with both cases ready takes either. A stopped ticker delivers
  nothing more (Go 1.23 and later). \<open>Stop\<close> does not wait for the goroutine.
\<close>

section \<open>The loop\<close>

datatype collect_pc = Selecting | Collecting | Left

text \<open>\<open>fired\<close>, \<open>dropped\<close>, \<open>collections\<close> and \<open>collected_late\<close> observe the ticks, those nobody received, the calls of
  \<open>collectFromAllProviders\<close>, and those of them that ended after \<open>Stop\<close>.\<close>

record collect_run =
  agt :: agent_state
  collector_pc :: collect_pc
  timer_on :: bool
  timer_tick :: bool
  cancelled :: bool
  fired :: nat
  dropped :: nat
  collections :: nat
  collected_late :: nat

definition collect_start :: collect_run where
  "collect_start =
     \<lparr>agt = agent_start, collector_pc = Selecting, timer_on = True, timer_tick = False, cancelled = False,
      fired = 0, dropped = 0, collections = 0, collected_late = 0\<rparr>"

definition timer_fires :: "collect_run \<Rightarrow> collect_run" where
  "timer_fires r = r\<lparr>timer_tick := True, fired := fired r + 1, dropped := dropped r + (if timer_tick r then 1 else 0)\<rparr>"

definition collector_Stop :: "collect_run \<Rightarrow> collect_run" where
  "collector_Stop r = r\<lparr>timer_on := False, timer_tick := False, dropped := dropped r + (if timer_tick r then 1 else 0)\<rparr>"

definition collect_now :: "(goerr + MemoryMetrics) list \<Rightarrow> collect_run \<Rightarrow> collect_run" where
  "collect_now results r =
     r\<lparr>collector_pc := Selecting,
       agt := (agt r)\<lparr>coll := collectFromAllProviders results (coll (agt r)), polls := polls (agt r) + 1, late := late (agt r) + 1\<rparr>,
       collections := collections r + 1, collected_late := collected_late r + (if timer_on r then 0 else 1)\<rparr>"

text \<open>The steps of the goroutine itself, then those of the ticker, the main goroutine and the reporter.\<close>

inductive collector_step :: "collect_run \<Rightarrow> collect_run \<Rightarrow> bool" where
  receives: "collector_pc r = Selecting \<Longrightarrow> timer_tick r \<Longrightarrow>
     collector_step r (r\<lparr>timer_tick := False, collector_pc := Collecting\<rparr>)"
| collects: "collector_pc r = Collecting \<Longrightarrow> collector_step r (collect_now results r)"
| leaves: "collector_pc r = Selecting \<Longrightarrow> cancelled r \<Longrightarrow> collector_step r (r\<lparr>collector_pc := Left\<rparr>)"

inductive collect_step :: "collect_run \<Rightarrow> collect_run \<Rightarrow> bool" where
  goroutine: "collector_step r r' \<Longrightarrow> collect_step r r'"
| fires: "timer_on r \<Longrightarrow> collect_step r (timer_fires r)"
| context_ends: "collect_step r (r\<lparr>cancelled := True\<rparr>)"
| stops: "cancelled r \<Longrightarrow> collect_step r (collector_Stop r)"
| reporter: "agent_step (agt r) a \<Longrightarrow> polls a = polls (agt r) \<Longrightarrow> collect_step r (r\<lparr>agt := a\<rparr>)"

lemmas collect_ops = timer_fires_def collector_Stop_def collect_now_def

section \<open>What every run keeps\<close>

definition collect_inv :: "collect_run \<Rightarrow> bool" where
  "collect_inv r \<longleftrightarrow>
     agent_step\<^sup>*\<^sup>* agent_start (agt r) \<and> polls (agt r) = of_nat (collections r)
     \<and> fired r = collections r + dropped r + (if timer_tick r then 1 else 0) + (if collector_pc r = Collecting then 1 else 0)
     \<and> (timer_on r \<longrightarrow> collected_late r = 0)
     \<and> (\<not> timer_on r \<longrightarrow> cancelled r \<and> \<not> timer_tick r)
     \<and> collected_late r + (if collector_pc r = Collecting then 1 else 0) \<le> 1
     \<and> (collector_pc r = Left \<longrightarrow> cancelled r)"

lemma collector_inv_step: "collector_step r r' \<Longrightarrow> collect_inv r \<Longrightarrow> collect_inv r'"
proof (induction rule: collector_step.induct)
  case (receives r)
  then show ?case by (cases "timer_on r") (auto simp: collect_inv_def)
next
  case (collects r results)
  have "agent_step (agt r) (agt (collect_now results r))"
    unfolding collect_now_def by simp (rule poll)
  with collects show ?case
    by (auto simp: collect_inv_def collect_now_def intro: rtranclp.rtrancl_into_rtrancl)
qed (auto simp: collect_inv_def)

lemma collect_inv_step: "collect_step r r' \<Longrightarrow> collect_inv r \<Longrightarrow> collect_inv r'"
proof (induction rule: collect_step.induct)
  case (goroutine r r')
  then show ?case by (blast intro: collector_inv_step)
next
  case (reporter r a)
  then show ?case by (auto simp: collect_inv_def intro: rtranclp.rtrancl_into_rtrancl)
qed (auto simp: collect_inv_def collect_ops)

lemma collect_inv_reachable: "collect_step\<^sup>*\<^sup>* collect_start r \<Longrightarrow> collect_inv r"
proof (induction rule: rtranclp_induct)
  case base
  show ?case by (simp add: collect_inv_def collect_start_def agent_start_def)
next
  case (step r r')
  show ?case by (rule collect_inv_step [OF step.hyps(2) step.IH])
qed

section \<open>The end of the loop\<close>

text \<open>The steps the goroutine can still make once the ticker is stopped.\<close>

fun collector_left :: "collect_pc \<Rightarrow> nat" where
  "collector_left Collecting = 2"
| "collector_left Selecting = 1"
| "collector_left Left = 0"

lemma collector_progress:
  assumes "collect_inv r" "\<not> timer_on r"
  shows "collector_step r r' \<Longrightarrow> collector_left (collector_pc r') < collector_left (collector_pc r)"
    and "collector_pc r \<noteq> Left \<Longrightarrow> \<exists>r'. collector_step r r'"
proof -
  have q: "cancelled r" "\<not> timer_tick r" using assms by (simp_all add: collect_inv_def)
  show "collector_left (collector_pc r') < collector_left (collector_pc r)" if "collector_step r r'"
    using that q by cases (simp_all add: collect_now_def)
  show "\<exists>r'. collector_step r r'" if "collector_pc r \<noteq> Left"
    using that q(1) by (cases "collector_pc r") (auto intro: collector_step.intros)
qed

lemma collector_stays_stopped:
  "collector_step r r' \<Longrightarrow> timer_on r' = timer_on r"
  by (erule collector_step.cases) (simp_all add: collect_now_def)

lemma collector_run_keeps:
  "(collector_step ^^ n) r r' \<Longrightarrow> collect_inv r \<Longrightarrow> collect_inv r' \<and> timer_on r' = timer_on r"
proof (induction n arbitrary: r')
  case (Suc n)
  then obtain u where u: "collect_inv u \<and> timer_on u = timer_on r" "collector_step u r'" by auto
  with collector_inv_step [OF u(2)] collector_stays_stopped [OF u(2)] show ?case by simp
qed simp

lemma collector_runs_bounded:
  assumes "(collector_step ^^ n) r r'" "collect_inv r" "\<not> timer_on r"
  shows "n + collector_left (collector_pc r') \<le> collector_left (collector_pc r)"
  using assms(1)
proof (induction n arbitrary: r')
  case (Suc n)
  then obtain u where u: "(collector_step ^^ n) r u" "collector_step u r'" by auto
  have "collect_inv u" "\<not> timer_on u" using collector_run_keeps [OF u(1) assms(2)] assms(3) by simp_all
  from collector_progress(1) [OF this u(2)] Suc.IH [OF u(1)] show ?case by simp
qed simp

text \<open>
  C21. The collector follows its ticker: in every interleaving of the goroutine, the ticker, the
  reporter and the shutdown, each tick that fired was collected, dropped, still waits or is being
  collected, exactly one of these; as long as the reporter waits, what it handed over, what the
  collector holds and what a reset wiped out are exactly the collections (as \<open>int64\<close>). After \<open>Stop\<close> at
  most one more collection ends, and the goroutine, which cannot get stuck, leaves after at most two more steps; before the
  cancellation it never leaves.
\<close>

theorem collector_follows_its_ticker:
  assumes "collect_step\<^sup>*\<^sup>* collect_start r"
  shows "fired r = collections r + dropped r + (if timer_tick r then 1 else 0) + (if collector_pc r = Collecting then 1 else 0)
    \<and> (pc (agt r) = Waiting \<longrightarrow> reported (agt r) + pollCount (coll (agt r)) + lost (agt r) = of_nat (collections r))
    \<and> collected_late r \<le> 1
    \<and> (\<not> timer_on r \<longrightarrow> (\<forall>n r'. (collector_step ^^ n) r r' \<longrightarrow>
          n \<le> 2 \<and> (collector_pc r' = Left \<or> (\<exists>r''. collector_step r' r''))))
    \<and> (collector_pc r = Left \<longrightarrow> cancelled r)"
proof -
  note inv = collect_inv_reachable [OF assms]
  have "n \<le> 2 \<and> (collector_pc r' = Left \<or> (\<exists>r''. collector_step r' r''))"
    if "\<not> timer_on r" "(collector_step ^^ n) r r'" for n r'
  proof -
    have "collector_left (collector_pc r) \<le> 2" by (cases "collector_pc r") simp_all
    with collector_runs_bounded [OF that(2) inv that(1)] have "n \<le> 2" by simp
    moreover have "\<not> timer_on r'" "collect_inv r'"
      using collector_run_keeps [OF that(2) inv] that(1) by simp_all
    ultimately show ?thesis using collector_progress(2) by blast
  qed
  moreover have "agent_inv (agt r)"
    using inv by (simp add: collect_inv_def agent_inv_reachable)
  ultimately show ?thesis using inv by (auto simp: collect_inv_def agent_inv_def)
qed

text \<open>A run with one tick, and the shutdown.\<close>

definition one_collection :: collect_run where
  "one_collection = collector_Stop ((collect_now [] ((timer_fires collect_start)\<lparr>timer_tick := False, collector_pc := Collecting\<rparr>))\<lparr>cancelled := True\<rparr>)"

lemma one_collection_reachable: "collect_step\<^sup>*\<^sup>* collect_start one_collection"
proof -
  let ?r1 = "timer_fires collect_start"
  let ?r2 = "?r1\<lparr>timer_tick := False, collector_pc := Collecting\<rparr>"
  let ?r3 = "collect_now [] ?r2"
  have "collect_step collect_start ?r1" by (rule fires) (simp add: collect_start_def)
  moreover have "collect_step ?r1 ?r2"
    by (intro goroutine receives) (simp_all add: timer_fires_def collect_start_def)
  moreover have "collect_step ?r2 ?r3" by (intro goroutine collects) simp
  moreover have "collect_step ?r3 (?r3\<lparr>cancelled := True\<rparr>)" by (rule context_ends)
  moreover have "collect_step (?r3\<lparr>cancelled := True\<rparr>) one_collection"
    unfolding one_collection_def by (rule stops) simp
  ultimately show ?thesis by (meson rtranclp.rtrancl_into_rtrancl rtranclp.rtrancl_refl)
qed

theorem collector_follows_its_ticker_witness:
  "fired one_collection = 1 \<and> collections one_collection = 1 \<and> pollCount (coll (agt one_collection)) = 1
   \<and> (\<exists>r'. (collector_step ^^ 1) one_collection r' \<and> collector_pc r' = Left)"
proof -
  note f = collector_follows_its_ticker [OF one_collection_reachable]
  have c: "collections one_collection = 1" "dropped one_collection = 0" "\<not> timer_tick one_collection"
    "collector_pc one_collection = Selecting" "cancelled one_collection"
    "pc (agt one_collection) = Waiting" "reported (agt one_collection) = 0" "lost (agt one_collection) = 0"
    by (simp_all add: one_collection_def collect_ops collect_start_def agent_start_def)
  have "(collector_step ^^ 1) one_collection (one_collection\<lparr>collector_pc := Left\<rparr>)"
    using leaves [OF c(4,5)] by (simp add: OO_def)
  then have "\<exists>r'. (collector_step ^^ 1) one_collection r' \<and> collector_pc r' = Left" by auto
  with f c show ?thesis by simp
qed

end
