(* ===== verification/DbConcurrent.thy ===== *)
theory DbConcurrent
  imports Refine AgentSend "HOL-Library.List_Lexorder" "HOL-Library.Char_ord"
begin

text \<open>
  The transactions of \<open>dbstorage.UpdateMetrics\<close> under concurrent requests. The theory \<open>Postgres\<close> runs
  one batch after the other; here their statements interleave, by the documented rules of PostgreSQL's default
  isolation level: a statement sees what is committed and what its own transaction wrote; an
  upsert takes the lock of its row, waits as long as another transaction holds it, and keeps it to the end of the
  transaction. \<open>batch_sql\<close> is the statement the loop executes for a metric, if any
  (\<open>batch_loop_Cons\<close>, \<open>batch_loop_runs\<close>). An \<open>UpdateGauge\<close> or \<open>UpdateCounter\<close> is a transaction with one statement, and a retried
  attempt is one more transaction with the same work.
\<close>

section \<open>The statements of a batch, on a table\<close>

fun sql_row :: "sql \<Rightarrow> bytes" where
  "sql_row (UpsertGauge n v) = n"
| "sql_row (UpsertCounter n d) = n"
| "sql_row (BatchGauge n v) = n"
| "sql_row (BatchCounter n d) = n"

fun sql_rows :: "Metrics list \<Rightarrow> bytes list" where
  "sql_rows [] = []"
| "sql_rows (m # ms) = (case batch_sql m of None \<Rightarrow> sql_rows ms | Some (q, w) \<Rightarrow> sql_row q # sql_rows ms)"

fun run_sql :: "Metrics list \<Rightarrow> pg_table \<Rightarrow> pg_table option" where
  "run_sql [] t = Some t"
| "run_sql (m # ms) t =
     (case batch_sql m of
        None \<Rightarrow> run_sql ms t
      | Some (q, w) \<Rightarrow> (case sql_exec q t of Inl e \<Rightarrow> None | Inr t' \<Rightarrow> run_sql ms t'))"

lemma sql_rows_append: "sql_rows (ms @ ms') = sql_rows ms @ sql_rows ms'"
  by (induction ms) (auto split: option.splits)

lemma run_sql_append: "run_sql (ms @ ms') t = (case run_sql ms t of None \<Rightarrow> None | Some t' \<Rightarrow> run_sql ms' t')"
  by (induction ms arbitrary: t) (auto split: option.splits sum.splits)

text \<open>A statement reads and writes its row only.\<close>

lemma sql_exec_writes:
  assumes "sql_exec q t = Inr t'" "u (sql_row q) = t (sql_row q)"
  obtains r where "t' = t(sql_row q \<mapsto> r)" "sql_exec q u = Inr (u(sql_row q \<mapsto> r))"
  using assms
  by (cases q) (auto simp: upsert_gauge_def upsert_counter_def put_row_def split: option.splits if_splits)

lemma sql_exec_local:
  assumes "sql_exec q t = Inr t'" "u (sql_row q) = t (sql_row q)"
  shows "sql_exec q u = Inr (u(sql_row q := t' (sql_row q)))" "t' = t(sql_row q := t' (sql_row q))"
proof -
  obtain r where "t' = t(sql_row q \<mapsto> r)" "sql_exec q u = Inr (u(sql_row q \<mapsto> r))"
    using sql_exec_writes [where q = q and u = u, OF assms] .
  then show "sql_exec q u = Inr (u(sql_row q := t' (sql_row q)))" "t' = t(sql_row q := t' (sql_row q))" by simp_all
qed

lemma run_sql_local:
  assumes "run_sql ms t = Some t'" "\<forall>n \<in> set (sql_rows ms). u n = t n"
  shows "run_sql ms u = Some (\<lambda>n. if n \<in> set (sql_rows ms) then t' n else u n)"
    and "n \<notin> set (sql_rows ms) \<Longrightarrow> t' n = t n"
proof -
  have "run_sql ms u = Some (\<lambda>n. if n \<in> set (sql_rows ms) then t' n else u n)
      \<and> (\<forall>n. n \<notin> set (sql_rows ms) \<longrightarrow> t' n = t n)"
    using assms
  proof (induction ms arbitrary: t u)
    case (Cons m ms)
    show ?case
    proof (cases "batch_sql m")
      case None
      with Cons.IH [of t u] Cons.prems show ?thesis by simp
    next
      case (Some qw)
      obtain q w where qw: "qw = (q, w)" by (cases qw)
      obtain t1 where t1: "sql_exec q t = Inr t1" "run_sql ms t1 = Some t'"
        using Some qw Cons.prems(1) by (auto split: sum.splits)
      have row: "u (sql_row q) = t (sql_row q)" using Cons.prems(2) Some qw by simp
      let ?u1 = "u(sql_row q := t1 (sql_row q))"
      note loc = sql_exec_local [where q = q and u = u, OF t1(1) row]
      have rows: "sql_rows (m # ms) = sql_row q # sql_rows ms" using Some qw by simp
      have other: "t1 n = t n" if "n \<noteq> sql_row q" for n using fun_cong [OF loc(2), of n] that by simp
      have same: "\<forall>n \<in> set (sql_rows ms). ?u1 n = t1 n"
        using Cons.prems(2) other unfolding rows by simp
      from Cons.IH [OF t1(2) same]
      have IH: "run_sql ms ?u1 = Some (\<lambda>n. if n \<in> set (sql_rows ms) then t' n else ?u1 n)"
        "\<And>n. n \<notin> set (sql_rows ms) \<Longrightarrow> t' n = t1 n" by blast+
      have fr: "t' n = t n" if "n \<notin> set (sql_rows (m # ms))" for n
        using that IH(2) [of n] other [of n] unfolding rows by simp
      have eq: "(if n \<in> set (sql_rows ms) then t' n else ?u1 n) = (if n \<in> set (sql_rows (m # ms)) then t' n else u n)" for n
        using IH(2) [of "sql_row q"] unfolding rows by auto
      have "run_sql (m # ms) u = run_sql ms ?u1" using loc(1) Some qw by simp
      with fr IH(1) show ?thesis unfolding eq by simp
    qed
  qed simp
  then show "run_sql ms u = Some (\<lambda>n. if n \<in> set (sql_rows ms) then t' n else u n)"
    "n \<notin> set (sql_rows ms) \<Longrightarrow> t' n = t n" by blast+
qed

lemma run_sql_steps:
  "run_sql ms t = Some t' \<Longrightarrow> rows_ok t \<Longrightarrow> rows_ok t' \<and> run_steps pg_step ms (pg_view t) = Some (pg_view t')"
proof (induction ms arbitrary: t)
  case (Cons m ms)
  show ?case
  proof (cases "batch_sql m")
    case None
    with Cons batch_sql_None [OF None] show ?thesis by simp
  next
    case (Some qw)
    obtain q w where qw: "qw = (q, w)" by (cases qw)
    with Some Cons.prems obtain t1 where t1: "sql_exec q t = Inr t1" "run_sql ms t1 = Some t'" by (auto split: sum.splits)
    note st = batch_sql_Some [OF Some [unfolded qw] Cons.prems(2) t1(1)]
    with Cons.IH [OF t1(2)] show ?thesis by simp
  qed
qed simp

text \<open>Over a driver that keeps its laws, the loop of \<open>UpdateMetrics\<close> that ends without an error has run exactly
  these statements in its transaction.\<close>

context pgx_driver
begin

lemma batch_loop_runs:
  "dok d \<Longrightarrow> pend d = Some t \<Longrightarrow> batch_loop P ctx ms d = (None, d') \<Longrightarrow>
     dok d' \<and> rows d' = rows d \<and> (\<exists>t'. run_sql ms t = Some t' \<and> pend d' = Some t')"
proof (induction ms arbitrary: d t)
  case (Cons m ms)
  show ?case
  proof (cases "batch_sql m")
    case None
    with Cons.prems(3) have "batch_loop P ctx ms d = (None, d')"
      by (simp add: batch_loop_Cons del: batch_loop.simps)
    from Cons.IH [OF Cons.prems(1,2) this] None show ?thesis by simp
  next
    case (Some qw)
    obtain q w where qw: "qw = (q, w)" by (cases qw)
    obtain e d1 where e: "tx_Exec P ctx q d = (e, d1)" by fastforce
    with Cons.prems(3) Some qw have "e = None" and rest: "batch_loop P ctx ms d1 = (None, d')"
      by (auto simp: batch_loop_Cons simp del: batch_loop.simps split: option.splits)
    with tx_Exec_law [OF Cons.prems(1,2) e] obtain t1 where
      t1: "dok d1" "rows d1 = rows d" "sql_exec q t = Inr t1" "pend d1 = Some t1" by blast
    from Cons.IH [OF t1(1,4) rest] t1(2,3) Some qw show ?thesis by simp
  qed
qed simp

end

section \<open>Transactions with row locks\<close>

text \<open>\<open>own\<close>: the rows a transaction has written, which are those it has locked.\<close>

record open_tx =
  todo :: "Metrics list"
  own :: pg_table

record lock_db =
  pg_now :: pg_table
  open_txs :: "nat \<rightharpoonup> open_tx"
  committed :: "nat list"
  rolled_back :: "nat set"

definition lock_start :: "pg_table \<Rightarrow> lock_db" where
  "lock_start t = \<lparr>pg_now = t, open_txs = Map.empty, committed = [], rolled_back = {}\<rparr>"

definition free_for :: "lock_db \<Rightarrow> nat \<Rightarrow> bytes \<Rightarrow> bool" where
  "free_for s i n \<longleftrightarrow> (\<forall>j x. j \<noteq> i \<longrightarrow> open_txs s j = Some x \<longrightarrow> n \<notin> dom (own x))"

text \<open>\<open>work i\<close> is the batch of the \<open>i\<close>-th transaction. A transaction that fails is rolled back, by the code's
  deferred \<open>Rollback\<close> or by the server: after an error of a statement, a lost connection, a cancelled context, or
  as the victim of a deadlock.\<close>

inductive tx_step :: "(nat \<Rightarrow> Metrics list) \<Rightarrow> lock_db \<Rightarrow> lock_db \<Rightarrow> bool" for work where
  begins: "open_txs s i = None \<Longrightarrow> i \<notin> set (committed s) \<Longrightarrow> i \<notin> rolled_back s \<Longrightarrow>
     tx_step work s (s\<lparr>open_txs := (open_txs s)(i \<mapsto> \<lparr>todo = work i, own = Map.empty\<rparr>)\<rparr>)"
| skips: "open_txs s i = Some x \<Longrightarrow> todo x = m # ms \<Longrightarrow> batch_sql m = None \<Longrightarrow>
     tx_step work s (s\<lparr>open_txs := (open_txs s)(i \<mapsto> x\<lparr>todo := ms\<rparr>)\<rparr>)"
| executes: "open_txs s i = Some x \<Longrightarrow> todo x = m # ms \<Longrightarrow> batch_sql m = Some (q, w) \<Longrightarrow> free_for s i (sql_row q) \<Longrightarrow>
     sql_exec q (pg_now s ++ own x) = Inr t \<Longrightarrow>
     tx_step work s (s\<lparr>open_txs := (open_txs s)(i \<mapsto> \<lparr>todo = ms, own = (own x)(sql_row q := t (sql_row q))\<rparr>)\<rparr>)"
| rolls_back: "open_txs s i = Some x \<Longrightarrow>
     tx_step work s (s\<lparr>open_txs := (open_txs s)(i := None), rolled_back := insert i (rolled_back s)\<rparr>)"
| commits: "open_txs s i = Some x \<Longrightarrow> todo x = [] \<Longrightarrow>
     tx_step work s (s\<lparr>pg_now := pg_now s ++ own x, open_txs := (open_txs s)(i := None), committed := committed s @ [i]\<rparr>)"

section \<open>Serializability\<close>

text \<open>What an open transaction has written is what its statements so far make of the committed table,
  whoever commits in between.\<close>

definition tx_so_far :: "(nat \<Rightarrow> Metrics list) \<Rightarrow> pg_table \<Rightarrow> nat \<Rightarrow> open_tx \<Rightarrow> bool" where
  "tx_so_far work t i x \<longleftrightarrow>
     (\<exists>ds. work i = ds @ todo x \<and> dom (own x) = set (sql_rows ds) \<and> run_sql ds t = Some (t ++ own x))"

definition apart :: "pg_table \<Rightarrow> pg_table \<Rightarrow> bool" where
  "apart a b \<longleftrightarrow> dom a \<inter> dom b = {}"

definition tx_inv :: "(nat \<Rightarrow> Metrics list) \<Rightarrow> pg_table \<Rightarrow> lock_db \<Rightarrow> bool" where
  "tx_inv work t0 s \<longleftrightarrow>
     rows_ok (pg_now s) \<and> run_steps pg_step (concat (map work (committed s))) (pg_view t0) = Some (pg_view (pg_now s))
     \<and> (\<forall>i x. open_txs s i = Some x \<longrightarrow> tx_so_far work (pg_now s) i x \<and> i \<notin> set (committed s) \<and> i \<notin> rolled_back s)
     \<and> (\<forall>i j x y. i \<noteq> j \<longrightarrow> open_txs s i = Some x \<longrightarrow> open_txs s j = Some y \<longrightarrow> apart (own x) (own y))
     \<and> distinct (committed s) \<and> set (committed s) \<inter> rolled_back s = {} \<and> finite (dom (open_txs s))"

lemma so_far_commit:
  assumes "tx_so_far work t i x" "apart (own x) (own y)"
  shows "tx_so_far work (t ++ own y) i x"
proof -
  obtain ds where ds: "work i = ds @ todo x" "dom (own x) = set (sql_rows ds)" "run_sql ds t = Some (t ++ own x)"
    using assms(1) by (auto simp: tx_so_far_def)
  have out: "own y n = None" if "n \<in> set (sql_rows ds)" for n using that ds(2) assms(2) unfolding apart_def by blast
  then have "\<forall>n \<in> set (sql_rows ds). (t ++ own y) n = t n" by (simp add: map_add_def)
  from run_sql_local(1) [OF ds(3) this]
  have r: "run_sql ds (t ++ own y) = Some (\<lambda>n. if n \<in> set (sql_rows ds) then (t ++ own x) n else (t ++ own y) n)" .
  have "(\<lambda>n. if n \<in> set (sql_rows ds) then (t ++ own x) n else (t ++ own y) n) = t ++ own y ++ own x"
  proof
    fix n
    show "(if n \<in> set (sql_rows ds) then (t ++ own x) n else (t ++ own y) n) = (t ++ own y ++ own x) n"
      using ds(2) by (cases "n \<in> dom (own x)") (auto simp: map_add_def split: option.splits)
  qed
  with r ds show ?thesis by (auto simp: tx_so_far_def)
qed

lemma so_far_exec:
  assumes "tx_so_far work t i x" "todo x = m # ms" "batch_sql m = Some (q, w)" "sql_exec q (t ++ own x) = Inr t'"
  shows "tx_so_far work t i \<lparr>todo = ms, own = (own x)(sql_row q := t' (sql_row q))\<rparr>"
    and "dom ((own x)(sql_row q := t' (sql_row q))) = insert (sql_row q) (dom (own x))"
proof -
  obtain ds where ds: "work i = ds @ todo x" "dom (own x) = set (sql_rows ds)" "run_sql ds t = Some (t ++ own x)"
    using assms(1) by (auto simp: tx_so_far_def)
  note loc = sql_exec_local(2) [where q = q and u = "t ++ own x", OF assms(4) refl]
  have some: "t' (sql_row q) \<noteq> None"
    using assms(4) by (cases q) (auto simp: upsert_gauge_def upsert_counter_def put_row_def split: option.splits if_splits)
  then show d: "dom ((own x)(sql_row q := t' (sql_row q))) = insert (sql_row q) (dom (own x))" by auto
  have "t' = t ++ (own x)(sql_row q := t' (sql_row q))"
  proof
    fix n
    show "t' n = (t ++ (own x)(sql_row q := t' (sql_row q))) n"
      using some fun_cong [OF loc, of n] by (cases "n = sql_row q") (auto simp: map_add_def)
  qed
  then have "run_sql (ds @ [m]) t = Some (t ++ (own x)(sql_row q := t' (sql_row q)))"
    using ds(3) assms(3,4) by (simp add: run_sql_append)
  with ds d assms(2,3) show "tx_so_far work t i \<lparr>todo = ms, own = (own x)(sql_row q := t' (sql_row q))\<rparr>"
    by (auto simp: tx_so_far_def sql_rows_append intro!: exI [of _ "ds @ [m]"])
qed

lemma tx_inv_move:
  assumes "tx_inv work t0 s" "open_txs s i = Some x" "tx_so_far work (pg_now s) i x'"
    and "dom (own x') \<subseteq> dom (own x) \<union> N" "\<And>j y. j \<noteq> i \<Longrightarrow> open_txs s j = Some y \<Longrightarrow> N \<inter> dom (own y) = {}"
  shows "tx_inv work t0 (s\<lparr>open_txs := (open_txs s)(i \<mapsto> x')\<rparr>)"
proof -
  have "apart (own x') (own y)" if "i \<noteq> j" "open_txs s j = Some y" for j y
  proof -
    have "apart (own x) (own y)" using assms(1,2) that unfolding tx_inv_def by metis
    with assms(4) assms(5) [OF that(1) [symmetric] that(2)] show ?thesis unfolding apart_def by blast
  qed
  moreover have "apart (own y) (own x')" if "j \<noteq> i" "open_txs s j = Some y" for j y
    using calculation [OF that(1) [symmetric] that(2)] unfolding apart_def by blast
  ultimately show ?thesis
    using assms(1-3) unfolding tx_inv_def by (elim conjE) auto
qed

lemma tx_inv_step: "tx_step work s s' \<Longrightarrow> tx_inv work t0 s \<Longrightarrow> tx_inv work t0 s'"
proof (induction rule: tx_step.induct)
  case (begins s i)
  have "apart Map.empty b" "apart b Map.empty" for b by (simp_all add: apart_def)
  with begins show ?case by (auto simp: tx_inv_def tx_so_far_def intro!: exI [of _ "[]"] split: if_splits)
next
  case (skips s i x m ms)
  have "tx_so_far work (pg_now s) i x" using skips by (simp add: tx_inv_def)
  then obtain ds where "work i = ds @ todo x" "dom (own x) = set (sql_rows ds)" "run_sql ds (pg_now s) = Some (pg_now s ++ own x)"
    by (auto simp: tx_so_far_def)
  with skips.hyps have "tx_so_far work (pg_now s) i (x\<lparr>todo := ms\<rparr>)"
    by (auto simp: tx_so_far_def sql_rows_append run_sql_append intro!: exI [of _ "ds @ [m]"])
  from tx_inv_move [OF skips.prems skips.hyps(1) this, of "{}"] show ?case by simp
next
  case (executes s i x m ms q w t)
  have "tx_so_far work (pg_now s) i x" using executes by (simp add: tx_inv_def)
  note so = so_far_exec [OF this executes.hyps(2,3,5)]
  show ?case
    by (rule tx_inv_move [OF executes.prems executes.hyps(1) so(1), of "{sql_row q}"])
      (use so(2) executes.hyps(4) in \<open>auto simp: free_for_def\<close>)
next
  case (rolls_back s i x)
  then show ?case by (auto simp: tx_inv_def split: if_splits)
next
  case (commits s i x)
  then have so: "tx_so_far work (pg_now s) i x" "rows_ok (pg_now s)" by (simp_all add: tx_inv_def)
  then have "run_sql (work i) (pg_now s) = Some (pg_now s ++ own x)" using commits.hyps(2) by (auto simp: tx_so_far_def)
  note run = run_sql_steps [OF this so(2)]
  have "tx_so_far work (pg_now s ++ own x) j y" if "open_txs s j = Some y" "j \<noteq> i" for j y
    using commits that by (intro so_far_commit) (auto simp: tx_inv_def)
  with commits run show ?case by (auto simp: tx_inv_def run_steps_append split: if_splits)
qed

lemma tx_inv_reachable:
  assumes "(tx_step work)\<^sup>*\<^sup>* (lock_start t) s" "rows_ok t"
  shows "tx_inv work t s"
  using assms(1)
proof (induction rule: rtranclp_induct)
  case base
  from assms(2) show ?case by (simp add: tx_inv_def lock_start_def)
next
  case (step s s')
  show ?case by (rule tx_inv_step [OF step.hyps(2) step.IH])
qed

text \<open>
  C12. Concurrent batches are as good as one after the other: in every interleaving of the statements of
  any number of transactions, with rollbacks at any point, the committed table is the one that
  the batches of the committed transactions make of the first table, each applied once and
  whole, in the order of their commits; a batch that was rolled back has left no trace, whoever read or wrote in between.
\<close>

theorem concurrent_batches_serialize:
  assumes "(tx_step work)\<^sup>*\<^sup>* (lock_start t) s" "rows_ok t"
  shows "run_steps pg_step (concat (map work (committed s))) (pg_view t) = Some (pg_view (pg_now s))
    \<and> rows_ok (pg_now s) \<and> distinct (committed s) \<and> set (committed s) \<inter> rolled_back s = {}"
  using tx_inv_reachable [OF assms] by (simp add: tx_inv_def)

text \<open>Two batches on a counter, whose statements alternate with a rollback and a commit.\<close>

definition two_batches :: "nat \<Rightarrow> Metrics list" where
  "two_batches i = (if i = 0 then [counter_metric ''a'' 5, gauge_metric ''g'' 0] else [counter_metric ''a'' 2])"

lemma batch_sql_made [simp]:
  "batch_sql (gauge_metric n v) = Some (BatchGauge n v, ''failed to update gauge metric '' @ n @ '': '')"
  "batch_sql (counter_metric n d) = Some (BatchCounter n d, ''failed to update counter metric '' @ n @ '': '')"
  by (simp_all add: batch_sql_def gauge_metric_def counter_metric_def Gauge_def Counter_def)

definition new_counter :: "int64 \<Rightarrow> pg_row" where
  "new_counter d = \<lparr>row_type = PgCounter, row_delta = Some d, row_value = None\<rparr>"

definition new_gauge :: "float64 \<Rightarrow> pg_row" where
  "new_gauge v = \<lparr>row_type = PgGauge, row_delta = None, row_value = Some v\<rparr>"

lemma upsert_new:
  "t n = None \<Longrightarrow> sql_exec (BatchGauge n v) t = Inr (t(n \<mapsto> new_gauge v))"
  "t n = None \<Longrightarrow> sql_exec (BatchCounter n d) t = Inr (t(n \<mapsto> new_counter d))"
  by (simp_all add: upsert_gauge_def upsert_counter_def put_row_def chk_metric_def new_gauge_def new_counter_def)

text \<open>The first statement of a transaction, on a gauge or a new name.\<close>

lemma gauge_upserts:
  assumes "rows_ok t" "tab_counters (pg_view t) n = None"
  shows "\<exists>r. sql_exec (BatchGauge n v) t = Inr (t(n \<mapsto> r))"
proof (cases "t n")
  case None
  then show ?thesis using upsert_new(1) by blast
next
  case (Some r)
  with rows_okD [OF assms(1) Some] assms(2) have "chk_metric (r\<lparr>row_value := Some v\<rparr>)"
    by (auto simp: chk_metric_def pg_view_def)
  with Some show ?thesis by (auto simp: upsert_gauge_def put_row_def)
qed

lemma first_statement:
  assumes "open_txs s i = Some \<lparr>todo = gauge_metric n v # ms, own = Map.empty\<rparr>" "free_for s i n"
    and "rows_ok (pg_now s)" "tab_counters (pg_view (pg_now s)) n = None"
  shows "\<exists>r. tx_step work s (s\<lparr>open_txs := (open_txs s)(i \<mapsto> \<lparr>todo = ms, own = [n \<mapsto> r]\<rparr>)\<rparr>)"
proof -
  obtain r where "sql_exec (BatchGauge n v) (pg_now s) = Inr ((pg_now s)(n \<mapsto> r))"
    using gauge_upserts [OF assms(3,4)] by blast
  then have x: "sql_exec (BatchGauge n v) (pg_now s ++ own \<lparr>todo = gauge_metric n v # ms, own = Map.empty\<rparr>) =
      Inr ((pg_now s)(n \<mapsto> r))" by simp
  show ?thesis
    using executes [OF assms(1) _ batch_sql_made(1) _ x, of ms work] assms(2) by auto
qed

text \<open>The second transaction starts while the first is open, waits for the row, and adds to what was committed.\<close>

definition after_two :: lock_db where
  "after_two = \<lparr>pg_now = [''a'' \<mapsto> new_counter 7, ''g'' \<mapsto> new_gauge 0], open_txs = Map.empty, committed = [0, 1], rolled_back = {}\<rparr>"

lemma upsert_more:
  "t n = Some (new_counter x) \<Longrightarrow> \<not> add_overflows x d \<Longrightarrow>
     sql_exec (BatchCounter n d) t = Inr (t(n \<mapsto> new_counter (x + d)))"
  by (simp add: upsert_counter_def put_row_def chk_metric_def new_counter_def)

lemma execute_to:
  assumes "batch_sql m = Some (q, w)" "open_txs s i = Some \<lparr>todo = m # ms, own = v\<rparr>" "free_for s i (sql_row q)"
    and "sql_exec q (pg_now s ++ v) = Inr t"
    and "s' = s\<lparr>open_txs := (open_txs s)(i \<mapsto> \<lparr>todo = ms, own = v(sql_row q := t (sql_row q))\<rparr>)\<rparr>"
  shows "tx_step work s s'"
  using executes [OF assms(2) _ assms(1,3), of ms t work] assms(4,5) by simp

lemma commit_to:
  assumes "open_txs s i = Some \<lparr>todo = [], own = v\<rparr>"
    and "s' = s\<lparr>pg_now := pg_now s ++ v, open_txs := (open_txs s)(i := None), committed := committed s @ [i]\<rparr>"
  shows "tx_step work s s'"
  using commits [OF assms(1), of work] assms(2) by simp

lemma after_two_reachable: "(tx_step two_batches)\<^sup>*\<^sup>* (lock_start Map.empty) after_two"
proof -
  let ?st = "\<lambda>t m c. \<lparr>pg_now = t, open_txs = m, committed = c, rolled_back = {}\<rparr>"
  let ?g = "[gauge_metric ''g'' 0]" and ?c = "counter_metric ''a'' 2"
  let ?two = "[''a'' \<mapsto> new_counter 5, ''g'' \<mapsto> new_gauge 0]"
  let ?s1 = "?st Map.empty [0 \<mapsto> \<lparr>todo = counter_metric ''a'' 5 # ?g, own = Map.empty\<rparr>] []"
  let ?s2 = "?st Map.empty [0 \<mapsto> \<lparr>todo = counter_metric ''a'' 5 # ?g, own = Map.empty\<rparr>, 1 \<mapsto> \<lparr>todo = [?c], own = Map.empty\<rparr>] []"
  let ?s3 = "?st Map.empty [0 \<mapsto> \<lparr>todo = ?g, own = [''a'' \<mapsto> new_counter 5]\<rparr>, 1 \<mapsto> \<lparr>todo = [?c], own = Map.empty\<rparr>] []"
  let ?s4 = "?st Map.empty [0 \<mapsto> \<lparr>todo = [], own = ?two\<rparr>, 1 \<mapsto> \<lparr>todo = [?c], own = Map.empty\<rparr>] []"
  let ?s5 = "?st ?two [1 \<mapsto> \<lparr>todo = [?c], own = Map.empty\<rparr>] [0]"
  let ?s6 = "?st ?two [1 \<mapsto> \<lparr>todo = [], own = [''a'' \<mapsto> new_counter 7]\<rparr>] [0]"
  have "tx_step two_batches (lock_start Map.empty) ?s1"
    using begins [of "lock_start Map.empty" 0 two_batches] by (simp add: lock_start_def two_batches_def)
  moreover have "tx_step two_batches ?s1 ?s2"
    using begins [of ?s1 1 two_batches] by (simp add: two_batches_def)
  moreover have "tx_step two_batches ?s2 ?s3"
    by (rule execute_to [OF batch_sql_made(2), of _ 0 "''a''" 5 ?g Map.empty "[''a'' \<mapsto> new_counter 5]"])
      (use upsert_new(2) [of Map.empty "''a''" 5] in \<open>auto simp: free_for_def fun_eq_iff\<close>)
  moreover have "tx_step two_batches ?s3 ?s4"
    by (rule execute_to [OF batch_sql_made(1), of _ 0 "''g''" 0 "[]" "[''a'' \<mapsto> new_counter 5]" ?two])
      (use upsert_new(1) [of "[''a'' \<mapsto> new_counter 5]" "''g''" 0] in \<open>auto simp: free_for_def fun_eq_iff\<close>)
  moreover have "tx_step two_batches ?s4 ?s5"
    by (rule commit_to [of _ 0 ?two]) (auto simp: fun_eq_iff)
  moreover have "tx_step two_batches ?s5 ?s6"
    by (rule execute_to [OF batch_sql_made(2), of _ 1 "''a''" 2 "[]" Map.empty "?two(''a'' \<mapsto> new_counter 7)"])
      (use upsert_more [of ?two "''a''" 5 2] in \<open>auto simp: free_for_def add_overflows_def fun_eq_iff\<close>)
  moreover have "tx_step two_batches ?s6 after_two"
    by (rule commit_to [of _ 1 "[''a'' \<mapsto> new_counter 7]"]) (auto simp: after_two_def fun_eq_iff)
  ultimately show ?thesis by (meson rtranclp.rtrancl_into_rtrancl rtranclp.rtrancl_refl)
qed

theorem concurrent_batches_serialize_witness:
  "run_steps pg_step [counter_metric ''a'' 5, gauge_metric ''g'' 0, counter_metric ''a'' 2] (pg_view Map.empty)
     = Some (pg_view (pg_now after_two)) \<and> tab_counters (pg_view (pg_now after_two)) ''a'' = Some 7"
  using concurrent_batches_serialize [OF after_two_reachable rows_ok_empty]
  by (simp add: two_batches_def) (simp add: after_two_def new_counter_def pg_view_def two_batches_def)

section \<open>Deadlocks\<close>

definition blocked :: "lock_db \<Rightarrow> nat \<Rightarrow> bytes \<Rightarrow> bool" where
  "blocked s i n \<longleftrightarrow>
     (\<exists>x m ms q w. open_txs s i = Some x \<and> todo x = m # ms \<and> batch_sql m = Some (q, w) \<and> sql_row q = n \<and> \<not> free_for s i n)"

text \<open>Every open transaction waits for another one, so only a rollback can go on.\<close>

definition deadlocked :: "lock_db \<Rightarrow> bool" where
  "deadlocked s \<longleftrightarrow> dom (open_txs s) \<noteq> {} \<and> (\<forall>i \<in> dom (open_txs s). \<exists>n. blocked s i n)"

lemma deadlocked_waits:
  assumes "deadlocked s" "open_txs s i = Some x"
  shows "\<exists>m ms q w. todo x = m # ms \<and> batch_sql m = Some (q, w) \<and> \<not> free_for s i (sql_row q)"
proof -
  obtain n where "blocked s i n" using assms by (auto simp: deadlocked_def)
  with assms(2) show ?thesis by (auto simp: blocked_def)
qed

lemma deadlock_needs_rollback:
  assumes "deadlocked s" "tx_step work s s'"
  shows "committed s' = committed s \<and> pg_now s' = pg_now s
    \<and> (\<forall>i \<in> dom (open_txs s). open_txs s' i = open_txs s i \<or> i \<in> rolled_back s')"
  using assms(2)
proof cases
  case (skips i x m ms)
  with deadlocked_waits [OF assms(1) skips(2)] show ?thesis by auto
next
  case (executes i x m ms q w t)
  with deadlocked_waits [OF assms(1) executes(2)] show ?thesis by auto
next
  case (commits i x)
  with deadlocked_waits [OF assms(1) commits(2)] show ?thesis by auto
qed auto

lemma blocked_by_later:
  assumes "tx_inv work t s" "blocked s i n" "\<And>j. sorted (sql_rows (work j))" "deadlocked s"
  shows "\<exists>j n'. blocked s j n' \<and> n < n'"
proof -
  obtain j y where j: "j \<noteq> i" "open_txs s j = Some y" "n \<in> dom (own y)"
    using assms(2) unfolding blocked_def free_for_def by blast
  obtain n' where n': "blocked s j n'" using assms(4) j(2) unfolding deadlocked_def by blast
  then obtain m ms q w where td: "todo y = m # ms" "batch_sql m = Some (q, w)" "sql_row q = n'" and nf: "\<not> free_for s j n'"
    using j(2) unfolding blocked_def by auto
  have "tx_so_far work (pg_now s) j y" using assms(1) j(2) by (simp add: tx_inv_def)
  then obtain ds where ds: "work j = ds @ todo y" "dom (own y) = set (sql_rows ds)" by (auto simp: tx_so_far_def)
  have "sorted (sql_rows ds @ n' # sql_rows ms)" using assms(3) [of j] ds(1) td by (simp add: sql_rows_append)
  then have "n \<le> n'" using j(3) ds(2) by (simp add: sorted_append)
  moreover have "n' \<notin> dom (own y)"
  proof
    assume own: "n' \<in> dom (own y)"
    have "n' \<notin> dom (own z)" if "k \<noteq> j" "open_txs s k = Some z" for k z
    proof -
      have "apart (own y) (own z)" using assms(1) j(2) that unfolding tx_inv_def by metis
      with own show ?thesis unfolding apart_def by blast
    qed
    with nf show False unfolding free_for_def by blast
  qed
  ultimately show ?thesis using n' j(3) by (metis order_less_le)
qed

text \<open>If every batch named its metrics in one order, no deadlock could occur.\<close>

theorem ordered_batches_never_deadlock:
  assumes "(tx_step work)\<^sup>*\<^sup>* (lock_start t) s" "rows_ok t" "\<And>j. sorted (sql_rows (work j))"
  shows "\<not> deadlocked s"
proof
  assume dead: "deadlocked s"
  note inv = tx_inv_reachable [OF assms(1,2)]
  let ?W = "{n. \<exists>i. blocked s i n}"
  have "?W \<subseteq> (\<lambda>i. THE n. blocked s i n) ` dom (open_txs s)"
  proof
    fix n assume "n \<in> ?W"
    then obtain i where i: "blocked s i n" by blast
    then have "(THE n. blocked s i n) = n" by (intro the_equality) (auto simp: blocked_def)
    moreover have "i \<in> dom (open_txs s)" using i by (auto simp: blocked_def)
    ultimately show "n \<in> (\<lambda>i. THE n. blocked s i n) ` dom (open_txs s)" by (metis image_eqI)
  qed
  moreover have "finite (dom (open_txs s))" using inv by (simp add: tx_inv_def)
  ultimately have fin: "finite ?W" by (blast intro: finite_subset)
  have ne: "?W \<noteq> {}" using dead unfolding deadlocked_def by blast
  have "Max ?W \<in> ?W" by (rule Max_in [OF fin ne])
  then obtain i where "blocked s i (Max ?W)" by blast
  from blocked_by_later [OF inv this assms(3) dead] obtain j n' where n': "blocked s j n'" "Max ?W < n'" by blast
  have "n' \<le> Max ?W" by (rule Max_ge [OF fin]) (use n'(1) in blast)
  with n'(2) show False by (meson leD)
qed

text \<open>The snapshots of agents name their gauges in the order of a Go map, which is any order.\<close>

lemma map_order_starting:
  fixes f :: "bytes \<rightharpoonup> 'v"
  assumes "a \<in> dom f" "b \<in> dom f" "a \<noteq> b" "finite (dom f)"
  shows "map_order f (a # b # sorted_list_of_set (dom f - {a, b}))"
  using assms by (auto simp: map_order_def)

lemma snapshot_starts:
  assumes "a \<in> dom (ToMap m)" "b \<in> dom (ToMap m)" "a \<noteq> b"
  shows "\<exists>ord ms u v. map_order (ToMap m) ord \<and> snapshot_batch ord [] m d = gauge_metric a u # gauge_metric b v # ms"
proof -
  let ?ord = "a # b # sorted_list_of_set (dom (ToMap m) - {a, b})"
  obtain u v where "ToMap m a = Some u" "ToMap m b = Some v" using assms by blast
  then have "\<exists>ms. snapshot_batch ?ord [] m d = gauge_metric a u # gauge_metric b v # ms"
    by (simp add: snapshot_batch_def)
  with map_order_starting [OF assms ToMap_finite] show ?thesis by blast
qed

lemma crossed_deadlock:
  assumes "work 0 = gauge_metric a u # ra" "ra = gauge_metric b v # ms"
    and "work 1 = gauge_metric b v' # rb" "rb = gauge_metric a u' # ms'"
    and "a \<noteq> b" "rows_ok t" "tab_counters (pg_view t) a = None" "tab_counters (pg_view t) b = None"
  shows "\<exists>s. (tx_step work)\<^sup>*\<^sup>* (lock_start t) s \<and> deadlocked s \<and> dom (open_txs s) = {0, 1}"
proof -
  let ?st = "\<lambda>m. \<lparr>pg_now = t, open_txs = m, committed = [], rolled_back = {}\<rparr>"
  let ?new = "\<lambda>i. \<lparr>todo = work i, own = Map.empty\<rparr>"
  have "tx_step work (lock_start t) (?st [0 \<mapsto> ?new 0])"
    using begins [of "lock_start t" 0 work] by (simp add: lock_start_def)
  moreover have "tx_step work (?st [0 \<mapsto> ?new 0]) (?st [0 \<mapsto> ?new 0, 1 \<mapsto> ?new 1])"
    using begins [of "?st [0 \<mapsto> ?new 0]" 1 work] by simp
  moreover obtain r where "tx_step work (?st [0 \<mapsto> ?new 0, 1 \<mapsto> ?new 1])
      (?st ([0 \<mapsto> ?new 0, 1 \<mapsto> ?new 1](0 \<mapsto> \<lparr>todo = ra, own = [a \<mapsto> r]\<rparr>)))"
    using first_statement [of "?st [0 \<mapsto> ?new 0, 1 \<mapsto> ?new 1]" 0 a u ra work] assms(1,6,7)
    by (fastforce simp: free_for_def split: if_splits)
  moreover
  let ?m = "[0 \<mapsto> ?new 0, 1 \<mapsto> ?new 1](0 \<mapsto> \<lparr>todo = ra, own = [a \<mapsto> r]\<rparr>)"
  obtain r' where "tx_step work (?st ?m) (?st (?m(1 \<mapsto> \<lparr>todo = rb, own = [b \<mapsto> r']\<rparr>)))"
    using first_statement [of "?st ?m" 1 b v' rb work] assms(3,5,6,8)
    by (fastforce simp: free_for_def split: if_splits)
  moreover have o: "?m(1 \<mapsto> \<lparr>todo = rb, own = [b \<mapsto> r']\<rparr>) =
      [0 \<mapsto> \<lparr>todo = ra, own = [a \<mapsto> r]\<rparr>, 1 \<mapsto> \<lparr>todo = rb, own = [b \<mapsto> r']\<rparr>]" by (simp add: fun_eq_iff)
  ultimately have run: "(tx_step work)\<^sup>*\<^sup>* (lock_start t) (?st [0 \<mapsto> \<lparr>todo = ra, own = [a \<mapsto> r]\<rparr>, 1 \<mapsto> \<lparr>todo = rb, own = [b \<mapsto> r']\<rparr>])"
    unfolding o by (meson rtranclp.rtrancl_into_rtrancl rtranclp.rtrancl_refl)
  let ?s = "?st [0 \<mapsto> \<lparr>todo = ra, own = [a \<mapsto> r]\<rparr>, 1 \<mapsto> \<lparr>todo = rb, own = [b \<mapsto> r']\<rparr>]"
  have "blocked ?s 0 b" "blocked ?s 1 a" by (auto simp: blocked_def free_for_def assms(2,4))
  then have "deadlocked ?s" by (auto simp: deadlocked_def)
  moreover have "dom (open_txs ?s) = {0, 1}" by auto
  ultimately show ?thesis using run by blast
qed

text \<open>
  C26. Two agents can deadlock: whatever the snapshot, there are two orders of its map in which two
  agents (or two sends of one) name its gauges so that their transactions wait for each other, and
  only a rollback can go on, in every table where no counter has the name of a gauge. The error of the victim
  (SQLSTATE 40P01) is not one that the storage retries, so its batch is lost with status 500.
\<close>

theorem snapshots_can_deadlock:
  assumes "rows_ok t" "\<forall>n \<in> dom (ToMap m). tab_counters (pg_view t) n = None"
  shows "(\<exists>ord ord' s. map_order (ToMap m) ord \<and> map_order (ToMap m) ord'
      \<and> (tx_step (\<lambda>i. snapshot_batch (if i = 0 then ord else ord') [] m d))\<^sup>*\<^sup>* (lock_start t) s
      \<and> deadlocked s \<and> dom (open_txs s) = {0, 1})
    \<and> \<not> isConnectionError (WrapError w (PgError ''40P01'' msg))"
proof
  have k: "''Alloc'' \<in> dom (ToMap m)" "''Frees'' \<in> dom (ToMap m)" "''Alloc'' \<noteq> ''Frees''"
    by (simp_all add: ToMap_def dom_add_cpu metric_fields_def)
  obtain ord ms u v where 1: "map_order (ToMap m) ord"
    "snapshot_batch ord [] m d = gauge_metric ''Alloc'' u # gauge_metric ''Frees'' v # ms"
    using snapshot_starts [OF k] by blast
  obtain ord' ms' u' v' where 2: "map_order (ToMap m) ord'"
    "snapshot_batch ord' [] m d = gauge_metric ''Frees'' v' # gauge_metric ''Alloc'' u' # ms'"
    using snapshot_starts [OF k(2,1) k(3) [symmetric]] by blast
  have "\<exists>s. (tx_step (\<lambda>i. snapshot_batch (if i = 0 then ord else ord') [] m d))\<^sup>*\<^sup>* (lock_start t) s
      \<and> deadlocked s \<and> dom (open_txs s) = {0, 1}"
    by (rule crossed_deadlock [OF _ refl _ refl k(3) assms(1)]) (use 1 2 assms(2) k in simp_all)
  with 1(1) 2(1) show "\<exists>ord ord' s. map_order (ToMap m) ord \<and> map_order (ToMap m) ord'
      \<and> (tx_step (\<lambda>i. snapshot_batch (if i = 0 then ord else ord') [] m d))\<^sup>*\<^sup>* (lock_start t) s
      \<and> deadlocked s \<and> dom (open_txs s) = {0, 1}" by blast
  show "\<not> isConnectionError (WrapError w (PgError ''40P01'' msg))"
    by (simp add: isConnectionError_def connection_codes_def)
qed

theorem snapshots_can_deadlock_witness:
  "\<exists>ord ord' s. (tx_step (\<lambda>i. snapshot_batch (if i = 0 then ord else ord') [] zero_MemoryMetrics 3))\<^sup>*\<^sup>* (lock_start Map.empty) s
     \<and> deadlocked s"
proof -
  have "\<forall>n \<in> dom (ToMap zero_MemoryMetrics). tab_counters (pg_view Map.empty) n = None" by (simp add: pg_view_def)
  from snapshots_can_deadlock [OF rows_ok_empty this, of 3] show ?thesis by blast
qed

end
