(* ===== verification/ResetGen.thy ===== *)
theory ResetGen
  imports Json
begin

text \<open>
  The generator of \<open>Reset\<close> methods (\<open>cmd/reset\<close>): from the syntax tree of a Go file, which
  \<open>go/parser\<close> gives, to the text of \<open>reset.gen.go\<close>, before \<open>gofmt\<close>. The types of fields pass
  through the generator as text, and its decisions are tests on that text; the theorems compare
  them with a plan that is read off the type itself, and say what running the plan does.
\<close>

section \<open>The syntax tree\<close>

text \<open>What the generator looks at. \<open>ArrayType\<close> only says whether there is a length; every expression
  that \<open>exprToString\<close> does not know is \<open>OtherExpr\<close>.\<close>

datatype expr =
    Ident bytes
  | StarExpr expr
  | ArrayType bool expr
  | MapType expr expr
  | SelectorExpr expr bytes
  | InterfaceType
  | StructType "field_decl list option"
  | OtherExpr
and field_decl = FieldDecl "bytes list" expr "bytes option"

datatype spec = TypeSpec bytes expr | OtherSpec

datatype decl = GenDecl "bytes list option" "spec list" | OtherDecl

record go_file =
  pkg_name :: bytes
  file_imports :: "(bytes option \<times> bytes) list"
  file_decls :: "decl list"

section \<open>model.go\<close>

record importInfo =
  imp_name :: bytes
  imp_path :: bytes

record fieldInfo =
  fi_name :: bytes
  fi_typ :: bytes
  fi_tag :: bytes

record structInfo =
  si_name :: bytes
  si_fields :: "fieldInfo list"

record packageInfo =
  pi_name :: bytes
  pi_structs :: "structInfo list"
  pi_imports :: "importInfo list"

type_synonym packages = "bytes \<rightharpoonup> packageInfo"

section \<open>Strings\<close>

definition tab :: bytes where
  "tab = [CHR 0x09]"

definition quote :: bytes where
  "quote = [CHR 0x22]"

definition trim_prefix :: "bytes \<Rightarrow> bytes \<Rightarrow> bytes" where
  "trim_prefix p s = (if prefix p s then drop (length p) s else s)"

text \<open>\<open>strings.Trim(s, "\"")\<close>.\<close>

definition trim_quotes :: "bytes \<Rightarrow> bytes" where
  "trim_quotes s = rev (dropWhile (\<lambda>c. c = CHR 0x22) (rev (dropWhile (\<lambda>c. c = CHR 0x22) s)))"

text \<open>\<open>strings.Split\<close> at one character, and \<open>strings.Join\<close>.\<close>

fun split_on :: "char \<Rightarrow> bytes \<Rightarrow> bytes list" where
  "split_on d [] = [[]]"
| "split_on d (c # cs) =
     (if c = d then [] # split_on d cs
      else (case split_on d cs of [] \<Rightarrow> [[c]] | p # ps \<Rightarrow> (c # p) # ps))"

fun join_with :: "bytes \<Rightarrow> bytes list \<Rightarrow> bytes" where
  "join_with sep [] = []"
| "join_with sep [x] = x"
| "join_with sep (x # xs) = x @ sep @ join_with sep xs"

text \<open>\<open>strings.Index(s, "]")\<close>, if there is one.\<close>

fun index_of :: "char \<Rightarrow> bytes \<Rightarrow> nat option" where
  "index_of d [] = None"
| "index_of d (c # cs) = (if c = d then Some 0 else map_option Suc (index_of d cs))"

text \<open>\<open>filepath.Dir\<close> and \<open>filepath.Join\<close> on the clean relative paths that \<open>filepath.Walk\<close> visits.\<close>

definition path_dir :: "bytes \<Rightarrow> bytes" where
  "path_dir p = (let ps = split_on CHR ''/'' p in if length ps \<le> 1 then ''.'' else join_with ''/'' (butlast ps))"

definition path_join :: "bytes \<Rightarrow> bytes \<Rightarrow> bytes" where
  "path_join dir name = (if dir = [] \<or> dir = ''.'' then name else dir @ ''/'' @ name)"

section \<open>Reading a file\<close>

fun exprToString :: "expr \<Rightarrow> bytes" where
  "exprToString (Ident n) = n"
| "exprToString (StarExpr e) = ''*'' @ exprToString e"
| "exprToString (ArrayType has_len e) = (if \<not> has_len then ''[]'' else ''[...]'') @ exprToString e"
| "exprToString (MapType k v) = ''map['' @ exprToString k @ '']'' @ exprToString v"
| "exprToString (SelectorExpr e n) = exprToString e @ ''.'' @ n"
| "exprToString InterfaceType = ''interface{}''"
| "exprToString (StructType fs) = ''struct{}''"
| "exprToString OtherExpr = []"

definition has_reset_comment :: "bytes list option \<Rightarrow> bool" where
  "has_reset_comment doc = (case doc of None \<Rightarrow> False | Some cs \<Rightarrow> list_ex (\<lambda>c. contains c ''generate:reset'') cs)"

text \<open>A declaration of several fields counts for its first name only; embedded fields are skipped.\<close>

fun field_info :: "field_decl \<Rightarrow> fieldInfo option" where
  "field_info (FieldDecl [] ty tg) = None"
| "field_info (FieldDecl (n # ns) ty tg) =
     Some \<lparr>fi_name = n, fi_typ = exprToString ty, fi_tag = (case tg of None \<Rightarrow> [] | Some t \<Rightarrow> t)\<rparr>"

fun struct_info :: "spec \<Rightarrow> structInfo option" where
  "struct_info (TypeSpec n (StructType fs)) =
     Some \<lparr>si_name = n, si_fields = (case fs of None \<Rightarrow> [] | Some l \<Rightarrow> List.map_filter field_info l)\<rparr>"
| "struct_info _ = None"

fun decl_structs :: "decl \<Rightarrow> structInfo list" where
  "decl_structs OtherDecl = []"
| "decl_structs (GenDecl doc specs) =
     (if has_reset_comment doc then List.map_filter struct_info specs else [])"

definition import_info :: "bytes option \<times> bytes \<Rightarrow> importInfo" where
  "import_info imp =
     \<lparr>imp_name = (case fst imp of None \<Rightarrow> [] | Some n \<Rightarrow> n), imp_path = trim_quotes (snd imp)\<rparr>"

text \<open>A file that does not parse is skipped.\<close>

definition processFile :: "(bytes \<Rightarrow> goerr + go_file) \<Rightarrow> bytes \<Rightarrow> packages \<Rightarrow> packages" where
  "processFile parse filePath pkgs =
     (case parse filePath of
        Inl err \<Rightarrow> pkgs
      | Inr node \<Rightarrow>
          (let pkgDir = trim_prefix ''./'' (path_dir filePath);
               info = (case pkgs pkgDir of
                         Some p \<Rightarrow> p
                       | None \<Rightarrow> \<lparr>pi_name = pkg_name node, pi_structs = [], pi_imports = []\<rparr>)
           in pkgs(pkgDir \<mapsto>
                info\<lparr>pi_imports := pi_imports info @ map import_info (file_imports node),
                     pi_structs := pi_structs info @ concat (map decl_structs (file_decls node))\<rparr>)))"

section \<open>The decisions\<close>

definition isPrimitiveType :: "bytes \<Rightarrow> bool" where
  "isPrimitiveType typ \<longleftrightarrow> typ \<in> set
     [''bool'', ''string'', ''int'', ''int8'', ''int16'', ''int32'', ''int64'',
      ''uint'', ''uint8'', ''uint16'', ''uint32'', ''uint64'', ''uintptr'',
      ''float32'', ''float64'', ''complex64'', ''complex128'', ''byte'', ''rune'']"

definition getZeroValue :: "bytes \<Rightarrow> bytes" where
  "getZeroValue typ =
     (if typ = ''bool'' then ''false''
      else if typ = ''string'' then quote @ quote
      else if typ \<in> set
        [''int'', ''int8'', ''int16'', ''int32'', ''int64'',
         ''uint'', ''uint8'', ''uint16'', ''uint32'', ''uint64'', ''uintptr'',
         ''float32'', ''float64'', ''complex64'', ''complex128'', ''byte'', ''rune'']
      then ''0'' else ''nil'')"

definition isBuiltinType :: "bytes \<Rightarrow> bool" where
  "isBuiltinType typ = contains typ ''time.Time''"

definition isStructType :: "bytes \<Rightarrow> structInfo list \<Rightarrow> bool" where
  "isStructType typ allStructs = list_ex (\<lambda>s. si_name s = typ) allStructs"

definition shouldCallReset :: "bytes \<Rightarrow> structInfo list \<Rightarrow> bool" where
  "shouldCallReset typ allStructs = (let baseTyp = trim_prefix ''*'' typ in list_ex (\<lambda>s. si_name s = baseTyp) allStructs)"

text \<open>\<open>if f != nil {\<close>, a line, \<open>}\<close>.\<close>

definition guarded :: "bytes \<Rightarrow> bytes \<Rightarrow> bytes" where
  "guarded fieldAccess line = ''if '' @ fieldAccess @ '' != nil {'' @ nl @ tab @ line @ nl @ ''}''"

definition generateBuiltinReset :: "bytes \<Rightarrow> bytes \<Rightarrow> bytes" where
  "generateBuiltinReset fieldAccess typ =
     (if typ = ''time.Time'' then fieldAccess @ '' = time.Time{}''
      else if prefix ''*'' typ \<and> contains typ ''time.Time''
      then guarded fieldAccess (''*'' @ fieldAccess @ '' = time.Time{}'')
      else [])"

definition generateFieldReset :: "fieldInfo \<Rightarrow> structInfo list \<Rightarrow> bytes" where
  "generateFieldReset field allStructs =
     (let fieldAccess = ''x.'' @ fi_name field; typ = fi_typ field; baseType = drop 1 typ in
      if isBuiltinType typ then generateBuiltinReset fieldAccess typ
      else if shouldCallReset typ allStructs \<and> prefix ''*'' typ \<and> isStructType baseType allStructs
        then guarded fieldAccess (fieldAccess @ ''.Reset()'')
      else if shouldCallReset typ allStructs \<and> \<not> prefix ''*'' typ then fieldAccess @ ''.Reset()''
      else if prefix ''[]'' typ then fieldAccess @ '' = '' @ fieldAccess @ ''[:0]''
      else if prefix ''map'' typ then ''clear('' @ fieldAccess @ '')''
      else if prefix ''*'' typ then
        (if isPrimitiveType baseType
         then guarded fieldAccess (''*'' @ fieldAccess @ '' = '' @ getZeroValue baseType)
         else if prefix ''[]'' baseType
         then guarded fieldAccess (''*'' @ fieldAccess @ '' = (*'' @ fieldAccess @ '')[:0]'')
         else if prefix ''map'' baseType then guarded fieldAccess (''clear(*'' @ fieldAccess @ '')'')
         else [])
      else if isPrimitiveType typ then fieldAccess @ '' = '' @ getZeroValue typ
      else [])"

definition indentCode :: "bytes \<Rightarrow> bytes \<Rightarrow> bytes" where
  "indentCode code indent =
     (if code = [] then [] else join_with nl (map (\<lambda>line. indent @ line) (split_on CHR 0x0A code)))"

fun reset_lines :: "structInfo list \<Rightarrow> fieldInfo list \<Rightarrow> bytes list" where
  "reset_lines allStructs [] = []"
| "reset_lines allStructs (field # fs) =
     (if fi_name field = [] then reset_lines allStructs fs
      else (let code = generateFieldReset field allStructs in
            if code \<noteq> [] then indentCode code tab # reset_lines allStructs fs
            else reset_lines allStructs fs))"

definition generateStructResetBody :: "structInfo \<Rightarrow> structInfo list \<Rightarrow> bytes" where
  "generateStructResetBody s allStructs = join_with nl (reset_lines allStructs (si_fields s))"

section \<open>Imports\<close>

definition getPackageName :: "bytes \<Rightarrow> bytes" where
  "getPackageName importPath = last (split_on CHR ''/'' importPath)"

text \<open>The package that a type mentions, if its text has a dot that is not the first character.\<close>

definition selected_package :: "bytes \<Rightarrow> bytes option" where
  "selected_package typ =
     (if contains typ ''.'' \<and> \<not> prefix ''.'' typ \<and> length (split_on CHR ''.'' typ) > 1 then
        (let base1 = trim_prefix ''[]'' (trim_prefix ''*'' (hd (split_on CHR ''.'' typ))) in
         Some (if prefix ''map['' base1 then
                 (case index_of CHR '']'' base1 of
                    Some idx \<Rightarrow> if idx > 0 then drop (idx + 1) base1 else base1
                  | None \<Rightarrow> base1)
               else base1))
      else None)"

definition import_matches :: "bytes \<Rightarrow> importInfo \<Rightarrow> bool" where
  "import_matches baseType imp \<longleftrightarrow>
     getPackageName (imp_path imp) = baseType \<or> imp_name imp \<noteq> [] \<and> imp_name imp = baseType"

definition needed_for :: "importInfo list \<Rightarrow> bytes \<Rightarrow> (bytes \<rightharpoonup> importInfo) \<Rightarrow> bytes \<rightharpoonup> importInfo" where
  "needed_for imps typ needed =
     (case selected_package typ of
        None \<Rightarrow> needed
      | Some baseType \<Rightarrow>
          fold (\<lambda>imp m. if import_matches baseType imp then m(imp_path imp \<mapsto> imp) else m) imps needed)"

text \<open>\<open>tord\<close> and \<open>pord\<close> are the orders in which Go iterates over the set of types and over the result.\<close>

definition collectNeededImports :: "bytes list \<Rightarrow> bytes list \<Rightarrow> packageInfo \<Rightarrow> importInfo list" where
  "collectNeededImports tord pord info =
     (let allTypes = map_of (map (\<lambda>f. (fi_typ f, True)) (concat (map si_fields (pi_structs info))));
          neededImports = fold (\<lambda>(typ, b). needed_for (pi_imports info) typ) (map_range allTypes tord) Map.empty
      in map snd (map_range neededImports pord))"

section \<open>The file\<close>

record tmplStruct =
  ts_Name :: bytes
  ts_Body :: bytes

record tmplData =
  PackageName :: bytes
  Imports :: "importInfo list"
  Structs :: "tmplStruct list"

text \<open>\<open>resetTemplate\<close> as the template engine runs it: a dash trims the white space on its side of the
  action, line breaks included.\<close>

definition import_spec :: "importInfo \<Rightarrow> bytes" where
  "import_spec imp = (if imp_name imp \<noteq> [] then imp_name imp @ '' '' else []) @ quote @ imp_path imp @ quote"

definition resetTemplate :: "tmplData \<Rightarrow> bytes" where
  "resetTemplate data =
     ''// Code generated by reset generator. DO NOT EDIT.'' @ nl
     @ ''//go:generate go run ./cmd/reset/main.go'' @ nl @ nl
     @ ''package '' @ PackageName data
     @ (if Imports data \<noteq> [] then nl @ ''import ('' @ concat (map import_spec (Imports data)) @ nl @ '')'' else [])
     @ concat (map (\<lambda>s. nl @ ''func (x *'' @ ts_Name s @ '') Reset() {'' @ nl @ ts_Body s @ nl @ ''}'') (Structs data))
     @ nl"

datatype gen_error = FormatError goerr bytes | WriteError goerr

definition reset_source :: "bytes list \<Rightarrow> bytes list \<Rightarrow> packageInfo \<Rightarrow> bytes" where
  "reset_source tord pord info =
     resetTemplate
       \<lparr>PackageName = pi_name info, Imports = collectNeededImports tord pord info,
        Structs = map (\<lambda>s. \<lparr>ts_Name = si_name s, ts_Body = generateStructResetBody s (pi_structs info)\<rparr>) (pi_structs info)\<rparr>"

definition generateResetFile :: "(bytes \<Rightarrow> goerr + bytes) \<Rightarrow> bytes list \<Rightarrow> bytes list \<Rightarrow> bytes \<Rightarrow> packageInfo \<Rightarrow> filesystem
    \<Rightarrow> gen_error option \<times> filesystem" where
  "generateResetFile gofmt tord pord pkgPath info fs =
     (let source = reset_source tord pord info in
      case gofmt source of
        Inl err \<Rightarrow> (Some (FormatError err source), fs)
      | Inr formatted \<Rightarrow>
          (case os_WriteFile (path_join pkgPath ''reset.gen.go'') formatted fs of
             (Some err, fs') \<Rightarrow> (Some (WriteError err), fs')
           | (None, fs') \<Rightarrow> (None, fs')))"

section \<open>main\<close>

text \<open>The tree below the root directory, as \<open>filepath.Walk\<close> visits it.\<close>

datatype node = Dir bytes "node list" | File bytes

definition skipped_dir :: "bytes \<Rightarrow> bool" where
  "skipped_dir name \<longleftrightarrow> name \<noteq> ''.'' \<and> name \<noteq> ''..'' \<and> prefix ''.'' name \<or> name = ''vendor''"

definition go_source :: "bytes \<Rightarrow> bool" where
  "go_source name \<longleftrightarrow> suffix ''.go'' name \<and> \<not> suffix ''.gen.go'' name"

fun walk :: "bytes \<Rightarrow> node \<Rightarrow> bytes list" where
  "walk path (File name) = (if go_source name then [path] else [])"
| "walk path (Dir name children) =
     (if skipped_dir name then []
      else concat (map (\<lambda>c. walk (path_join path (case c of Dir n l \<Rightarrow> n | File n \<Rightarrow> n)) c) children))"

definition scan :: "(bytes \<Rightarrow> goerr + go_file) \<Rightarrow> bytes \<Rightarrow> node \<Rightarrow> packages" where
  "scan parse rootDir root = fold (processFile parse) (walk rootDir root) Map.empty"

text \<open>The second half: a file for every package with structs; an error is printed and the loop goes on.
  The result counts the files, and \<open>orders\<close> chooses the iteration orders for each package.\<close>

fun generate_all :: "(bytes \<Rightarrow> goerr + bytes) \<Rightarrow> (bytes \<Rightarrow> bytes list \<times> bytes list) \<Rightarrow> (bytes \<times> packageInfo) list
    \<Rightarrow> nat \<times> filesystem \<Rightarrow> nat \<times> filesystem" where
  "generate_all gofmt orders [] s = s"
| "generate_all gofmt orders ((pkgPath, info) # rest) s =
     (if pi_structs info \<noteq> [] then
        (case generateResetFile gofmt (fst (orders pkgPath)) (snd (orders pkgPath)) pkgPath info (snd s) of
           (Some err, fs') \<Rightarrow> generate_all gofmt orders rest (fst s, fs')
         | (None, fs') \<Rightarrow> generate_all gofmt orders rest (fst s + 1, fs'))
      else generate_all gofmt orders rest s)"

definition reset_main :: "(bytes \<Rightarrow> goerr + go_file) \<Rightarrow> (bytes \<Rightarrow> goerr + bytes) \<Rightarrow> (bytes \<Rightarrow> bytes list \<times> bytes list)
    \<Rightarrow> bytes list \<Rightarrow> bytes \<Rightarrow> node \<Rightarrow> filesystem \<Rightarrow> nat \<times> filesystem" where
  "reset_main parse gofmt orders pkgord rootDir root fs =
     generate_all gofmt orders (map_range (scan parse rootDir root) pkgord) (0, fs)"

section \<open>The plan\<close>

text \<open>What the statements of a generated method do, read off the type of a field.\<close>

datatype reset_stmt =
    Nothing | AssignZero bytes | AssignTime | Truncate | ClearMap | CallReset | IfNonNil reset_stmt

fun simple_plan :: "bytes set \<Rightarrow> expr \<Rightarrow> reset_stmt" where
  "simple_plan structs (Ident n) =
     (if n \<in> structs then CallReset else if isPrimitiveType n then AssignZero (getZeroValue n) else Nothing)"
| "simple_plan structs (ArrayType has_len e) = (if has_len then Nothing else Truncate)"
| "simple_plan structs (MapType k v) = ClearMap"
| "simple_plan structs (SelectorExpr e n) = (if e = Ident ''time'' \<and> n = ''Time'' then AssignTime else Nothing)"
| "simple_plan structs _ = Nothing"

fun plan_of :: "bytes set \<Rightarrow> expr \<Rightarrow> reset_stmt" where
  "plan_of structs (StarExpr e) = (case simple_plan structs e of Nothing \<Rightarrow> Nothing | st \<Rightarrow> IfNonNil st)"
| "plan_of structs e = simple_plan structs e"

text \<open>The text of a statement: \<open>ptr\<close> says that it works on what the field points to.\<close>

fun emit :: "bool \<Rightarrow> bytes \<Rightarrow> reset_stmt \<Rightarrow> bytes" where
  "emit ptr a Nothing = []"
| "emit ptr a (AssignZero z) = (if ptr then ''*'' else []) @ a @ '' = '' @ z"
| "emit ptr a AssignTime = (if ptr then ''*'' else []) @ a @ '' = time.Time{}''"
| "emit ptr a Truncate = (if ptr then ''*'' @ a @ '' = (*'' @ a @ '')[:0]'' else a @ '' = '' @ a @ ''[:0]'')"
| "emit ptr a ClearMap = ''clear('' @ (if ptr then ''*'' else []) @ a @ '')''"
| "emit ptr a CallReset = a @ ''.Reset()''"
| "emit ptr a (IfNonNil st) = guarded a (emit True a st)"

text \<open>The types for which the tests on text see what they mean to see: names are identifiers, a name
  does not begin with \<open>map\<close>, and \<open>time.Time\<close> stands alone or under one star.\<close>

definition ident_char :: "char \<Rightarrow> bool" where
  "ident_char c \<longleftrightarrow> c \<notin> {CHR ''*'', CHR ''['', CHR '']'', CHR ''.'', CHR ''{''}"

definition ident :: "bytes \<Rightarrow> bool" where
  "ident n \<longleftrightarrow> n \<noteq> [] \<and> list_all ident_char n \<and> \<not> prefix ''map'' n"

fun simple_type :: "expr \<Rightarrow> bool" where
  "simple_type (Ident n) = ident n"
| "simple_type (ArrayType has_len e) = (\<not> contains (exprToString e) ''time.Time'')"
| "simple_type (MapType k v) = (\<not> contains (exprToString (MapType k v)) ''time.Time'')"
| "simple_type (SelectorExpr e n) =
     (\<exists>p. e = Ident p \<and> ident p \<and> ident n
        \<and> (p = ''time'' \<and> n = ''Time'' \<or> \<not> contains (exprToString (SelectorExpr e n)) ''time.Time''))"
| "simple_type InterfaceType = True"
| "simple_type (StructType fs) = True"
| "simple_type OtherExpr = True"
| "simple_type (StarExpr e) = (\<not> contains (exprToString e) ''time.Time'')"

fun plain_type :: "expr \<Rightarrow> bool" where
  "plain_type (StarExpr e) = simple_type e"
| "plain_type e = simple_type e"

section \<open>The text follows the plan\<close>

lemma identD:
  assumes "ident n"
  shows "n \<noteq> []" "\<not> prefix ''*'' n" "\<not> prefix ''[]'' n" "\<not> prefix ''map'' n" "CHR ''.'' \<notin> set n"
  using assms by (cases n; auto simp: ident_def ident_char_def list_all_iff)+

lemma contains_in_set: "contains s sub \<Longrightarrow> set sub \<subseteq> set s"
  by (auto simp: contains_sublist sublist_def)

lemma no_dot_no_time: "CHR ''.'' \<notin> set n \<Longrightarrow> \<not> contains n ''time.Time''"
  using contains_in_set [of n "''time.Time''"] by auto

lemma contains_time_Cons: "c \<noteq> CHR ''t'' \<Longrightarrow> contains (c # s) ''time.Time'' = contains s ''time.Time''"
  by simp

lemma ident_not_time: "ident n \<Longrightarrow> \<not> contains n ''time.Time''"
  by (simp add: identD(5) no_dot_no_time)

lemma primitive_ident: "isPrimitiveType t \<Longrightarrow> ident t"
  by (auto simp: isPrimitiveType_def ident_def ident_char_def)

definition struct_names :: "structInfo list \<Rightarrow> bytes set" where
  "struct_names ss = si_name ` set ss"

lemma isStructType_names: "isStructType t ss \<longleftrightarrow> t \<in> struct_names ss"
  by (auto simp: isStructType_def struct_names_def list_ex_iff)

lemma shouldCallReset_names: "shouldCallReset t ss \<longleftrightarrow> trim_prefix ''*'' t \<in> struct_names ss"
  by (simp add: shouldCallReset_def isStructType_names [symmetric] isStructType_def)

lemma trim_star: "\<not> prefix ''*'' s \<Longrightarrow> trim_prefix ''*'' s = s" "trim_prefix ''*'' (CHR ''*'' # s) = s"
  by (simp_all add: trim_prefix_def)

lemma map_dot: "ident p \<Longrightarrow> \<not> prefix ''map'' (p @ CHR ''.'' # n)"
proof
  assume p: "ident p" and "prefix ''map'' (p @ CHR ''.'' # n)"
  then obtain r where "p @ CHR ''.'' # n = ''map'' @ r" by (auto simp: prefix_def)
  then have "prefix ''map'' p" by (auto simp: append_eq_Cons_conv)
  with p show False by (simp add: identD)
qed

lemma dotted_eq:
  assumes "ident p" "ident q"
  shows "p @ CHR ''.'' # n = q @ CHR ''.'' # m \<longleftrightarrow> p = q \<and> n = m"
proof
  assume eq: "p @ CHR ''.'' # n = q @ CHR ''.'' # m"
  have "takeWhile (\<lambda>c. c \<noteq> CHR ''.'') (r @ CHR ''.'' # k) = r" if "ident r" for r k
    using identD(5) [OF that] by (subst takeWhile_append2) auto
  with assms eq have "p = q" by metis
  with eq show "p = q \<and> n = m" by simp
qed simp

lemma ident_time: "ident ''time''" "ident ''Time''"
  by (simp_all add: ident_def ident_char_def)

lemma dotted_not_ident: "\<not> ident (p @ CHR ''.'' # n)"
  by (simp add: ident_def ident_char_def)

lemma dotted_star: "ident p \<Longrightarrow> \<not> prefix ''*'' (p @ CHR ''.'' # n) \<and> \<not> prefix ''[]'' (p @ CHR ''.'' # n)"
  by (cases p) (auto simp: ident_def ident_char_def)

text \<open>A simple type as text: which of the tests succeed.\<close>

definition is_time :: "expr \<Rightarrow> bool" where
  "is_time e \<longleftrightarrow> e = SelectorExpr (Ident ''time'') ''Time''"

lemma text_Ident:
  assumes "ident n"
  shows "\<not> contains n ''time.Time''" "n \<noteq> ''time.Time''" "\<not> prefix ''[]'' n" "\<not> prefix ''map'' n" "\<not> prefix ''*'' n"
  using assms identD [OF assms] ident_not_time [of n] by (auto simp: dotted_not_ident)

lemma not_ident_text:
  assumes "CHR ''['' \<in> set t \<or> CHR ''*'' \<in> set t \<or> CHR ''.'' \<in> set t \<or> CHR ''{'' \<in> set t \<or> t = []" "\<forall>n \<in> structs. ident n"
  shows "t \<notin> structs" "\<not> isPrimitiveType t"
proof -
  have "\<not> ident t" using assms(1) by (auto simp: ident_def ident_char_def list_all_iff)
  with assms(2) primitive_ident show "t \<notin> structs" "\<not> isPrimitiveType t" by blast+
qed

lemma simple_text:
  assumes "simple_type e" "\<forall>n \<in> structs. ident n"
  shows "contains (exprToString e) ''time.Time'' \<longleftrightarrow> is_time e"
    and "exprToString e = ''time.Time'' \<longleftrightarrow> is_time e"
    and "exprToString e \<in> structs \<longleftrightarrow> (\<exists>n \<in> structs. e = Ident n)"
    and "isPrimitiveType (exprToString e) \<longleftrightarrow> (\<exists>n. e = Ident n \<and> isPrimitiveType n)"
    and "prefix ''[]'' (exprToString e) \<longleftrightarrow> (\<exists>t. e = ArrayType False t)"
    and "prefix ''map'' (exprToString e) \<longleftrightarrow> (\<exists>k v. e = MapType k v)"
    and "prefix ''*'' (exprToString e) \<longleftrightarrow> (\<exists>t. e = StarExpr t)"
proof -
  consider (id) n where "e = Ident n" "ident n" | (sel) p n where "e = SelectorExpr (Ident p) n" "ident p" "ident n"
    | (other) "\<forall>n. e \<noteq> Ident n" "\<forall>x n. e \<noteq> SelectorExpr x n"
    using assms(1) by (cases e) auto
  then have "(contains (exprToString e) ''time.Time'' \<longleftrightarrow> is_time e)
    \<and> (exprToString e = ''time.Time'' \<longleftrightarrow> is_time e)
    \<and> (exprToString e \<in> structs \<longleftrightarrow> (\<exists>n \<in> structs. e = Ident n))
    \<and> (isPrimitiveType (exprToString e) \<longleftrightarrow> (\<exists>n. e = Ident n \<and> isPrimitiveType n))
    \<and> (prefix ''[]'' (exprToString e) \<longleftrightarrow> (\<exists>t. e = ArrayType False t))
    \<and> (prefix ''map'' (exprToString e) \<longleftrightarrow> (\<exists>k v. e = MapType k v))
    \<and> (prefix ''*'' (exprToString e) \<longleftrightarrow> (\<exists>t. e = StarExpr t))"
  proof cases
    case id
    with text_Ident [of n] show ?thesis by (simp add: is_time_def)
  next
    case sel
    have t: "exprToString e = p @ CHR ''.'' # n" using sel by simp
    have time: "p @ CHR ''.'' # n = ''time.Time'' \<longleftrightarrow> is_time e"
      using dotted_eq [OF sel(2) ident_time(1), of n "''Time''"] sel by (simp add: is_time_def)
    have "contains (p @ CHR ''.'' # n) ''time.Time'' \<longleftrightarrow> is_time e"
      using assms(1) sel time by (auto simp: is_time_def)
    with time t show ?thesis
      using sel not_ident_text [of "p @ CHR ''.'' # n", OF _ assms(2)] map_dot [OF sel(2), of n] dotted_star [OF sel(2), of n]
      by simp
  next
    case other
    then have it: "\<not> is_time e" by (auto simp: is_time_def)
    have "\<not> contains (exprToString e) ''time.Time''" using assms(1) other by (cases e) auto
    moreover from this have "exprToString e \<noteq> ''time.Time''" using contains_self by metis
    moreover have "exprToString e \<notin> structs \<and> \<not> isPrimitiveType (exprToString e)"
      using not_ident_text [of "exprToString e", OF _ assms(2)] other by (cases e) auto
    ultimately show ?thesis using it other by (cases e) auto
  qed
  then show "contains (exprToString e) ''time.Time'' \<longleftrightarrow> is_time e"
    and "exprToString e = ''time.Time'' \<longleftrightarrow> is_time e"
    and "exprToString e \<in> structs \<longleftrightarrow> (\<exists>n \<in> structs. e = Ident n)"
    and "isPrimitiveType (exprToString e) \<longleftrightarrow> (\<exists>n. e = Ident n \<and> isPrimitiveType n)"
    and "prefix ''[]'' (exprToString e) \<longleftrightarrow> (\<exists>t. e = ArrayType False t)"
    and "prefix ''map'' (exprToString e) \<longleftrightarrow> (\<exists>k v. e = MapType k v)"
    and "prefix ''*'' (exprToString e) \<longleftrightarrow> (\<exists>t. e = StarExpr t)"
    by blast+
qed

lemma generateFieldReset_plan:
  assumes "plain_type ty" "\<forall>s \<in> set ss. ident (si_name s)"
  shows "generateFieldReset \<lparr>fi_name = n, fi_typ = exprToString ty, fi_tag = tg\<rparr> ss =
    emit False (''x.'' @ n) (plan_of (struct_names ss) ty)"
proof -
  have names: "\<forall>n \<in> struct_names ss. ident n" using assms(2) by (auto simp: struct_names_def)
  note defs = generateFieldReset_def isBuiltinType_def generateBuiltinReset_def shouldCallReset_names
    isStructType_names is_time_def
  show ?thesis
  proof (cases "\<exists>e. ty = StarExpr e")
    case True
    then obtain e where e: "ty = StarExpr e" by blast
    with assms(1) have "simple_type e" by simp
    note tests = simple_text [OF this names] trim_star(2) [of "exprToString e"]
    have "simple_type e" using assms(1) e by simp
    then show ?thesis
      using e tests by (cases e) (auto simp: defs Let_def contains_time_Cons)
  next
    case False
    then have "simple_type ty" "plan_of (struct_names ss) ty = simple_plan (struct_names ss) ty"
      using assms(1) by (cases ty; simp)+
    moreover note tests = simple_text [OF this(1) names]
    moreover have "\<not> prefix ''*'' (exprToString ty)" using tests(7) False by simp
    ultimately show ?thesis
      using False trim_star(1) [of "exprToString ty"]
      by (cases ty) (auto simp: defs Let_def)
  qed
qed

section \<open>Running the method\<close>

text \<open>Values as far as \<open>Reset\<close> sees them. \<open>R\<close> is the \<open>Reset\<close> method of the structs that fields have.\<close>

datatype gval =
    GScalar int | GTime int | GSlice "gval list" | GMap "(gval \<times> gval) list" | GPtr "gval option" | GOther bytes

fun exec :: "(gval \<Rightarrow> gval) \<Rightarrow> reset_stmt \<Rightarrow> gval \<Rightarrow> gval" where
  "exec R Nothing v = v"
| "exec R (AssignZero z) v = GScalar 0"
| "exec R AssignTime v = GTime 0"
| "exec R Truncate v = GSlice []"
| "exec R ClearMap v = GMap []"
| "exec R CallReset v = R v"
| "exec R (IfNonNil st) v = (case v of GPtr (Some w) \<Rightarrow> GPtr (Some (exec R st w)) | _ \<Rightarrow> v)"

fun field_plan :: "bytes set \<Rightarrow> field_decl \<Rightarrow> (bytes \<times> reset_stmt) option" where
  "field_plan structs (FieldDecl [] ty tg) = None"
| "field_plan structs (FieldDecl (n # ns) ty tg) =
     (if plan_of structs ty = Nothing then None else Some (n, plan_of structs ty))"

definition method_plan :: "bytes set \<Rightarrow> field_decl list \<Rightarrow> (bytes \<times> reset_stmt) list" where
  "method_plan structs fds = List.map_filter (field_plan structs) fds"

definition run_method :: "(gval \<Rightarrow> gval) \<Rightarrow> (bytes \<times> reset_stmt) list \<Rightarrow> (bytes \<Rightarrow> gval) \<Rightarrow> bytes \<Rightarrow> gval" where
  "run_method R plan x = fold (\<lambda>(n, st) x. x(n := exec R st (x n))) plan x"

text \<open>A value that is as good as new for its type; a pointer may keep pointing to such a value.\<close>

fun cleared :: "(gval \<Rightarrow> bool) \<Rightarrow> bytes set \<Rightarrow> expr \<Rightarrow> gval \<Rightarrow> bool" where
  "cleared S structs (Ident n) v = (if n \<in> structs then S v else isPrimitiveType n \<and> v = GScalar 0)"
| "cleared S structs (ArrayType has_len e) v = (\<not> has_len \<and> v = GSlice [])"
| "cleared S structs (MapType k t) v = (v = GMap [])"
| "cleared S structs (SelectorExpr e n) v = (e = Ident ''time'' \<and> n = ''Time'' \<and> v = GTime 0)"
| "cleared S structs (StarExpr e) v = (case v of GPtr None \<Rightarrow> True | GPtr (Some w) \<Rightarrow> cleared S structs e w | _ \<Rightarrow> False)"
| "cleared S structs _ v = False"

text \<open>The first names, with their types, of the declarations that have a name.\<close>

fun first_name :: "field_decl \<Rightarrow> (bytes \<times> expr) option" where
  "first_name (FieldDecl [] ty tg) = None"
| "first_name (FieldDecl (n # ns) ty tg) = Some (n, ty)"

definition first_names :: "field_decl list \<Rightarrow> (bytes \<times> expr) list" where
  "first_names fds = List.map_filter first_name fds"

lemma field_plan_first:
  "field_plan structs fd =
     (case first_name fd of None \<Rightarrow> None
      | Some (n, ty) \<Rightarrow> if plan_of structs ty = Nothing then None else Some (n, plan_of structs ty))"
  by (cases "(structs, fd)" rule: field_plan.cases) auto

lemma method_plan_Cons:
  "method_plan structs (fd # fds) = (case field_plan structs fd of None \<Rightarrow> [] | Some p \<Rightarrow> [p]) @ method_plan structs fds"
  by (simp add: method_plan_def split: option.split)

lemma first_names_Cons:
  "first_names (fd # fds) = (case first_name fd of None \<Rightarrow> [] | Some p \<Rightarrow> [p]) @ first_names fds"
  by (simp add: first_names_def split: option.split)

lemma run_method_Cons: "run_method R ((n, st) # p) x = run_method R p (x(n := exec R st (x n)))"
  by (simp add: run_method_def)

lemma run_method_other: "n \<notin> fst ` set plan \<Longrightarrow> run_method R plan x n = x n"
  by (induction plan arbitrary: x) (auto simp: run_method_def)

lemma method_plan_names: "fst ` set (method_plan structs fds) \<subseteq> fst ` set (first_names fds)"
proof (induction fds)
  case (Cons fd fds)
  then show ?case
    by (auto simp: method_plan_Cons first_names_Cons field_plan_first split: option.splits if_splits)
qed (simp add: method_plan_def)

lemma run_method_field:
  "distinct (map fst (first_names fds)) \<Longrightarrow> (n, ty) \<in> set (first_names fds) \<Longrightarrow>
     run_method R (method_plan structs fds) x n = exec R (plan_of structs ty) (x n)"
proof (induction fds arbitrary: x)
  case (Cons fd fds)
  show ?case
  proof (cases "first_name fd")
    case None
    with Cons show ?thesis by (simp add: method_plan_Cons first_names_Cons field_plan_first)
  next
    case (Some p)
    obtain m t where p: "p = (m, t)" by fastforce
    with Some Cons.prems(1) have m: "m \<notin> fst ` set (first_names fds)" and d: "distinct (map fst (first_names fds))"
      by (auto simp: first_names_Cons)
    let ?x = "if plan_of structs t = Nothing then x else x(m := exec R (plan_of structs t) (x m))"
    have run: "run_method R (method_plan structs (fd # fds)) x = run_method R (method_plan structs fds) ?x"
      using Some p by (simp add: method_plan_Cons field_plan_first run_method_Cons)
    show ?thesis
    proof (cases "(n, ty) = (m, t)")
      case True
      with m method_plan_names [of structs fds] have "n \<notin> fst ` set (method_plan structs fds)" by auto
      with True show ?thesis by (simp add: run run_method_other)
    next
      case False
      with Cons.prems(2) Some p have n: "(n, ty) \<in> set (first_names fds)" by (auto simp: first_names_Cons)
      with m have "n \<noteq> m" by force
      with Cons.IH [OF d n, of ?x] show ?thesis by (simp add: run)
    qed
  qed
qed (simp add: first_names_def)

lemma exec_plan_clears:
  assumes "plan_of structs ty \<noteq> Nothing" "\<And>e. ty = StarExpr e \<Longrightarrow> \<exists>p. v = GPtr p" "\<And>w. S (R w)"
  shows "cleared S structs ty (exec R (plan_of structs ty) v)"
proof (cases ty)
  case (StarExpr e)
  with assms(2) obtain p where "v = GPtr p" by blast
  with assms(1,3) StarExpr show ?thesis
    by (cases e; cases p) (auto split: if_splits)
qed (use assms(1,3) in \<open>auto split: if_splits\<close>)

lemma emit_nonempty: "a \<noteq> [] \<Longrightarrow> st \<noteq> Nothing \<Longrightarrow> emit ptr a st \<noteq> []"
  by (cases st) (simp_all add: guarded_def)

lemma reset_lines_plan:
  assumes "\<forall>s \<in> set ss. ident (si_name s)" "\<forall>(n, ty) \<in> set (first_names fds). ident n \<and> plain_type ty"
  shows "reset_lines ss (List.map_filter field_info fds) =
    map (\<lambda>(n, st). indentCode (emit False (''x.'' @ n) st) tab) (method_plan (struct_names ss) fds)"
  using assms(2)
proof (induction fds)
  case (Cons fd fds)
  show ?case
  proof (cases fd)
    case (FieldDecl ns ty tg)
    show ?thesis
    proof (cases ns)
      case Nil
      with Cons FieldDecl show ?thesis by (simp add: method_plan_Cons first_names_Cons)
    next
      case (Cons n ns')
      with Cons.prems FieldDecl have n: "ident n" "plain_type ty" by (auto simp: first_names_Cons)
      note text_of = generateFieldReset_plan [OF n(2) assms(1)]
      have "emit False (''x.'' @ n) (plan_of (struct_names ss) ty) = [] \<longleftrightarrow> plan_of (struct_names ss) ty = Nothing"
        using emit_nonempty [of "''x.'' @ n"] by auto
      with Cons FieldDecl Cons.IH Cons.prems identD(1) [OF n(1)] show ?thesis
        by (simp add: method_plan_Cons first_names_Cons text_of Let_def)
    qed
  qed
qed (simp add: method_plan_def)


text \<open>The struct \<open>Metrics\<close> of the model package, which carries the comment.\<close>

definition metrics_fields :: "field_decl list" where
  "metrics_fields =
     [FieldDecl [''ID''] (Ident ''string'') None, FieldDecl [''MType''] (Ident ''string'') None,
      FieldDecl [''Delta''] (StarExpr (Ident ''int64'')) None, FieldDecl [''Value''] (StarExpr (Ident ''float64'')) None,
      FieldDecl [''Hash''] (Ident ''string'') None]"

definition metrics_struct :: structInfo where
  "metrics_struct = the (struct_info (TypeSpec ''Metrics'' (StructType (Some metrics_fields))))"

definition some_metric :: "bytes \<Rightarrow> gval" where
  "some_metric n =
     (if n = ''Delta'' then GPtr (Some (GScalar 5)) else if n = ''Value'' then GPtr None else GScalar 1)"

lemma metrics_names: "first_names metrics_fields =
    [(''ID'', Ident ''string''), (''MType'', Ident ''string''), (''Delta'', StarExpr (Ident ''int64'')),
     (''Value'', StarExpr (Ident ''float64'')), (''Hash'', Ident ''string'')]"
  by code_simp


text \<open>What the generator emits for the struct above, in full.\<close>

lemma metrics_body:
  "split_on CHR 0x0A (generateStructResetBody metrics_struct [metrics_struct]) =
     [tab @ ''x.ID = '' @ quote @ quote, tab @ ''x.MType = '' @ quote @ quote,
      tab @ ''if x.Delta != nil {'', tab @ tab @ ''*x.Delta = 0'', tab @ ''}'',
      tab @ ''if x.Value != nil {'', tab @ tab @ ''*x.Value = 0'', tab @ ''}'',
      tab @ ''x.Hash = '' @ quote @ quote]"
  by code_simp

section \<open>What it misses\<close>

text \<open>
  Outside these types the tests on text go wrong, without a message: slices and maps of times and arrays
  are not reset at all, a pointer to a slice of times is assigned a \<open>time.Time\<close>, and a defined type whose
  name begins with \<open>map\<close> is cleared as a map.
\<close>

lemma reset_gaps:
  "generateFieldReset \<lparr>fi_name = n, fi_typ = exprToString (ArrayType False (SelectorExpr (Ident ''time'') ''Time'')), fi_tag = tg\<rparr> ss = []"
  "generateFieldReset \<lparr>fi_name = n, fi_typ = exprToString (MapType (Ident ''string'') (SelectorExpr (Ident ''time'') ''Time'')), fi_tag = tg\<rparr> ss = []"
  "generateFieldReset \<lparr>fi_name = n, fi_typ = exprToString (StarExpr (ArrayType False (SelectorExpr (Ident ''time'') ''Time''))), fi_tag = tg\<rparr> ss
     = guarded (''x.'' @ n) (''*x.'' @ n @ '' = time.Time{}'')"
  "generateFieldReset \<lparr>fi_name = n, fi_typ = exprToString (Ident ''mapping''), fi_tag = tg\<rparr> [] = ''clear(x.'' @ n @ '')''"
  "generateFieldReset \<lparr>fi_name = n, fi_typ = exprToString (ArrayType True (Ident ''int'')), fi_tag = tg\<rparr> [] = []"
  by (simp_all add: generateFieldReset_def isBuiltinType_def generateBuiltinReset_def shouldCallReset_def isPrimitiveType_def
      Let_def)

text \<open>
  The template trims the line breaks between import specifications, so two of them stand on one line
  without a separator, which is not Go: \<open>gofmt\<close> refuses it and a package that needs two imports gets
  no file.
\<close>

lemma two_imports_share_a_line:
  assumes "collectNeededImports tord pord info = i # j # js"
  shows "\<exists>pre post. reset_source tord pord info = pre @ ''import ('' @ import_spec i @ import_spec j @ post"
proof -
  let ?post = "concat (map import_spec js) @ nl @ '')''
     @ concat (map (\<lambda>s. nl @ ''func (x *'' @ ts_Name s @ '') Reset() {'' @ nl @ ts_Body s @ nl @ ''}'')
         (map (\<lambda>s. \<lparr>ts_Name = si_name s, ts_Body = generateStructResetBody s (pi_structs info)\<rparr>) (pi_structs info)))
     @ nl"
  let ?pre = "''// Code generated by reset generator. DO NOT EDIT.'' @ nl
     @ ''//go:generate go run ./cmd/reset/main.go'' @ nl @ nl @ ''package '' @ pi_name info @ nl"
  have "reset_source tord pord info = ?pre @ ''import ('' @ import_spec i @ import_spec j @ ?post"
    unfolding reset_source_def resetTemplate_def assms by (simp only: tmplData.simps list.map concat.simps append_assoc if_True) simp
  then show ?thesis by blast
qed

lemma two_imports_no_file:
  assumes "collectNeededImports tord pord info = i # j # js"
    and gofmt: "\<And>pre post. \<exists>e. gofmt (pre @ ''import ('' @ import_spec i @ import_spec j @ post) = Inl e"
  shows "\<exists>e. generateResetFile gofmt tord pord pkgPath info fs = (Some (FormatError e (reset_source tord pord info)), fs)"
proof -
  obtain pre post where "reset_source tord pord info = pre @ ''import ('' @ import_spec i @ import_spec j @ post"
    using two_imports_share_a_line [OF assms(1)] by blast
  with gofmt [of pre post] obtain e where "gofmt (reset_source tord pord info) = Inl e" by metis
  then show ?thesis by (simp add: generateResetFile_def Let_def)
qed

end
