(* ===== verification/Linter.thy ===== *)
theory Linter
  imports Prelude
begin

text \<open>
  The analyzer \<open>paniclogexit\<close> (\<open>cmd/linter\<close>): it reports calls of \<open>panic\<close>, and calls of
  \<open>log.Fatal\<close> and \<open>os.Exit\<close> outside the function \<open>main\<close> of the package \<open>main\<close>. The syntax trees and
  the resolution of names come from \<open>go/ast\<close> and \<open>go/types\<close>; the model has the calls of a package
  in the order of the traversal, what is called, and the extent of the function bodies.
\<close>

section \<open>The package under analysis\<close>

text \<open>What is called: a name, a selector on a name (with the position of that name, by which its use is
  looked up), or something else.\<close>

datatype callee = CIdent bytes | CSelector nat bytes | CSelectorOther | COther

record call_expr =
  call_pos :: nat
  call_fun :: callee

text \<open>What a name refers to: an imported package with its path, or another object.\<close>

datatype object = PkgName bytes | OtherObject

record func_decl =
  fn_name :: bytes
  fn_body :: "(nat \<times> nat) option"

record pass =
  pkg :: bytes
  funcs :: "func_decl list list"
  calls :: "call_expr list"
  uses :: "nat \<rightharpoonup> object"

datatype report = PanicCall nat | FatalCall nat bytes | ExitCall nat

section \<open>The analyzer\<close>

definition in_body :: "nat \<Rightarrow> func_decl \<Rightarrow> bool" where
  "in_body pos fn \<longleftrightarrow> fn_name fn = ''main'' \<and> (case fn_body fn of None \<Rightarrow> False | Some (l, r) \<Rightarrow> l \<le> pos \<and> pos \<le> r)"

definition isInMainFunction :: "pass \<Rightarrow> nat \<Rightarrow> bool" where
  "isInMainFunction p pos \<longleftrightarrow>
     (if pkg p \<noteq> ''main'' then False else list_ex (\<lambda>file. list_ex (in_body pos) file) (funcs p))"

definition check_call :: "pass \<Rightarrow> call_expr \<Rightarrow> report list" where
  "check_call p c =
     (case call_fun c of
        CIdent name \<Rightarrow> if name = ''panic'' then [PanicCall (call_pos c)] else []
      | CSelector x funcName \<Rightarrow>
          (case uses p x of
             Some (PkgName pkgName) \<Rightarrow>
               if pkgName = ''log'' \<and> prefix ''Fatal'' funcName then
                 (if \<not> isInMainFunction p (call_pos c) then [FatalCall (call_pos c) funcName] else [])
               else if pkgName = ''os'' \<and> funcName = ''Exit'' then
                 (if \<not> isInMainFunction p (call_pos c) then [ExitCall (call_pos c)] else [])
               else []
           | _ \<Rightarrow> [])
      | _ \<Rightarrow> [])"

definition run :: "pass \<Rightarrow> report list" where
  "run p = concat (map (check_call p) (calls p))"

text \<open>The text of a report.\<close>

fun report_text :: "report \<Rightarrow> bytes" where
  "report_text (PanicCall pos) = ''panic() should not be used in production code called from panic''"
| "report_text (FatalCall pos f) = ''log.'' @ f @ ''() should only be called from main function in main package''"
| "report_text (ExitCall pos) = ''os.Exit() should only be called from main function in main package called from os.Exit''"

section \<open>What it reports\<close>

definition ends_process :: "pass \<Rightarrow> call_expr \<Rightarrow> bool" where
  "ends_process p c \<longleftrightarrow>
     (\<exists>x f. call_fun c = CSelector x f
        \<and> (uses p x = Some (PkgName ''log'') \<and> prefix ''Fatal'' f \<or> uses p x = Some (PkgName ''os'') \<and> f = ''Exit''))"

definition in_main :: "pass \<Rightarrow> nat \<Rightarrow> bool" where
  "in_main p pos \<longleftrightarrow> pkg p = ''main''
     \<and> (\<exists>file \<in> set (funcs p). \<exists>fn \<in> set file. fn_name fn = ''main'' \<and> (\<exists>l r. fn_body fn = Some (l, r) \<and> l \<le> pos \<and> pos \<le> r))"

definition forbidden :: "pass \<Rightarrow> call_expr \<Rightarrow> bool" where
  "forbidden p c \<longleftrightarrow> call_fun c = CIdent ''panic'' \<or> ends_process p c \<and> \<not> in_main p (call_pos c)"

fun report_pos :: "report \<Rightarrow> nat" where
  "report_pos (PanicCall pos) = pos"
| "report_pos (FatalCall pos f) = pos"
| "report_pos (ExitCall pos) = pos"

lemma in_body_iff: "in_body pos fn \<longleftrightarrow> fn_name fn = ''main'' \<and> (\<exists>l r. fn_body fn = Some (l, r) \<and> l \<le> pos \<and> pos \<le> r)"
  by (cases "fn_body fn") (auto simp: in_body_def)

lemma isInMainFunction_iff: "isInMainFunction p pos \<longleftrightarrow> in_main p pos"
  by (simp add: isInMainFunction_def in_main_def in_body_iff list_ex_iff)

lemma check_call_forbidden: "map report_pos (check_call p c) = (if forbidden p c then [call_pos c] else [])"
  by (auto simp: check_call_def forbidden_def ends_process_def isInMainFunction_iff
      split: callee.splits option.splits object.splits)


text \<open>The test file \<open>main_outside_main\<close>: the call in \<open>main\<close> is allowed, the one in \<open>helper\<close> is not.\<close>

definition main_outside_main :: pass where
  "main_outside_main =
     \<lparr>pkg = ''main'',
      funcs = [[\<lparr>fn_name = ''main'', fn_body = Some (10, 30)\<rparr>, \<lparr>fn_name = ''helper'', fn_body = Some (40, 60)\<rparr>]],
      calls = [\<lparr>call_pos = 15, call_fun = CSelector 15 ''Fatal''\<rparr>, \<lparr>call_pos = 45, call_fun = CSelector 45 ''Fatal''\<rparr>],
      uses = (\<lambda>x. Some (PkgName ''log''))\<rparr>"

lemma main_outside_main_reports:
  "map report_text (run main_outside_main) = [''log.Fatal() should only be called from main function in main package'']"
  by code_simp

end
