(* ===== verification/Spec2Isabelle.thy ===== *)
theory Spec2Isabelle
  imports AgentMain ServerMain ServerRun AgentSystem AuditRun GzipPool CollectorLoop DbConcurrent ResetGen Linter
begin

text \<open>
  A model of \<^verbatim>\<open>go-musthave-metrics\<close>: a server that keeps gauges and counters, an agent that polls
  the runtime and reports to it, and two developer tools. Every theory translates one package, or
  one concern of it, into executable definitions, in the order of the code, and proves what makes
  it correct.

  \<^bold>\<open>The program.\<close> The agent (\<open>cmd/agent\<close>) polls two providers into a snapshot with a count of
  polls (\<open>internal/agent/collector\<close>, \<open>provider\<close>); a reporter hands the snapshot to a sender
  (\<open>reporter\<close>, \<open>sender\<close>), which posts it as one batch, signed and compressed, with retries
  (\<open>client\<close>, \<open>internal/retry\<close>). The server (\<open>cmd/server\<close>, \<open>internal/server\<close>) runs a chain of
  middlewares around a router: logging, tracking of active requests, a limit on concurrent requests,
  gzip, the check of the hash (\<open>internal/handler/middlewares\<close>). Behind it are the handlers
  (\<open>metricshandler\<close>, \<open>mainpagehandler\<close>, \<open>pinghandler\<close>), the services (\<open>internal/service\<close>), and one of two
  storages behind the interface \<open>service.Storage\<close>: maps in memory with a file that is written
  periodically and at the end (\<open>memstorage\<close>), or PostgreSQL (\<open>dbstorage\<close>). A batch that was stored
  is published to observers (\<open>internal/observers\<close>). \<open>cmd/reset\<close> generates \<open>Reset\<close> methods from Go
  files, \<open>cmd/linter\<close> reports forbidden calls.

  \<^bold>\<open>The theories.\<close>

  \<^item> \<open>Prelude\<close>, \<open>GoError\<close>, \<open>Strconv\<close>, \<open>Http\<close>, \<open>Json\<close>: what the components share. Strings are lists of
    bytes, \<open>int64\<close> and \<open>float64\<close> are words of 64 bits (a float is its bit pattern), a panic is the
    constructor \<open>Panic\<close> of \<open>outcome\<close>, an error a value of \<open>goerr\<close>; \<open>ParseInt\<close> and \<open>FormatInt\<close> are written
    out; a handler's effect on its response writer is the list of its calls, which \<open>serve\<close>
    interprets; JSON documents are trees, marshalled and unmarshalled by the rules of \<open>encoding/json\<close>.
  \<^item> \<open>Model\<close>, \<open>Config\<close>, \<open>ConfigParse\<close>, \<open>Logger\<close>, \<open>Retry\<close>: \<open>internal/model\<close>, \<open>internal/config\<close>,
    \<open>internal/logger\<close>, \<open>internal/retry\<close>. \<open>retry_Do\<close> is the loop over an operation on any state, with the
    waits and the cancellation of the context; it equals a declarative reference, and
    \<open>retry_do_inv\<close> is the rule by which the database storage's proofs go through its retries.
  \<^item> \<open>Storage\<close>: the interface as a record of methods, the abstract metric table, and the contract:
    the locales \<open>storage_spec\<close>, \<open>exact_storage\<close> and \<open>memory_storage\<close>, with the step of one metric as a
    parameter, since the two storages differ in it.
  \<^item> \<open>MemStorage\<close>, \<open>MemSaver\<close>: the in-memory storage with its file, then its saving goroutine, the
    updates and \<open>Close\<close> as a step relation.
  \<^item> \<open>DbStorage\<close>, \<open>Postgres\<close>, \<open>PgScript\<close>, \<open>DbApi\<close>: the database storage over a driver that is a
    parameter; the laws of the driver (the locale \<open>pgx_driver\<close>) with the proof that the storage keeps
    its contract over any driver that has them; a database that has them, in which a script makes
    calls fail; and what follows.
  \<^item> \<open>Refine\<close>: both storages as implementations of the abstract table, and the database as a
    refinement of the memory.
  \<^item> \<open>Services\<close>, \<open>Handlers\<close>, \<open>ServerApi\<close>: the services (their contract \<open>service_spec\<close> follows from that
    of a storage by \<open>sublocale\<close>), the seven endpoints with all their error answers, and the API over the
    in-memory storage.
  \<^item> \<open>Gzip\<close>, \<open>Signer\<close>, \<open>Limits\<close>: the middlewares. Those that count requests are step relations over
    all requests of the server, those that change one request are functions on handlers.
  \<^item> \<open>Observers\<close>, \<open>Server\<close>, \<open>ServerMain\<close>: the audit, the wiring of the server (the choice of the storage,
    the router with its chain, the shutdown), and its process.
  \<^item> \<open>AgentClient\<close>, \<open>AgentCollect\<close>, \<open>AgentSend\<close>, \<open>AgentApp\<close>, \<open>AgentMain\<close>: the agent; its collector and
    reporter, its worker pool, and its run with the shutdown are step relations.
  \<^item> \<open>Router\<close>, \<open>RouterApi\<close>: the whole server for one request and for a history of requests: what gets
    through the chain (\<open>chain_gate\<close>), what it asks for (\<open>request_effect\<close>), and that the answer tells the
    truth, proved once over the contract \<open>storage_spec\<close> and stated for both storages.
  \<^item> \<open>EndToEnd\<close>, \<open>AgentDatabase\<close>, \<open>AgentSystem\<close>: a request of the agent's client served by the server's
    chain; a wire that loses responses and one that loses requests; then collector, reporter, sender,
    network and server as one step relation.
  \<^item> \<open>ServerRun\<close>: one life of the server in memory: tracked requests, saving goroutine, \<open>waitForShutdown\<close>.
  \<^item> \<open>DbConcurrent\<close>: the statements of concurrent batch transactions interleaved under row locks: they
    serialize, batches in one order never deadlock, and the snapshots of agents can.
  \<^item> \<open>AuditRun\<close>, \<open>GzipPool\<close>, \<open>CollectorLoop\<close>: three places where goroutines share something: the audit
    file and its \<open>Close\<close>, the pool of gzip writers, the collector and its ticker.
  \<^item> \<open>ResetGen\<close>, \<open>Linter\<close>: the two tools, from syntax trees to the text that is generated and to
    the reports.

  \<^bold>\<open>What is shown.\<close> The state of a storage is read through \<open>mem_view\<close> and \<open>pg_view\<close>, its abstract table;
  \<open>mem_ok\<close> and \<open>db_ok\<close> are the invariants that every operation keeps. A handler answers 200
  exactly when the abstract step of its request was made, and otherwise nothing has changed, for
  each endpoint and both storages; a batch is applied whole or not at all. What \<open>Close\<close> saved is what a
  restart restores, in every interleaving with the periodic saving. The database ends with the
  table that the memory reaches by the acknowledged updates, whatever fails, and keeps the type of every
  row. The concurrent parts have an invariant over all interleavings (tasks of the pool, polls,
  requests inside the limit, requests at shutdown, audit lines), and those that must end have a
  measure: \<open>work_left\<close> for the pool, \<open>steps_left\<close> for the agent. The generated \<open>Reset\<close> methods are
  text, a plan of statements, and a meaning of the plan. A snapshot of the agent arrives in the server's
  table through both chains exactly once, and twice when its response is lost; over the database an
  error of \<open>send\<close> means that nothing was stored. In the whole system every poll is counted by the
  server, waits, failed, was refused or was wiped out by a reset. What was answered 200 before a shutdown that did not
  time out is there after the restart, and \<open>late_update_is_lost\<close> shows the shutdown that did. Where the
  code does not do what it means to, the theorem states what it does.

  \<^bold>\<open>Parameters.\<close> Code outside the repository is an argument: \<open>go_std\<close> (the text of floats, durations and JSON,
  the parsing of floats), \<open>pgx\<close> and \<open>migrate_env\<close> (driver and migration tool), \<open>gzip_format\<close> and the packing
  function, the digest, the network (\<open>wire\<close>, \<open>http_out\<close>), \<open>pflag\<close> and \<open>env_lib\<close>, \<open>go/parser\<close> and \<open>gofmt\<close>.
  What a property needs of them is a hypothesis with a name (\<open>pgx_driver\<close>, \<open>text_reads_back\<close>,
  \<open>gauges_read_back\<close>, \<open>flags_documented\<close>, \<open>env_documented\<close>), and each property that has one is applied
  to a concrete instance. The order in which Go iterates over a map is an argument that is only
  known to list the keys.

  \<^bold>\<open>Bounds.\<close> There is no fuel. Loops are structural or have a measure: the retry loop by the attempts
  that are left, the scan of an encoding header by the characters that are left. The counts of retries and
  the counters are 64-bit words; \<open>retries_bounded\<close> excludes the one count, the largest, for which
  \<open>MaxRetries + 1\<close> overflows, and \<open>retry_Do_overflow_skips\<close> shows what happens there. The agent's
  intervals are bounded by 292 years, the range of \<open>time.Duration\<close>.

  \<^bold>\<open>Not modelled.\<close> Logging, except that what decides whether something is logged is kept where it decides
  anything else; the mocks and the inputs of the tests; interfaces with one implementation, which is
  called directly; constructors that only store their arguments; the TCP listeners and \<open>net/http\<close>'s own shutdown, whose results are given
  (\<open>Shutdown\<close> returns nil when no request is in flight, and none arrives after it); the \<open>Allow\<close> header
  of chi's answer 405; the pool of gzip readers, whose \<open>Reset\<close> replaces all of their state; the contents of
  the SQL texts, which are the constructors of \<open>sql\<close> with the effect the documentation of PostgreSQL gives
  them; the rounding of floats, on which the program does no arithmetic. Data races on single
  words are not modelled: a section under a mutex and an operation on a channel are one step.
\<close>

end
